(* ===== verification/Go_Prelude.thy ===== *)
theory Go_Prelude
  imports
    Main
    "HOL-Library.AList"
    "HOL-Library.Multiset"
    "HOL-Library.Word"
    "HOL-Library.Char_ord"
    "HOL-Library.List_Lexorder"
    "HOL-Library.Product_Lexorder"
begin

text \<open>
  Shared vocabulary of the development: the parts of Go's runtime and standard library that
  every component of the Control Center uses, as HOL types and functions, and the generic
  lemmas on finite maps, sorting and machine integers the component theories rest on.

  \<^item> \<open>time\<close> is \<^verbatim>\<open>time.Time\<close> as the instant it denotes: nanoseconds since the zero time
    (1 January of year 1, UTC). The zero value is 0, so \<^verbatim>\<open>IsZero\<close> is \<open>= 0\<close>,
    \<^verbatim>\<open>Before\<close>/\<^verbatim>\<open>After\<close>/\<^verbatim>\<open>Equal\<close> are the order and equality of \<open>int\<close>, and
    \<^verbatim>\<open>UTC\<close>, which changes the location and not the instant, is the identity.
  \<^item> \<open>duration\<close> is \<^verbatim>\<open>time.Duration\<close>, a signed 64-bit count of nanoseconds. It is an \<open>int\<close>
    here; operations that can overflow in the source are wrapped with \<open>i64\<close>.
  \<^item> \<open>uint64\<close> counters (versions, generations, sequences) are \<open>64 word\<close> and wrap.
  \<^item> \<open>ctx\<close> is what \<^verbatim>\<open>ctx.Err()\<close> answers: \<open>None\<close> while the context is live.
  \<^item> a Go map is an association list with distinct keys, read by \<open>map_of\<close> and written by
    \<open>gput\<close>; the order of the list stands for the unspecified iteration order of the map.
\<close>

named_theorems go_defs \<open>definitions of small Go library functions\<close>
named_theorems inv_intros \<open>preservation of component invariants\<close>

subsection \<open>Time, contexts, machine integers\<close>

type_synonym "time" = int
type_synonym duration = int
type_synonym uint64 = "64 word"
type_synonym bytes = string

datatype ctx_error = Canceled | DeadlineExceeded
type_synonym ctx = "ctx_error option"

definition i64 :: "int \<Rightarrow> int" where
  "i64 x = (x + 2 ^ 63) mod 2 ^ 64 - 2 ^ 63"

definition time_UTC :: "time \<Rightarrow> time" where
  [go_defs, simp]: "time_UTC t = t"

definition time_Add :: "time \<Rightarrow> duration \<Rightarrow> time" where
  [go_defs, simp]: "time_Add t d = t + d"

abbreviation (input) IsZero :: "time \<Rightarrow> bool" where
  "IsZero t \<equiv> t = 0"

definition max_duration :: duration where
  "max_duration = 2 ^ 63 - 1"

definition min_duration :: duration where
  "min_duration = - (2 ^ 63)"

text \<open>\<^verbatim>\<open>Time.Sub\<close> saturates at the largest and smallest durations.\<close>

definition time_Sub :: "time \<Rightarrow> time \<Rightarrow> duration" where
  "time_Sub t u = max min_duration (min max_duration (t - u))"

definition nanosecond :: duration where "nanosecond = 1"
definition second :: duration where "second = 1000000000"
definition minute :: duration where "minute = 60 * second"
definition hour :: duration where "hour = 60 * minute"

lemmas duration_units [go_defs] = nanosecond_def second_def minute_def hour_def

lemma i64_id [simp]: "- (2 ^ 63) \<le> x \<Longrightarrow> x < 2 ^ 63 \<Longrightarrow> i64 x = x"
  by (simp add: i64_def)

lemma i64_bounds: "- (2 ^ 63) \<le> i64 x \<and> i64 x < 2 ^ 63"
  using pos_mod_bound[of "2 ^ 64" "x + 2 ^ 63"] pos_mod_sign[of "2 ^ 64" "x + 2 ^ 63"]
  by (simp add: i64_def)

lemma word_Suc_neq [simp]: "(v :: 'a :: len word) + 1 \<noteq> v"
  by simp

lemma uint64_less_Suc: "(v :: uint64) \<noteq> - 1 \<Longrightarrow> v < v + 1"
  by (metis add.commute add.right_inverse add_left_imp_eq lessI unatSuc word_less_nat_alt)

lemma uint64_of_nat_eq_0: "k < 2 ^ 64 \<Longrightarrow> (of_nat k :: uint64) = 0 \<Longrightarrow> k = 0"
  by (metis len_num0 len_bit0 len_num1 mod_less unat_0 unat_of_nat mult_2 numeral_Bit0 one_add_one)

subsection \<open>Results\<close>

text \<open>
  A function returning only an \<^verbatim>\<open>error\<close> is of type \<open>'e + unit\<close>: \<open>Inl\<close> the error, or \<open>Inr ()\<close> for
  \<^verbatim>\<open>nil\<close>.
\<close>

lemma not_Inl_unit [simp]: "(\<forall>e. (x :: 'e + unit) \<noteq> Inl e) \<longleftrightarrow> x = Inr ()"
  by (cases x) auto

lemma not_Inr_unit: "(x :: 'e + unit) \<noteq> Inr () \<longleftrightarrow> (\<exists>e. x = Inl e)"
  by (cases x) auto

text \<open>A validator that runs checks one after the other and returns the first error.\<close>

fun first_error :: "('e + unit) list \<Rightarrow> 'e + unit" where
  "first_error [] = Inr ()"
| "first_error (Inl e # cs) = Inl e"
| "first_error (Inr _ # cs) = first_error cs"

definition require :: "bool \<Rightarrow> 'e \<Rightarrow> 'e + unit" where
  "require b e = (if b then Inr () else Inl e)"

lemma first_error_Inr [simp]: "first_error cs = Inr () \<longleftrightarrow> (\<forall>c \<in> set cs. c = Inr ())"
  by (induction cs rule: first_error.induct) auto

lemma require_Inr [simp]: "require b e = Inr () \<longleftrightarrow> b" "require b e = Inl e' \<longleftrightarrow> \<not> b \<and> e' = e"
  by (auto simp: require_def)

subsection \<open>Go maps as association lists\<close>

abbreviation gget :: "('k \<times> 'v) list \<Rightarrow> 'k \<Rightarrow> 'v option" where
  "gget m k \<equiv> map_of m k"

abbreviation gput :: "'k \<Rightarrow> 'v \<Rightarrow> ('k \<times> 'v) list \<Rightarrow> ('k \<times> 'v) list" where
  "gput k v m \<equiv> AList.update k v m"

abbreviation gdel :: "'k \<Rightarrow> ('k \<times> 'v) list \<Rightarrow> ('k \<times> 'v) list" where
  "gdel k m \<equiv> AList.delete k m"

abbreviation gkeys :: "('k \<times> 'v) list \<Rightarrow> 'k list" where
  "gkeys m \<equiv> map fst m"

definition gmap_ok :: "('k \<times> 'v) list \<Rightarrow> bool" where
  "gmap_ok m \<longleftrightarrow> distinct (map fst m)"

lemma gget_gput [simp]: "gget (gput k v m) k' = (if k' = k then Some v else gget m k')"
  by (simp add: update_conv')

lemma gget_gdel [simp]: "gget (gdel k m) k' = (if k' = k then None else gget m k')"
  by (simp add: delete_conv')

lemma gmap_ok_Nil [simp]: "gmap_ok []"
  by (simp add: gmap_ok_def)

lemma gmap_ok_gput [simp, intro]: "gmap_ok m \<Longrightarrow> gmap_ok (gput k v m)"
  by (simp add: gmap_ok_def distinct_update)

lemma gmap_ok_gdel [simp, intro]: "gmap_ok m \<Longrightarrow> gmap_ok (gdel k m)"
  by (simp add: gmap_ok_def distinct_delete)

lemma gkeys_gput: "set (gkeys (gput k v m)) = insert k (set (gkeys m))"
  by (auto simp: dom_update)

lemma gget_key_iff: "k \<in> set (gkeys m) \<longleftrightarrow> (\<exists>v. gget m k = Some v)"
  by (metis map_of_eq_None_iff not_None_eq list.set_map)

lemma gmap_ok_gget_iff: "gmap_ok m \<Longrightarrow> gget m k = Some v \<longleftrightarrow> (k, v) \<in> set m"
  by (simp add: gmap_ok_def)

lemma gput_fresh: "gget m k = None \<Longrightarrow> gput k v m = m @ [(k, v)]"
  by (induction m) (auto split: if_splits)

lemma length_gput: "gget m k = None \<Longrightarrow> length (gput k v m) = Suc (length m)"
  by (induction m) auto

lemma length_gput_present: "gget m k \<noteq> None \<Longrightarrow> length (gput k v m) = length m"
  by (induction m) (auto split: if_splits)

subsection \<open>Sorting\<close>

text \<open>
  \<^verbatim>\<open>sort.Slice\<close> with a comparison by key is \<open>sort_key\<close>. The Go routine is not stable, which
  makes no difference where keys are unique; the next lemma says so: the sorted slice
  depends on the elements only, not on the order in which a map range produced them.
\<close>

lemma sort_key_order_independent:
  assumes "mset xs = mset ys" and "inj_on f (set xs)"
  shows "sort_key f xs = sort_key f ys"
proof -
  have "mset xs = mset (sort_key f ys)" using assms(1) by simp
  then show ?thesis using assms(2) by (rule sort_key_inj_key_eq) simp
qed

lemma gmap_same_contents:
  assumes "gmap_ok m" "gmap_ok m'" "\<And>k. gget m k = gget m' k"
  shows "mset m = mset m'"
proof -
  have "distinct m" "distinct m'"
    using assms(1,2) by (auto simp: gmap_ok_def distinct_map)
  moreover have "set m = set m'"
    using assms by (auto simp flip: gmap_ok_gget_iff)
  ultimately show ?thesis by (simp add: set_eq_iff_mset_eq_distinct)
qed

subsection \<open>Transition systems\<close>

text \<open>
  The interface every stateful component offers to the invariant arguments: a set of initial
  states and a step relation. \<open>reach\<close> is reachability by finitely many steps.
\<close>

locale step_system =
  fixes init :: "'s \<Rightarrow> bool"
    and step :: "'s \<Rightarrow> 's \<Rightarrow> bool"
    and inv :: "'s \<Rightarrow> bool"
  assumes init_inv: "init s \<Longrightarrow> inv s"
    and step_inv: "inv s \<Longrightarrow> step s t \<Longrightarrow> inv t"
begin

lemma steps_inv: "step\<^sup>*\<^sup>* s t \<Longrightarrow> inv s \<Longrightarrow> inv t"
  by (induction rule: rtranclp_induct) (auto intro: step_inv)

lemma reach_inv: "init s \<Longrightarrow> step\<^sup>*\<^sup>* s t \<Longrightarrow> inv t"
  using init_inv steps_inv by blast

end

text \<open>
  A step system in which some facts, once true, stay true. \<open>frozen\<close> is such a fact; the
  component theories use it for terminal jobs, recorded evidence and the like.
\<close>

locale frozen_system = step_system +
  fixes frozen :: "'s \<Rightarrow> bool"
  assumes frozen_step: "inv s \<Longrightarrow> frozen s \<Longrightarrow> step s t \<Longrightarrow> frozen t"
begin

lemma frozen_steps:
  assumes "step\<^sup>*\<^sup>* s t" "inv s" "frozen s"
  shows "frozen t"
proof -
  from assms(1) have "inv t \<and> frozen t"
    by (induction rule: rtranclp_induct) (use assms(2,3) in \<open>auto intro: step_inv frozen_step\<close>)
  then show ?thesis ..
qed

end

subsection \<open>Optimistic concurrency\<close>

text \<open>
  The contract of every versioned object: a command carries the version its author looked at,
  \<open>apply s c v\<close> is \<open>Some\<close> of the successor when the command is accepted, and an accepted
  command was issued against the current version and moves it by one. The interface is shared
  by \<^verbatim>\<open>change.Machine\<close>, \<^verbatim>\<open>networkpolicy.ChangeMachine\<close> and the versioned cancellation of jobs.
\<close>

locale versioned_object =
  fixes version :: "'s \<Rightarrow> uint64"
    and accept :: "'s \<Rightarrow> 'c \<Rightarrow> uint64 \<Rightarrow> 's option"
  assumes accept_current: "accept s c v = Some t \<Longrightarrow> version s = v"
    and accept_version: "accept s c v = Some t \<Longrightarrow> version t = v + 1"
begin

lemma stale_rejected: "version s \<noteq> v \<Longrightarrow> accept s c v = None"
  by (metis accept_current not_None_eq)

text \<open>Of two commands issued against the same version, at most one is accepted.\<close>

lemma no_lost_update:
  assumes "accept s c v = Some t"
  shows "accept t c' v = None"
proof -
  have "version t \<noteq> v" using accept_version[OF assms] by simp
  then show ?thesis by (rule stale_rejected)
qed

end

end
