(* ===== verification/Go_Strings.thy ===== *)
theory Go_Strings
  imports Go_Prelude
begin

text \<open>
  Go strings are byte sequences; \<open>string\<close> is a list of 8-bit characters, so a Go string is its
  list of bytes and \<open>length\<close> is Go's \<^verbatim>\<open>len\<close>. This theory models the functions of the
  packages \<^verbatim>\<open>strings\<close>, \<^verbatim>\<open>unicode\<close>, \<^verbatim>\<open>unicode/utf8\<close> and \<^verbatim>\<open>fmt\<close> the components call:
  \<^verbatim>\<open>TrimSpace\<close>, \<^verbatim>\<open>HasPrefix\<close>, the rune loop \<^verbatim>\<open>for _, r := range s\<close>, \<^verbatim>\<open>ValidString\<close>,
  \<^verbatim>\<open>RuneCountInString\<close>, \<^verbatim>\<open>IsSpace\<close>, \<^verbatim>\<open>IsControl\<close>, \<^verbatim>\<open>%d\<close> and hexadecimal output.
  It also has \<^verbatim>\<open>sort.SearchStrings\<close>, the binary search in a sorted slice.
\<close>

subsection \<open>TrimSpace\<close>

text \<open>
  The bytes of the encodings of the code points with the Unicode property White Space: one
  byte for the ASCII ones, two for U+0085 and U+00A0, three for U+1680, U+2000 to U+200A,
  U+2028, U+2029, U+202F, U+205F and U+3000.
\<close>

definition space1 :: "char \<Rightarrow> bool" where
  "space1 c \<longleftrightarrow> c = CHR 0x09 \<or> c = CHR 0x0A \<or> c = CHR 0x0B \<or> c = CHR 0x0C \<or> c = CHR 0x0D
     \<or> c = CHR 0x20"

definition space2 :: "char \<Rightarrow> char \<Rightarrow> bool" where
  "space2 a b \<longleftrightarrow> a = CHR 0xC2 \<and> (b = CHR 0x85 \<or> b = CHR 0xA0)"

definition space3 :: "char \<Rightarrow> char \<Rightarrow> char \<Rightarrow> bool" where
  "space3 a b c \<longleftrightarrow>
     (a = CHR 0xE1 \<and> b = CHR 0x9A \<and> c = CHR 0x80)
   \<or> (a = CHR 0xE2 \<and> b = CHR 0x80 \<and>
       (CHR 0x80 \<le> c \<and> c \<le> CHR 0x8A \<or> c = CHR 0xA8 \<or> c = CHR 0xA9 \<or> c = CHR 0xAF))
   \<or> (a = CHR 0xE2 \<and> b = CHR 0x81 \<and> c = CHR 0x9F)
   \<or> (a = CHR 0xE3 \<and> b = CHR 0x80 \<and> c = CHR 0x80)"

fun strip :: "(char \<Rightarrow> char \<Rightarrow> bool) \<Rightarrow> (char \<Rightarrow> char \<Rightarrow> char \<Rightarrow> bool) \<Rightarrow> string \<Rightarrow> string" where
  "strip p2 p3 [] = []"
| "strip p2 p3 (a # s) =
     (if space1 a then strip p2 p3 s
      else case s of
        [] \<Rightarrow> [a]
      | b # t \<Rightarrow>
          if p2 a b then strip p2 p3 t
          else (case t of
                  [] \<Rightarrow> a # s
                | c # u \<Rightarrow> if p3 a b c then strip p2 p3 u else a # s))"

definition trim_left :: "string \<Rightarrow> string" where
  "trim_left s = strip space2 space3 s"

definition trim_right :: "string \<Rightarrow> string" where
  "trim_right s = rev (strip (\<lambda>b a. space2 a b) (\<lambda>c b a. space3 a b c) (rev s))"

definition TrimSpace :: "string \<Rightarrow> string" where
  "TrimSpace s = trim_right (trim_left s)"

definition HasPrefix :: "string \<Rightarrow> string \<Rightarrow> bool" where
  "HasPrefix s p \<longleftrightarrow> take (length p) s = p"

text \<open>The two notions the validators build on: blank, and canonical (trimmed already).\<close>

definition blank :: "string \<Rightarrow> bool" where
  "blank s \<longleftrightarrow> TrimSpace s = []"

definition canonical :: "string \<Rightarrow> bool" where
  "canonical s \<longleftrightarrow> TrimSpace s \<noteq> [] \<and> TrimSpace s = s"

lemmas trim_defs = TrimSpace_def trim_left_def trim_right_def space1_def space2_def space3_def

lemma strip_idem [simp]: "strip p2 p3 (strip p2 p3 s) = strip p2 p3 s"
  by (induction p2 p3 s rule: strip.induct) (auto split: list.splits)

lemma strip_suffix: "\<exists>ps. s = ps @ strip p2 p3 s"
proof (induction p2 p3 s rule: strip.induct)
  case (2 p2 p3 a s)
  show ?case
  proof (cases "space1 a")
    case True
    then show ?thesis using "2.IH"(1) by (metis append_Cons strip.simps(2))
  next
    case False
    show ?thesis
    proof (cases s)
      case (Cons b t)
      show ?thesis
      proof (cases "p2 a b")
        case True
        then obtain ps where "t = ps @ strip p2 p3 t" using "2.IH"(2) False Cons by blast
        then have "a # s = (a # b # ps) @ strip p2 p3 (a # s)" using False Cons True by simp
        then show ?thesis by blast
      next
        case no2: False
        show ?thesis
        proof (cases t)
          case (Cons c u)
          show ?thesis
          proof (cases "p3 a b c")
            case True
            then obtain ps where "u = ps @ strip p2 p3 u"
              using "2.IH"(3) False no2 \<open>s = b # t\<close> Cons by blast
            then have "a # s = (a # b # c # ps) @ strip p2 p3 (a # s)"
              using False no2 \<open>s = b # t\<close> Cons True by simp
            then show ?thesis by blast
          qed (use False no2 \<open>s = b # t\<close> Cons in simp)
        qed (use False no2 Cons in simp)
      qed
    qed (use False in simp)
  qed
qed simp

text \<open>A prefix of a string with nothing to strip has nothing to strip.\<close>

lemma strip_prefix_fixed:
  assumes "strip p2 p3 (s @ t) = s @ t" shows "strip p2 p3 s = s"
proof (cases s)
  case (Cons a s')
  have len: "length (strip p2 p3 r) \<le> length r" for r
    using strip_suffix[of r p2 p3] by (metis le_add2 length_append)
  show ?thesis
  proof (cases s')
    case Nil
    then show ?thesis using assms Cons len[of t] by (auto split: if_splits)
  next
    case s': (Cons b u)
    show ?thesis
      using assms Cons s' len[of "s' @ t"] len[of "u @ t"] len[of "tl (u @ t)"]
      by (cases u) (auto split: if_splits list.splits)
  qed
qed simp

lemma TrimSpace_idem [simp]: "TrimSpace (TrimSpace s) = TrimSpace s"
proof -
  let ?q2 = "\<lambda>b a. space2 a b" and ?q3 = "\<lambda>c b a. space3 a b c"
  let ?l = "trim_left s"
  obtain ps where "rev ?l = ps @ strip ?q2 ?q3 (rev ?l)" using strip_suffix by blast
  then have "?l = trim_right ?l @ rev ps"
    by (metis rev_append rev_rev_ident trim_right_def)
  moreover have "trim_left ?l = ?l" by (simp add: trim_left_def)
  ultimately have "trim_left (trim_right ?l) = trim_right ?l"
    unfolding trim_left_def using strip_prefix_fixed by metis
  moreover have "trim_right (trim_right ?l) = trim_right ?l" by (simp add: trim_right_def)
  ultimately show ?thesis by (simp add: TrimSpace_def)
qed

lemma TrimSpace_Nil [simp]: "TrimSpace [] = []"
  by (simp add: trim_defs)

lemma canonical_nonempty: "canonical s \<Longrightarrow> s \<noteq> []"
  by (metis canonical_def)

lemma canonical_trim: "canonical s \<Longrightarrow> TrimSpace s = s"
  by (simp add: canonical_def)

lemma canonical_not_blank: "canonical s \<Longrightarrow> \<not> blank s"
  by (auto simp: canonical_def blank_def)

text \<open>The two ways the validators write the test.\<close>

lemma not_canonical_iff:
  "TrimSpace s = [] \<or> s \<noteq> TrimSpace s \<longleftrightarrow> \<not> canonical s"
  "TrimSpace s = [] \<or> TrimSpace s \<noteq> s \<longleftrightarrow> \<not> canonical s"
  unfolding canonical_def by metis+

lemma blank_Nil [simp]: "blank []"
  by (simp add: blank_def)

subsection \<open>Runes\<close>

text \<open>
  One step of Go's UTF-8 decoder: the code point and its width. A byte sequence the decoder
  rejects is U+FFFD of width 1, flagged invalid.
\<close>

definition cont :: "nat \<Rightarrow> bool" where
  "cont b \<longleftrightarrow> 0x80 \<le> b \<and> b \<le> 0xBF"

definition second_ok :: "nat \<Rightarrow> nat \<Rightarrow> bool" where
  "second_ok a b \<longleftrightarrow>
     (if a = 0xE0 then 0xA0 \<le> b \<and> b \<le> 0xBF
      else if a = 0xED then 0x80 \<le> b \<and> b \<le> 0x9F
      else if a = 0xF0 then 0x90 \<le> b \<and> b \<le> 0xBF
      else if a = 0xF4 then 0x80 \<le> b \<and> b \<le> 0x8F
      else cont b)"

definition decode_rune :: "nat list \<Rightarrow> (nat \<times> bool) \<times> nat" where
  "decode_rune s =
     (case s of
        [] \<Rightarrow> ((0xFFFD, False), 0)
      | a # s1 \<Rightarrow>
          let bad = ((0xFFFD, False), 1) in
          if a < 0x80 then ((a, True), 1)
          else case s1 of
            [] \<Rightarrow> bad
          | b # s2 \<Rightarrow>
              if 0xC2 \<le> a \<and> a \<le> 0xDF then
                (if cont b then (((a - 0xC0) * 64 + (b - 0x80), True), 2) else bad)
              else case s2 of
                [] \<Rightarrow> bad
              | c # s3 \<Rightarrow>
                  if 0xE0 \<le> a \<and> a \<le> 0xEF then
                    (if second_ok a b \<and> cont c
                     then (((a - 0xE0) * 4096 + (b - 0x80) * 64 + (c - 0x80), True), 3) else bad)
                  else case s3 of
                    [] \<Rightarrow> bad
                  | d # _ \<Rightarrow>
                      if 0xF0 \<le> a \<and> a \<le> 0xF4 \<and> second_ok a b \<and> cont c \<and> cont d
                      then (((a - 0xF0) * 262144 + (b - 0x80) * 4096 + (c - 0x80) * 64
                              + (d - 0x80), True), 4)
                      else bad)"

fun runes_of :: "nat \<Rightarrow> nat list \<Rightarrow> (nat \<times> bool) list" where
  "runes_of skip [] = []"
| "runes_of 0 (a # s) =
     (case decode_rune (a # s) of (r, w) \<Rightarrow> r # runes_of (w - 1) s)"
| "runes_of (Suc n) (a # s) = runes_of n s"

definition bytes_of :: "string \<Rightarrow> nat list" where
  "bytes_of s = map of_char s"

definition rune_list :: "string \<Rightarrow> nat list" where
  "rune_list s = map fst (runes_of 0 (bytes_of s))"

definition utf8_ValidString :: "string \<Rightarrow> bool" where
  "utf8_ValidString s \<longleftrightarrow> list_all snd (runes_of 0 (bytes_of s))"

definition RuneCountInString :: "string \<Rightarrow> nat" where
  "RuneCountInString s = length (rune_list s)"

definition unicode_IsControl :: "nat \<Rightarrow> bool" where
  "unicode_IsControl r \<longleftrightarrow> r \<le> 0x1F \<or> 0x7F \<le> r \<and> r \<le> 0x9F"

definition unicode_IsSpace :: "nat \<Rightarrow> bool" where
  "unicode_IsSpace r \<longleftrightarrow>
     0x09 \<le> r \<and> r \<le> 0x0D \<or> r = 0x20 \<or> r = 0x85 \<or> r = 0xA0 \<or> r = 0x1680
   \<or> 0x2000 \<le> r \<and> r \<le> 0x200A \<or> r = 0x2028 \<or> r = 0x2029 \<or> r = 0x202F \<or> r = 0x205F
   \<or> r = 0x3000"

lemmas rune_defs = rune_list_def utf8_ValidString_def RuneCountInString_def bytes_of_def
  decode_rune_def cont_def second_ok_def unicode_IsControl_def unicode_IsSpace_def

lemma runes_of_length: "length (runes_of n s) \<le> length s"
  by (induction n s rule: runes_of.induct) (auto split: prod.splits)

lemma RuneCount_le_len: "RuneCountInString s \<le> length s"
  using runes_of_length[of 0 "bytes_of s"] by (simp add: rune_defs)

subsection \<open>Decimal and hexadecimal output\<close>

definition digit_char :: "nat \<Rightarrow> char" where
  "digit_char d = char_of (48 + d)"

fun show_nat :: "nat \<Rightarrow> string" where
  "show_nat n = (if n < 10 then [digit_char n] else show_nat (n div 10) @ [digit_char (n mod 10)])"

declare show_nat.simps [simp del]

definition show_int :: "int \<Rightarrow> string" where
  "show_int i = (if i < 0 then CHR ''-'' # show_nat (nat (- i)) else show_nat (nat i))"

definition show_uint64 :: "uint64 \<Rightarrow> string" where
  "show_uint64 w = show_nat (unat w)"

definition hex_char :: "nat \<Rightarrow> char" where
  "hex_char d = (if d < 10 then char_of (48 + d) else char_of (87 + d))"

lemma of_digit_char: "d < 10 \<Longrightarrow> of_char (digit_char d) = (48 + d :: nat)"
  by (simp add: digit_char_def)

lemma digit_char_inj: "d < 10 \<Longrightarrow> e < 10 \<Longrightarrow> digit_char d = digit_char e \<Longrightarrow> d = e"
  by (metis add_left_cancel of_digit_char)

lemma show_nat_digits: "c \<in> set (show_nat n) \<Longrightarrow> \<exists>d<10. c = digit_char d"
proof (induction n rule: show_nat.induct)
  case (1 n)
  then show ?case
    by (cases "n < 10") (auto simp: show_nat.simps[of n] intro: exI[of _ "n mod 10"])
qed

lemma show_nat_nonempty: "show_nat n \<noteq> []"
  by (subst show_nat.simps) simp

lemma show_nat_inj: "show_nat m = show_nat n \<Longrightarrow> m = n"
proof (induction m arbitrary: n rule: show_nat.induct)
  case (1 m)
  show ?case
  proof (cases "m < 10")
    case m: True
    show ?thesis
    proof (cases "n < 10")
      case True
      then show ?thesis using m 1 digit_char_inj by (simp add: show_nat.simps[of m] show_nat.simps[of n])
    next
      case False
      then show ?thesis using m 1 show_nat_nonempty[of "n div 10"]
        by (simp add: show_nat.simps[of m] show_nat.simps[of n])
    qed
  next
    case m: False
    show ?thesis
    proof (cases "n < 10")
      case True
      then show ?thesis using m 1 show_nat_nonempty[of "m div 10"]
        by (simp add: show_nat.simps[of m] show_nat.simps[of n])
    next
      case n: False
      have eq: "show_nat (m div 10) = show_nat (n div 10)" "digit_char (m mod 10) = digit_char (n mod 10)"
        using m n "1.prems" by (simp_all add: show_nat.simps[of m] show_nat.simps[of n])
      have "m div 10 = n div 10" using "1.IH"[OF m eq(1)] .
      moreover have "m mod 10 = n mod 10" using eq(2) by (intro digit_char_inj) auto
      ultimately show ?thesis by (metis div_mult_mod_eq)
    qed
  qed
qed

lemma show_uint64_inj: "show_uint64 v = show_uint64 w \<Longrightarrow> v = w"
  by (simp add: show_uint64_def show_nat_inj word_unat_eq_iff)

lemma show_nat_not_in:
  assumes "of_char c < (48 :: nat) \<or> (58 :: nat) \<le> of_char c"
  shows "c \<notin> set (show_nat n)"
proof
  assume "c \<in> set (show_nat n)"
  then obtain d where "d < 10" "c = digit_char d" using show_nat_digits by blast
  then show False using assms by (simp add: of_digit_char)
qed

lemma show_uint64_no_nul: "CHR 0x00 \<notin> set (show_uint64 v)"
  unfolding show_uint64_def by (rule show_nat_not_in) simp

lemma show_uint64_no_colon: "CHR '':'' \<notin> set (show_uint64 v)"
  unfolding show_uint64_def by (rule show_nat_not_in) simp

lemma show_int_no_colon: "CHR '':'' \<notin> set (show_int v)"
  unfolding show_int_def using show_nat_not_in[of "CHR '':''"] by auto

lemma last_sep_unique:
  assumes "xs @ c # ys = xs' @ c # ys'" "c \<notin> set ys" "c \<notin> set ys'"
  shows "xs = xs' \<and> ys = ys'"
proof -
  have "takeWhile (\<lambda>d. d \<noteq> c) (rev (xs @ c # ys)) = rev ys"
    using assms(2) by (auto simp: takeWhile_append)
  moreover have "takeWhile (\<lambda>d. d \<noteq> c) (rev (xs' @ c # ys')) = rev ys'"
    using assms(3) by (auto simp: takeWhile_append)
  ultimately show ?thesis using assms(1) by (metis append_same_eq rev_rev_ident)
qed

text \<open>
  A key built as \<^verbatim>\<open>a + "\x00" + b\<close> determines both parts when the second holds no NUL byte.
\<close>

lemma nul_split_unique:
  assumes "a @ CHR 0x00 # b = a' @ CHR 0x00 # b'" "CHR 0x00 \<notin> set b" "CHR 0x00 \<notin> set b'"
  shows "a = a' \<and> b = b'"
proof -
  have "takeWhile (\<lambda>c. c \<noteq> CHR 0x00) (rev (a @ CHR 0x00 # b)) = rev b"
    using assms(2) by (subst rev_append, subst rev.simps, subst append_assoc)
      (subst takeWhile_append2, auto)
  moreover have "takeWhile (\<lambda>c. c \<noteq> CHR 0x00) (rev (a' @ CHR 0x00 # b')) = rev b'"
    using assms(3) by (subst rev_append, subst rev.simps, subst append_assoc)
      (subst takeWhile_append2, auto)
  ultimately have "b = b'" using assms(1) by simp
  then show ?thesis using assms(1) by simp
qed

subsection \<open>Search in a sorted slice\<close>

text \<open>
  \<^verbatim>\<open>sort.SearchStrings\<close>, the binary search of \<^verbatim>\<open>sort.Search\<close>: the least index at or after which
  the sorted slice is not below the wanted string.
\<close>

function search_loop :: "string list \<Rightarrow> string \<Rightarrow> nat \<Rightarrow> nat \<Rightarrow> nat" where
  "search_loop xs w i j =
     (if i < j then
        let h = (i + j) div 2 in
        if \<not> xs ! h \<ge> w then search_loop xs w (h + 1) j else search_loop xs w i h
      else i)"
  by pat_completeness auto
termination
  by (relation "measure (\<lambda>(xs, w, i, j). j - i)") auto

declare search_loop.simps [simp del]

definition SearchStrings :: "string list \<Rightarrow> string \<Rightarrow> nat" where
  "SearchStrings xs w = search_loop xs w 0 (length xs)"

text \<open>The search keeps everything left of the window below \<open>w\<close> and everything right of it at or above.\<close>

lemma search_loop_boundary:
  assumes "sorted xs" "i \<le> j" "j \<le> length xs"
    and "\<And>k. k < i \<Longrightarrow> xs ! k < w" and "\<And>k. j \<le> k \<Longrightarrow> k < length xs \<Longrightarrow> w \<le> xs ! k"
  shows "(\<forall>k < search_loop xs w i j. xs ! k < w)
       \<and> (\<forall>k. search_loop xs w i j \<le> k \<and> k < length xs \<longrightarrow> w \<le> xs ! k)"
  using assms
proof (induction xs w i j rule: search_loop.induct)
  case (1 xs w i j)
  show ?case
  proof (cases "i < j")
    case True
    let ?h = "(i + j) div 2"
    have h: "i \<le> ?h" "?h < j" "?h < length xs" using True "1.prems"(3) by auto
    show ?thesis
    proof (cases "xs ! ?h \<ge> w")
      case ge: True
      have eq: "search_loop xs w i j = search_loop xs w i ?h"
        using True ge by (subst search_loop.simps) (simp add: Let_def)
      have right: "w \<le> xs ! k" if "?h \<le> k" "k < length xs" for k
        using ge sorted_nth_mono[OF "1.prems"(1) that] by (rule order_trans)
      show ?thesis unfolding eq
        by (rule "1.IH"(2)[OF True refl]) (use ge h right "1.prems" in auto)
    next
      case lt: False
      have eq: "search_loop xs w i j = search_loop xs w (?h + 1) j"
        using True lt by (subst search_loop.simps) (simp add: Let_def)
      have left: "xs ! k < w" if "k < ?h + 1" for k
      proof -
        have "k \<le> ?h" using that by simp
        then have "xs ! k \<le> xs ! ?h" using sorted_nth_mono[OF "1.prems"(1) _ h(3)] by blast
        then show ?thesis using lt by (metis le_less_trans not_le_imp_less)
      qed
      show ?thesis unfolding eq
        by (rule "1.IH"(1)[OF True refl lt]) (use h left "1.prems" in auto)
    qed
  next
    case False
    then have "search_loop xs w i j = i" by (simp add: search_loop.simps[of xs w i j])
    then show ?thesis using "1.prems" False by auto
  qed
qed

text \<open>On a sorted slice the search decides membership.\<close>

lemma SearchStrings_member:
  assumes "sorted xs"
  shows "SearchStrings xs w < length xs \<and> xs ! SearchStrings xs w = w \<longleftrightarrow> w \<in> set xs"
proof
  assume "w \<in> set xs"
  then obtain k where k: "k < length xs" "xs ! k = w"
    by (auto simp: in_set_conv_nth)
  have found: "\<forall>k < SearchStrings xs w. xs ! k < w" "\<forall>k. SearchStrings xs w \<le> k \<and> k < length xs \<longrightarrow> w \<le> xs ! k"
    using search_loop_boundary[OF assms, of 0 "length xs" w] by (auto simp: SearchStrings_def)
  then have le: "SearchStrings xs w \<le> k"
    using k by (metis linorder_not_le order_less_irrefl)
  then show "SearchStrings xs w < length xs \<and> xs ! SearchStrings xs w = w"
    using k found(2) sorted_nth_mono[OF assms le k(1)] by (auto intro: order.antisym)
qed (metis nth_mem)

end
