(* ===== verification/Go_Json.thy ===== *)
theory Go_Json
  imports Go_Strings
begin

text \<open>
  \<^verbatim>\<open>json.Valid\<close> of \<^verbatim>\<open>encoding/json\<close>: the package's scanner, a byte-driven automaton with a stack
  of parse states, run over the input and closed by one virtual space. The constructors of
  \<open>scan_state\<close> are the package's \<^verbatim>\<open>state...\<close> functions; \<open>InLit\<close> carries what is left of one
  of the literals \<^verbatim>\<open>true\<close>, \<^verbatim>\<open>false\<close>, \<^verbatim>\<open>null\<close>. A \<open>None\<close> is \<^verbatim>\<open>scanError\<close>.
\<close>

datatype parse_state = ParseObjectKey | ParseObjectValue | ParseArrayValue

datatype scan_state =
    BeginValue | BeginValueOrEmpty | BeginString | BeginStringOrEmpty
  | EndValue | EndTop
  | InString | InStringEsc | InStringEscU nat
  | Neg | State1 | State0 | Dot | Dot0 | StateE | ESign | E0
  | InLit string

definition json_max_depth :: nat where "json_max_depth = 10000"

definition json_space :: "char \<Rightarrow> bool" where
  "json_space c \<longleftrightarrow> c = CHR '' '' \<or> c = CHR 0x09 \<or> c = CHR 0x0D \<or> c = CHR 0x0A"

definition json_digit :: "char \<Rightarrow> bool" where
  "json_digit c \<longleftrightarrow> CHR ''0'' \<le> c \<and> c \<le> CHR ''9''"

definition json_hex :: "char \<Rightarrow> bool" where
  "json_hex c \<longleftrightarrow> json_digit c \<or> CHR ''a'' \<le> c \<and> c \<le> CHR ''f'' \<or> CHR ''A'' \<le> c \<and> c \<le> CHR ''F''"

type_synonym scanner = "scan_state \<times> parse_state list"

definition push_parse_state :: "scan_state \<Rightarrow> parse_state \<Rightarrow> parse_state list \<Rightarrow> scanner option" where
  "push_parse_state q p ps =
     (if length (p # ps) \<le> json_max_depth then Some (q, p # ps) else None)"

definition pop_parse_state :: "parse_state list \<Rightarrow> scanner option" where
  "pop_parse_state ps = (case tl ps of [] \<Rightarrow> Some (EndTop, []) | qs \<Rightarrow> Some (EndValue, qs))"

definition end_value :: "parse_state list \<Rightarrow> char \<Rightarrow> scanner option" where
  "end_value ps c =
     (case ps of
        [] \<Rightarrow> if json_space c then Some (EndTop, []) else None
      | p # qs \<Rightarrow>
          if json_space c then Some (EndValue, ps)
          else case p of
            ParseObjectKey \<Rightarrow> if c = CHR '':'' then Some (BeginValue, ParseObjectValue # qs) else None
          | ParseObjectValue \<Rightarrow>
              if c = CHR '','' then Some (BeginString, ParseObjectKey # qs)
              else if c = CHR ''}'' then pop_parse_state ps else None
          | ParseArrayValue \<Rightarrow>
              if c = CHR '','' then Some (BeginValue, ps)
              else if c = CHR '']'' then pop_parse_state ps else None)"

definition begin_value :: "parse_state list \<Rightarrow> char \<Rightarrow> scanner option" where
  "begin_value ps c =
     (if json_space c then Some (BeginValue, ps)
      else if c = CHR ''{'' then push_parse_state BeginStringOrEmpty ParseObjectKey ps
      else if c = CHR ''['' then push_parse_state BeginValueOrEmpty ParseArrayValue ps
      else if c = CHR 0x22 then Some (InString, ps)
      else if c = CHR ''-'' then Some (Neg, ps)
      else if c = CHR ''0'' then Some (State0, ps)
      else if c = CHR ''t'' then Some (InLit ''rue'', ps)
      else if c = CHR ''f'' then Some (InLit ''alse'', ps)
      else if c = CHR ''n'' then Some (InLit ''ull'', ps)
      else if json_digit c then Some (State1, ps)
      else None)"

definition begin_string :: "parse_state list \<Rightarrow> char \<Rightarrow> scanner option" where
  "begin_string ps c =
     (if json_space c then Some (BeginString, ps)
      else if c = CHR 0x22 then Some (InString, ps) else None)"

definition state0 :: "parse_state list \<Rightarrow> char \<Rightarrow> scanner option" where
  "state0 ps c =
     (if c = CHR ''.'' then Some (Dot, ps)
      else if c = CHR ''e'' \<or> c = CHR ''E'' then Some (StateE, ps)
      else end_value ps c)"

definition e_sign :: "parse_state list \<Rightarrow> char \<Rightarrow> scanner option" where
  "e_sign ps c = (if json_digit c then Some (E0, ps) else None)"

fun json_step :: "scanner \<Rightarrow> char \<Rightarrow> scanner option" where
  "json_step (BeginValue, ps) c = begin_value ps c"
| "json_step (BeginValueOrEmpty, ps) c =
     (if json_space c then Some (BeginValueOrEmpty, ps)
      else if c = CHR '']'' then end_value ps c else begin_value ps c)"
| "json_step (BeginString, ps) c = begin_string ps c"
| "json_step (BeginStringOrEmpty, ps) c =
     (if json_space c then Some (BeginStringOrEmpty, ps)
      else if c = CHR ''}'' then end_value (ParseObjectValue # tl ps) c
      else begin_string ps c)"
| "json_step (EndValue, ps) c = end_value ps c"
| "json_step (EndTop, ps) c = (if json_space c then Some (EndTop, ps) else None)"
| "json_step (InString, ps) c =
     (if c = CHR 0x22 then Some (EndValue, ps)
      else if c = CHR 0x5C then Some (InStringEsc, ps)
      else if c < CHR 0x20 then None else Some (InString, ps))"
| "json_step (InStringEsc, ps) c =
     (if c \<in> set ''bfnrt/'' \<or> c = CHR 0x5C \<or> c = CHR 0x22 then Some (InString, ps)
      else if c = CHR ''u'' then Some (InStringEscU 3, ps) else None)"
| "json_step (InStringEscU n, ps) c =
     (if json_hex c then Some (if n = 0 then InString else InStringEscU (n - 1), ps) else None)"
| "json_step (Neg, ps) c =
     (if c = CHR ''0'' then Some (State0, ps)
      else if json_digit c then Some (State1, ps) else None)"
| "json_step (State1, ps) c = (if json_digit c then Some (State1, ps) else state0 ps c)"
| "json_step (State0, ps) c = state0 ps c"
| "json_step (Dot, ps) c = (if json_digit c then Some (Dot0, ps) else None)"
| "json_step (Dot0, ps) c =
     (if json_digit c then Some (Dot0, ps)
      else if c = CHR ''e'' \<or> c = CHR ''E'' then Some (StateE, ps) else end_value ps c)"
| "json_step (StateE, ps) c =
     (if c = CHR ''+'' \<or> c = CHR ''-'' then Some (ESign, ps) else e_sign ps c)"
| "json_step (ESign, ps) c = e_sign ps c"
| "json_step (E0, ps) c = (if json_digit c then Some (E0, ps) else end_value ps c)"
| "json_step (InLit [], ps) c = None"
| "json_step (InLit (x # xs), ps) c =
     (if c = x then Some (if xs = [] then EndValue else InLit xs, ps) else None)"

fun json_scan :: "scanner \<Rightarrow> bytes \<Rightarrow> scanner option" where
  "json_scan q [] = Some q"
| "json_scan q (c # s) = (case json_step q c of None \<Rightarrow> None | Some q' \<Rightarrow> json_scan q' s)"

definition json_eof :: "scanner \<Rightarrow> bool" where
  "json_eof q \<longleftrightarrow>
     fst q = EndTop \<or> (case json_step q (CHR '' '') of Some q' \<Rightarrow> fst q' = EndTop | None \<Rightarrow> False)"

definition json_Valid :: "bytes \<Rightarrow> bool" where
  "json_Valid s \<longleftrightarrow>
     (case json_scan (BeginValue, []) s of None \<Rightarrow> False | Some q \<Rightarrow> json_eof q)"

lemmas json_defs = json_Valid_def json_eof_def json_space_def json_digit_def json_hex_def
  json_max_depth_def push_parse_state_def pop_parse_state_def end_value_def begin_value_def
  begin_string_def state0_def e_sign_def

text \<open>The empty input and inputs with a trailing second value are rejected.\<close>

lemma json_Valid_Nil [simp]: "\<not> json_Valid []"
  by (simp add: json_defs)

lemma json_Valid_empty_object [simp]: "json_Valid ''{}''"
  by (simp add: json_defs)

lemma json_Valid_sample: "json_Valid (''{ '' @ [CHR 0x22, CHR ''a'', CHR 0x22] @ '':[1.5e+3,null] }'')"
  by (simp add: json_defs)

lemma json_trailing_value: "\<not> json_Valid ''{} 1''"
  by (simp add: json_defs)

text \<open>The nesting depth the scanner accepts is bounded, whatever the input.\<close>

lemma json_step_depth:
  "json_step (q, ps) c = Some (q', ps') \<Longrightarrow> length ps \<le> json_max_depth \<Longrightarrow> ps \<noteq> [] \<or> q \<noteq> BeginStringOrEmpty
   \<Longrightarrow> length ps' \<le> json_max_depth"
  by (cases "((q, ps), c)" rule: json_step.cases)
    (auto simp: push_parse_state_def pop_parse_state_def end_value_def begin_value_def
       begin_string_def state0_def e_sign_def split: if_splits list.splits parse_state.splits)

end
