(* ===== verification/Go_Sha256.thy ===== *)
theory Go_Sha256
  imports Go_Strings
begin

unbundle bit_operations_syntax

text \<open>
  \<^verbatim>\<open>crypto/sha256\<close> and \<^verbatim>\<open>encoding/hex\<close>: SHA-256 of a byte string in lower-case hexadecimal, as
  FIPS 180-4 defines it, on 32-bit words. The proofs of the development never unfold it: two
  equal inputs give equal digests, and that different inputs give different digests is stated
  as a hypothesis about the two inputs concerned wherever a property rests on it.
\<close>

definition sha_K :: "32 word list" where
  "sha_K = [
    1116352408, 1899447441, 3049323471, 3921009573, 961987163, 1508970993,
    2453635748, 2870763221, 3624381080, 310598401, 607225278, 1426881987,
    1925078388, 2162078206, 2614888103, 3248222580, 3835390401, 4022224774,
    264347078, 604807628, 770255983, 1249150122, 1555081692, 1996064986,
    2554220882, 2821834349, 2952996808, 3210313671, 3336571891, 3584528711,
    113926993, 338241895, 666307205, 773529912, 1294757372, 1396182291,
    1695183700, 1986661051, 2177026350, 2456956037, 2730485921, 2820302411,
    3259730800, 3345764771, 3516065817, 3600352804, 4094571909, 275423344,
    430227734, 506948616, 659060556, 883997877, 958139571, 1322822218,
    1537002063, 1747873779, 1955562222, 2024104815, 2227730452, 2361852424,
    2428436474, 2756734187, 3204031479, 3329325298]"

type_synonym sha_state =
  "32 word \<times> 32 word \<times> 32 word \<times> 32 word \<times> 32 word \<times> 32 word \<times> 32 word \<times> 32 word"

definition sha_H0 :: sha_state where
  "sha_H0 =
    (1779033703, 3144134277, 1013904242, 2773480762,
     1359893119, 2600822924, 528734635, 1541459225)"

definition rotr :: "nat \<Rightarrow> 32 word \<Rightarrow> 32 word" where
  "rotr n x = drop_bit n x OR push_bit (32 - n) x"

definition bsig0 :: "32 word \<Rightarrow> 32 word" where "bsig0 x = rotr 2 x XOR rotr 13 x XOR rotr 22 x"
definition bsig1 :: "32 word \<Rightarrow> 32 word" where "bsig1 x = rotr 6 x XOR rotr 11 x XOR rotr 25 x"
definition ssig0 :: "32 word \<Rightarrow> 32 word" where "ssig0 x = rotr 7 x XOR rotr 18 x XOR drop_bit 3 x"
definition ssig1 :: "32 word \<Rightarrow> 32 word" where "ssig1 x = rotr 17 x XOR rotr 19 x XOR drop_bit 10 x"

definition sha_ch :: "32 word \<Rightarrow> 32 word \<Rightarrow> 32 word \<Rightarrow> 32 word" where
  "sha_ch x y z = (x AND y) XOR (NOT x AND z)"

definition sha_maj :: "32 word \<Rightarrow> 32 word \<Rightarrow> 32 word \<Rightarrow> 32 word" where
  "sha_maj x y z = (x AND y) XOR (x AND z) XOR (y AND z)"

text \<open>The message schedule, newest word first: 16 words of the block, then 48 more.\<close>

fun sha_schedule :: "nat \<Rightarrow> 32 word list \<Rightarrow> 32 word list" where
  "sha_schedule 0 w = rev w"
| "sha_schedule (Suc n) w =
     sha_schedule n ((ssig1 (w ! 1) + w ! 6 + ssig0 (w ! 14) + w ! 15) # w)"

fun sha_rounds :: "32 word list \<Rightarrow> 32 word list \<Rightarrow> sha_state \<Rightarrow> sha_state" where
  "sha_rounds [] ws v = v"
| "sha_rounds (k # ks) ws v =
     (case v of (a, b, c, d, e, f, g, h) \<Rightarrow>
        let t1 = h + bsig1 e + sha_ch e f g + k + hd ws;
            t2 = bsig0 a + sha_maj a b c
        in sha_rounds ks (tl ws) (t1 + t2, a, b, c, d + t1, e, f, g))"

definition sha_compress :: "sha_state \<Rightarrow> 32 word list \<Rightarrow> sha_state" where
  "sha_compress hs block =
     (case hs of (a, b, c, d, e, f, g, h) \<Rightarrow>
      case sha_rounds sha_K (sha_schedule 48 (rev block)) hs of (a', b', c', d', e', f', g', h') \<Rightarrow>
        (a + a', b + b', c + c', d + d', e + e', f + f', g + g', h + h'))"

definition sha_state_words :: "sha_state \<Rightarrow> 32 word list" where
  "sha_state_words v = (case v of (a, b, c, d, e, f, g, h) \<Rightarrow> [a, b, c, d, e, f, g, h])"

definition be_word :: "nat list \<Rightarrow> 32 word" where
  "be_word bs = word_of_int (foldl (\<lambda>n b. 256 * n + int b) 0 bs)"

fun sha_words :: "nat list \<Rightarrow> 32 word list" where
  "sha_words (a # b # c # d # s) = be_word [a, b, c, d] # sha_words s"
| "sha_words _ = []"

fun sha_blocks :: "32 word list \<Rightarrow> 32 word list list" where
  "sha_blocks ws = (if length ws < 16 then [] else take 16 ws # sha_blocks (drop 16 ws))"

declare sha_blocks.simps [simp del]

definition be_bytes :: "nat \<Rightarrow> int \<Rightarrow> nat list" where
  "be_bytes k n = map (\<lambda>i. nat (n div 256 ^ i mod 256)) (rev [0..<k])"

definition sha_pad :: "nat list \<Rightarrow> nat list" where
  "sha_pad m = m @ [0x80] @ replicate ((55 + 64 - length m mod 64) mod 64) 0
                 @ be_bytes 8 (8 * int (length m))"

definition sha256_sum :: "bytes \<Rightarrow> nat list" where
  "sha256_sum s =
     concat (map (\<lambda>w. be_bytes 4 (uint w))
       (sha_state_words
         (foldl sha_compress sha_H0 (sha_blocks (sha_words (sha_pad (bytes_of s)))))))"

definition hex_encode :: "nat list \<Rightarrow> string" where
  "hex_encode bs = concat (map (\<lambda>b. [hex_char (b div 16), hex_char (b mod 16)]) bs)"

definition sha256_hex :: "bytes \<Rightarrow> string" where
  "sha256_hex s = hex_encode (sha256_sum s)"

definition sha256_collision :: "string \<Rightarrow> string \<Rightarrow> bool" where
  "sha256_collision x y \<longleftrightarrow> x \<noteq> y \<and> sha256_hex x = sha256_hex y"

text \<open>
  A digest has 32 bytes, and its hexadecimal form is 64 characters out of \<^verbatim>\<open>0-9a-f\<close>: the form
  the validators of recorded digests ask for.
\<close>

definition lower_hex :: "char \<Rightarrow> bool" where
  "lower_hex c \<longleftrightarrow> CHR ''0'' \<le> c \<and> c \<le> CHR ''9'' \<or> CHR ''a'' \<le> c \<and> c \<le> CHR ''f''"

lemma concat_map_length: "(\<And>x. length (f x) = k) \<Longrightarrow> length (concat (map f xs)) = k * length xs"
  by (induction xs) simp_all

lemma sha256_sum_length: "length (sha256_sum s) = 32"
  unfolding sha256_sum_def
  by (subst concat_map_length[where k = 4]) (simp_all add: be_bytes_def sha_state_words_def split: prod.splits)

lemma sha256_hex_length: "length (sha256_hex s) = 64"
  unfolding sha256_hex_def hex_encode_def
  by (subst concat_map_length[where k = 2]) (simp_all add: sha256_sum_length)

lemma of_char_le_iff: "c \<le> d \<longleftrightarrow> (of_char c :: nat) \<le> of_char d"
  by (rule less_eq_char_def)

lemma hex_char_lower: "d < 16 \<Longrightarrow> lower_hex (hex_char d)"
  by (auto simp: lower_hex_def hex_char_def of_char_le_iff)

lemma sha256_sum_byte: "b \<in> set (sha256_sum s) \<Longrightarrow> b < 256"
  by (auto simp: sha256_sum_def be_bytes_def)

lemma sha256_hex_chars: "c \<in> set (sha256_hex s) \<Longrightarrow> lower_hex c"
  by (auto simp: sha256_hex_def hex_encode_def dest!: sha256_sum_byte intro!: hex_char_lower)

end
