(* ===== verification/Job_Repository.thy ===== *)
theory Job_Repository
  imports Go_Strings Go_Json Go_Sha256
begin

text \<open>
  Packages \<^verbatim>\<open>internal/orchestration/events\<close> and \<^verbatim>\<open>internal/orchestration/job\<close> (\<^verbatim>\<open>job.go\<close>,
  \<^verbatim>\<open>memory.go\<close>, \<^verbatim>\<open>retry.go\<close>, \<^verbatim>\<open>cancel_version.go\<close>): durable jobs with leases, bounded attempts,
  idempotent creation and cooperative cancellation. Every method of \<^verbatim>\<open>MemoryRepository\<close> holds
  the mutex, so it is one function from the repository's state to the new state and a result.
  \<^verbatim>\<open>Status\<close> is a string type: \<open>StatusOther\<close> stands for any other string, the empty one included.
\<close>

subsection \<open>Events\<close>

datatype ResourceState = StatePresent | StateAbsent | StateUnknown | ResourceStateOther string
datatype HealthStatus = HealthHealthy | HealthDegraded | HealthFailed | HealthUnknown | HealthOther string

record ActualState =
  asResourceID :: string
  asKind :: string
  asState :: ResourceState
  asObservedAt :: "time"
  asRevision :: string
  asDetails :: bytes

record Health =
  hResourceID :: string
  hStatus :: HealthStatus
  hCheckedAt :: "time"
  hMessage :: string

record AuditEvent =
  aeID :: string
  aeOccurredAt :: "time"
  aeActor :: string
  aeAction :: string
  aeResourceID :: string
  aeOutcome :: string
  aeCorrelationID :: string
  aeDetails :: bytes

record Output =
  oActualStates :: "ActualState list"
  oHealth :: "Health list"
  oAuditEvents :: "AuditEvent list"

definition empty_output :: Output where
  "empty_output = \<lparr>oActualStates = [], oHealth = [], oAuditEvents = []\<rparr>"

subsection \<open>Jobs\<close>

datatype Status =
    StatusQueued | StatusRunning | StatusRetryWait | StatusCancelRequested
  | StatusCancelled | StatusSucceeded | StatusFailed | StatusOther string

definition Terminal :: "Status \<Rightarrow> bool" where
  "Terminal s \<longleftrightarrow> s = StatusCancelled \<or> s = StatusSucceeded \<or> s = StatusFailed"

record Lease =
  lToken :: string
  lWorkerID :: string
  lExpiresAt :: "time"

record Job =
  jID :: string
  jChangeID :: string
  jActionName :: string
  jInput :: bytes
  jIdempotencyKey :: string
  jStatus :: Status
  jAttempt :: int
  jMaxAttempts :: int
  jNextAttemptAt :: "time"
  jLease :: "Lease option"
  jOutput :: "Output option"
  jLastError :: string
  jCreatedAt :: "time"
  jUpdatedAt :: "time"
  jVersion :: uint64

record CreateRequest =
  crID :: string
  crChangeID :: string
  crActionName :: string
  crInput :: bytes
  crIdempotencyKey :: string
  crMaxAttempts :: int
  crNow :: "time"

record RetryPolicy =
  rpBaseDelay :: duration
  rpMaxDelay :: duration

record Filter =
  fChangeID :: string
  fStatus :: Status

datatype job_error =
    CtxErr ctx_error
  | ErrNotFound
  | ErrLeaseLost
  | ErrIdempotencyConflict
  | ErrVersionConflict
  | JobIDExists string
  | JobMsg string

subsection \<open>Retry backoff\<close>

definition maxRetryDelay :: duration where
  "maxRetryDelay = 2 ^ 63 - 1"

text \<open>
  The doubling loop. \<open>n\<close> counts the iterations left, that is \<^verbatim>\<open>attempt - i\<close>; \<^verbatim>\<open>delay *= 2\<close> wraps as
  int64 does.
\<close>

fun retry_loop :: "nat \<Rightarrow> duration \<Rightarrow> duration \<Rightarrow> duration" where
  "retry_loop 0 maxDelay delay = (if maxDelay > 0 \<and> delay > maxDelay then maxDelay else delay)"
| "retry_loop (Suc n) maxDelay delay =
     (if maxDelay > 0 \<and> delay \<ge> maxDelay then maxDelay
      else if delay > maxRetryDelay div 2 then (if maxDelay > 0 then maxDelay else maxRetryDelay)
      else retry_loop n maxDelay (i64 (delay * 2)))"

definition RetryDelay :: "int \<Rightarrow> RetryPolicy \<Rightarrow> duration" where
  "RetryDelay attempt policy =
     (let base = (if rpBaseDelay policy \<le> 0 then second else rpBaseDelay policy) in
      if rpMaxDelay policy > 0 \<and> base \<ge> rpMaxDelay policy then rpMaxDelay policy
      else retry_loop (nat (attempt - 1)) (rpMaxDelay policy) base)"

subsection \<open>The memory repository\<close>

record idempotencyRecord =
  irJobID :: string
  irFingerprint :: string

record MemoryRepository =
  mrJobs :: "(string \<times> Job) list"
  mrIdempotency :: "(string \<times> idempotencyRecord) list"

definition NewMemoryRepository :: MemoryRepository where
  "NewMemoryRepository = \<lparr>mrJobs = [], mrIdempotency = []\<rparr>"

text \<open>
  Copies. In the source they cut the aliasing between the stored job and the returned one; on
  values they change nothing, which the lemmas after them state.
\<close>

definition cloneOutput :: "Output \<Rightarrow> Output" where
  "cloneOutput source =
     \<lparr>oActualStates = map (\<lambda>s. s\<lparr>asDetails := [] @ asDetails s\<rparr>) (oActualStates source),
      oHealth = [] @ oHealth source,
      oAuditEvents = map (\<lambda>e. e\<lparr>aeDetails := [] @ aeDetails e\<rparr>) (oAuditEvents source)\<rparr>"

definition clone :: "Job \<Rightarrow> Job" where
  "clone source = source\<lparr>jInput := [] @ jInput source,
     jLease := map_option (\<lambda>l. l) (jLease source),
     jOutput := map_option cloneOutput (jOutput source)\<rparr>"

definition fingerprint :: "CreateRequest \<Rightarrow> string" where
  "fingerprint request =
     sha256_hex (crChangeID request @ [CHR 0x00] @ crActionName request @ [CHR 0x00] @ crInput request)"

text \<open>\<^verbatim>\<open>time.UnixNano\<close>: nanoseconds since 1970, in an int64.\<close>

definition unix_epoch :: "time" where
  "unix_epoch = 62135596800 * second"

definition UnixNano :: "time \<Rightarrow> int" where
  "UnixNano t = i64 (t - unix_epoch)"

definition lease_token_text :: "Job \<Rightarrow> string \<Rightarrow> time \<Rightarrow> string" where
  "lease_token_text candidate workerID now =
     jID candidate @ '':'' @ workerID @ '':'' @ show_uint64 (jVersion candidate) @ '':'' @ show_int (UnixNano now)"

definition leaseToken :: "Job \<Rightarrow> string \<Rightarrow> time \<Rightarrow> string" where
  "leaseToken candidate workerID now = sha256_hex (lease_token_text candidate workerID now)"

text \<open>The fresh queued job of a request, version 1 and no attempt made.\<close>

definition new_job :: "CreateRequest \<Rightarrow> Job" where
  "new_job request =
     (let now = time_UTC (crNow request) in
      \<lparr>jID = crID request, jChangeID = crChangeID request, jActionName = crActionName request,
       jInput = [] @ crInput request, jIdempotencyKey = crIdempotencyKey request,
       jStatus = StatusQueued, jAttempt = 0, jMaxAttempts = crMaxAttempts request, jNextAttemptAt = 0,
       jLease = None, jOutput = None, jLastError = [], jCreatedAt = now, jUpdatedAt = now, jVersion = 1\<rparr>)"

text \<open>
  An idempotency record whose job is missing reads the zero job, whose zero \<^verbatim>\<open>MaxAttempts\<close> differs from
  the validated one: a conflict.
\<close>

definition Create ::
    "ctx \<Rightarrow> CreateRequest \<Rightarrow> MemoryRepository \<Rightarrow> MemoryRepository \<times> (job_error + Job \<times> bool)" where
  "Create ctx request r =
     (case ctx of
        Some e \<Rightarrow> (r, Inl (CtxErr e))
      | None \<Rightarrow>
          if crID request = [] \<or> crChangeID request = [] \<or> crActionName request = [] \<or> crIdempotencyKey request = []
            then (r, Inl (JobMsg ''job id, change id, action, and idempotency key are required''))
          else if length (crInput request) = 0 \<or> \<not> json_Valid (crInput request)
            then (r, Inl (JobMsg ''job input must be valid JSON''))
          else if crMaxAttempts request < 1 \<or> IsZero (crNow request)
            then (r, Inl (JobMsg ''max attempts and creation time are required''))
          else case gget (mrIdempotency r) (crIdempotencyKey request) of
            Some record \<Rightarrow>
              (case gget (mrJobs r) (irJobID record) of
                 None \<Rightarrow> (r, Inl ErrIdempotencyConflict)
               | Some existing \<Rightarrow>
                   if irFingerprint record \<noteq> fingerprint request \<or> jMaxAttempts existing \<noteq> crMaxAttempts request
                   then (r, Inl ErrIdempotencyConflict)
                   else (r, Inr (clone existing, False)))
          | None \<Rightarrow>
              if gget (mrJobs r) (crID request) \<noteq> None then (r, Inl (JobIDExists (crID request)))
              else
                let created = new_job request
                in (\<lparr>mrJobs = gput (jID created) created (mrJobs r),
                     mrIdempotency = gput (crIdempotencyKey request)
                       \<lparr>irJobID = jID created, irFingerprint = fingerprint request\<rparr> (mrIdempotency r)\<rparr>,
                    Inr (clone created, True)))"

definition Get :: "ctx \<Rightarrow> string \<Rightarrow> MemoryRepository \<Rightarrow> job_error + Job" where
  "Get ctx i r =
     (case ctx of Some e \<Rightarrow> Inl (CtxErr e)
      | None \<Rightarrow> (case gget (mrJobs r) i of None \<Rightarrow> Inl ErrNotFound | Some found \<Rightarrow> Inr (clone found)))"

definition job_order :: "Job \<Rightarrow> time \<times> string" where
  "job_order j = (jCreatedAt j, jID j)"

definition filter_match :: "Filter \<Rightarrow> Job \<Rightarrow> bool" where
  "filter_match f j \<longleftrightarrow>
     \<not> (fChangeID f \<noteq> [] \<and> jChangeID j \<noteq> fChangeID f)
   \<and> \<not> (fStatus f \<noteq> StatusOther [] \<and> jStatus j \<noteq> fStatus f)"

definition List :: "ctx \<Rightarrow> Filter \<Rightarrow> MemoryRepository \<Rightarrow> job_error + Job list" where
  "List ctx f r =
     (case ctx of Some e \<Rightarrow> Inl (CtxErr e)
      | None \<Rightarrow> Inr (sort_key job_order (map clone (filter (filter_match f) (map snd (mrJobs r))))))"

definition eligible :: "time \<Rightarrow> Job \<Rightarrow> bool" where
  "eligible now candidate \<longleftrightarrow>
     jStatus candidate = StatusQueued
   \<or> (jStatus candidate = StatusRetryWait \<and> \<not> jNextAttemptAt candidate > now)
   \<or> (jStatus candidate = StatusRunning
      \<and> (case jLease candidate of None \<Rightarrow> False | Some l \<Rightarrow> \<not> lExpiresAt l > now))"

definition cancel_expired :: "time \<Rightarrow> Job \<Rightarrow> bool" where
  "cancel_expired now candidate \<longleftrightarrow>
     jStatus candidate = StatusCancelRequested
   \<and> (case jLease candidate of None \<Rightarrow> False | Some l \<Rightarrow> \<not> lExpiresAt l > now)"

definition claim_job :: "string \<Rightarrow> time \<Rightarrow> duration \<Rightarrow> Job \<Rightarrow> Job" where
  "claim_job workerID now ttl candidate =
     (let c = candidate\<lparr>jAttempt := jAttempt candidate + 1, jStatus := StatusRunning, jNextAttemptAt := 0,
                        jLastError := [], jVersion := jVersion candidate + 1, jUpdatedAt := time_UTC now\<rparr>
      in c\<lparr>jLease := Some \<lparr>lToken = leaseToken c workerID now, lWorkerID = workerID,
                          lExpiresAt = time_Add (time_UTC now) ttl\<rparr>\<rparr>)"

definition expire_cancel :: "time \<Rightarrow> Job \<Rightarrow> Job" where
  "expire_cancel now candidate = candidate\<lparr>jStatus := StatusCancelled, jLease := None,
     jUpdatedAt := time_UTC now, jVersion := jVersion candidate + 1\<rparr>"

definition exhaust_job :: "time \<Rightarrow> Job \<Rightarrow> Job" where
  "exhaust_job now candidate = candidate\<lparr>jStatus := StatusFailed, jLastError := ''maximum attempts exhausted'',
     jLease := None, jUpdatedAt := time_UTC now, jVersion := jVersion candidate + 1\<rparr>"

text \<open>The loop of \<^verbatim>\<open>Claim\<close> over the sorted ids; jobs it sweeps on the way are written back.\<close>

fun claim_loop :: "string \<Rightarrow> time \<Rightarrow> duration \<Rightarrow> string list \<Rightarrow> (string \<times> Job) list \<Rightarrow> (string \<times> Job) list \<times> Job option" where
  "claim_loop workerID now ttl [] jobs = (jobs, None)"
| "claim_loop workerID now ttl (i # is) jobs =
     (case gget jobs i of
        None \<Rightarrow> claim_loop workerID now ttl is jobs
      | Some candidate \<Rightarrow>
          if cancel_expired now candidate
            then claim_loop workerID now ttl is (gput i (expire_cancel now candidate) jobs)
          else if \<not> eligible now candidate then claim_loop workerID now ttl is jobs
          else if jAttempt candidate \<ge> jMaxAttempts candidate
            then claim_loop workerID now ttl is (gput i (exhaust_job now candidate) jobs)
          else let c = claim_job workerID now ttl candidate in (gput i c jobs, Some c))"

definition claim_ids :: "(string \<times> Job) list \<Rightarrow> string list" where
  "claim_ids jobs =
     sort_key (\<lambda>i. case gget jobs i of Some j \<Rightarrow> job_order j | None \<Rightarrow> (0, [])) (gkeys jobs)"

definition Claim ::
    "ctx \<Rightarrow> string \<Rightarrow> time \<Rightarrow> duration \<Rightarrow> MemoryRepository \<Rightarrow> MemoryRepository \<times> (job_error + Job option)" where
  "Claim ctx workerID now ttl r =
     (case ctx of Some e \<Rightarrow> (r, Inl (CtxErr e))
      | None \<Rightarrow>
          if workerID = [] \<or> IsZero now \<or> ttl \<le> 0
            then (r, Inl (JobMsg ''worker id, current time, and positive lease ttl are required''))
          else case claim_loop workerID now ttl (claim_ids (mrJobs r)) (mrJobs r) of
            (jobs, res) \<Rightarrow> (r\<lparr>mrJobs := jobs\<rparr>, Inr (map_option clone res)))"

definition leased :: "string \<Rightarrow> string \<Rightarrow> time \<Rightarrow> MemoryRepository \<Rightarrow> job_error + Job" where
  "leased i token now r =
     (case gget (mrJobs r) i of
        None \<Rightarrow> Inl ErrNotFound
      | Some found \<Rightarrow>
          if jStatus found \<noteq> StatusRunning \<and> jStatus found \<noteq> StatusCancelRequested then Inl ErrLeaseLost
          else case jLease found of
            None \<Rightarrow> Inl ErrLeaseLost
          | Some l \<Rightarrow> if lToken l \<noteq> token \<or> \<not> lExpiresAt l > now then Inl ErrLeaseLost else Inr found)"

text \<open>The common last lines of the writers: stamp, bump the version, store.\<close>

definition store_job :: "time \<Rightarrow> string \<Rightarrow> Job \<Rightarrow> MemoryRepository \<Rightarrow> MemoryRepository \<times> (job_error + Job)" where
  "store_job now i found r =
     (let f = found\<lparr>jUpdatedAt := time_UTC now, jVersion := jVersion found + 1\<rparr>
      in (r\<lparr>mrJobs := gput i f (mrJobs r)\<rparr>, Inr (clone f)))"

definition RenewLease ::
    "ctx \<Rightarrow> string \<Rightarrow> string \<Rightarrow> time \<Rightarrow> duration \<Rightarrow> MemoryRepository \<Rightarrow> MemoryRepository \<times> (job_error + Job)" where
  "RenewLease ctx i token now ttl r =
     (case ctx of Some e \<Rightarrow> (r, Inl (CtxErr e))
      | None \<Rightarrow>
          if IsZero now \<or> ttl \<le> 0 then (r, Inl (JobMsg ''current time and positive lease ttl are required''))
          else case leased i token now r of
            Inl e \<Rightarrow> (r, Inl e)
          | Inr found \<Rightarrow>
              store_job now i
                (found\<lparr>jLease := map_option (\<lambda>l. l\<lparr>lExpiresAt := time_Add (time_UTC now) ttl\<rparr>) (jLease found)\<rparr>) r)"

definition Succeed ::
    "ctx \<Rightarrow> string \<Rightarrow> string \<Rightarrow> Output \<Rightarrow> time \<Rightarrow> MemoryRepository \<Rightarrow> MemoryRepository \<times> (job_error + Job)" where
  "Succeed ctx i token output now r =
     (case ctx of Some e \<Rightarrow> (r, Inl (CtxErr e))
      | None \<Rightarrow>
          if IsZero now then (r, Inl (JobMsg ''completion time is required''))
          else case leased i token now r of
            Inl e \<Rightarrow> (r, Inl e)
          | Inr found \<Rightarrow>
              let f = (if jStatus found = StatusCancelRequested then found\<lparr>jStatus := StatusCancelled\<rparr>
                       else found\<lparr>jStatus := StatusSucceeded, jOutput := Some (cloneOutput output)\<rparr>)
              in store_job now i (f\<lparr>jLease := None\<rparr>) r)"

definition Fail ::
    "ctx \<Rightarrow> string \<Rightarrow> string \<Rightarrow> string \<Rightarrow> Output \<Rightarrow> RetryPolicy \<Rightarrow> time \<Rightarrow> MemoryRepository
     \<Rightarrow> MemoryRepository \<times> (job_error + Job)" where
  "Fail ctx i token message output policy now r =
     (case ctx of Some e \<Rightarrow> (r, Inl (CtxErr e))
      | None \<Rightarrow>
          if message = [] then (r, Inl (JobMsg ''failure message is required''))
          else if IsZero now then (r, Inl (JobMsg ''failure time is required''))
          else case leased i token now r of
            Inl e \<Rightarrow> (r, Inl e)
          | Inr found \<Rightarrow>
              let f = found\<lparr>jLastError := message, jOutput := Some (cloneOutput output), jLease := None\<rparr>;
                  g = (if jStatus f = StatusCancelRequested then f\<lparr>jStatus := StatusCancelled\<rparr>
                       else if jAttempt f < jMaxAttempts f
                         then f\<lparr>jStatus := StatusRetryWait,
                                jNextAttemptAt := time_Add (time_UTC now) (RetryDelay (jAttempt f) policy)\<rparr>
                       else f\<lparr>jStatus := StatusFailed, jNextAttemptAt := 0\<rparr>)
              in store_job now i g r)"

definition cancel_job :: "Job \<Rightarrow> Job" where
  "cancel_job found =
     (if jStatus found = StatusRunning then found\<lparr>jStatus := StatusCancelRequested\<rparr>
      else found\<lparr>jStatus := StatusCancelled, jLease := None\<rparr>)"

definition RequestCancel ::
    "ctx \<Rightarrow> string \<Rightarrow> time \<Rightarrow> MemoryRepository \<Rightarrow> MemoryRepository \<times> (job_error + Job)" where
  "RequestCancel ctx i now r =
     (case ctx of Some e \<Rightarrow> (r, Inl (CtxErr e))
      | None \<Rightarrow>
          if IsZero now then (r, Inl (JobMsg ''cancellation time is required''))
          else case gget (mrJobs r) i of
            None \<Rightarrow> (r, Inl ErrNotFound)
          | Some found \<Rightarrow>
              if Terminal (jStatus found) then (r, Inr (clone found))
              else store_job now i (cancel_job found) r)"

definition RequestCancelIfVersion ::
    "ctx \<Rightarrow> string \<Rightarrow> uint64 \<Rightarrow> time \<Rightarrow> MemoryRepository \<Rightarrow> MemoryRepository \<times> (job_error + Job)" where
  "RequestCancelIfVersion ctx i expectedVersion now r =
     (case ctx of Some e \<Rightarrow> (r, Inl (CtxErr e))
      | None \<Rightarrow>
          if expectedVersion = 0 then (r, Inl (JobMsg ''expected job version is required''))
          else if IsZero now then (r, Inl (JobMsg ''cancellation time is required''))
          else case gget (mrJobs r) i of
            None \<Rightarrow> (r, Inl ErrNotFound)
          | Some found \<Rightarrow>
              if jVersion found \<noteq> expectedVersion then (r, Inl ErrVersionConflict)
              else if Terminal (jStatus found) then (r, Inr (clone found))
              else store_job now i (cancel_job found) r)"

subsection \<open>Copies and lookups\<close>

lemma cloneOutput_id [simp]: "cloneOutput out = out"
  by (cases out) (simp add: cloneOutput_def)

lemma clone_id [simp]: "clone j = j"
proof -
  have "map_option cloneOutput x = x" for x by (cases x) simp_all
  then show ?thesis by (simp add: clone_def option.map_ident)
qed

lemma map_option_clone [simp]: "map_option clone x = x"
  by (cases x) simp_all

lemma leased_Inr:
  assumes "leased i token now r = Inr j"
  shows "gget (mrJobs r) i = Some j"
    and "jStatus j = StatusRunning \<or> jStatus j = StatusCancelRequested"
    and "\<exists>l. jLease j = Some l \<and> lToken l = token \<and> now < lExpiresAt l"
  using assms by (auto simp: leased_def split: option.splits if_splits)

subsection \<open>What can happen to one job\<close>

text \<open>
  The abstract view of the repository: the moves a single job can make. Every mutating method
  moves each job it touches along one of these rules and leaves all other jobs alone.
\<close>

inductive job_move :: "Job \<Rightarrow> Job \<Rightarrow> bool" where
  claim: "eligible now j \<Longrightarrow> jAttempt j < jMaxAttempts j \<Longrightarrow> 0 < ttl \<Longrightarrow> now \<noteq> 0
     \<Longrightarrow> job_move j (claim_job w now ttl j)"
| sweep_cancel: "cancel_expired now j \<Longrightarrow> now \<noteq> 0 \<Longrightarrow> job_move j (expire_cancel now j)"
| sweep_exhaust: "eligible now j \<Longrightarrow> jMaxAttempts j \<le> jAttempt j \<Longrightarrow> now \<noteq> 0
     \<Longrightarrow> job_move j (exhaust_job now j)"
| renew: "jLease j = Some l \<Longrightarrow> jStatus j = StatusRunning \<or> jStatus j = StatusCancelRequested
     \<Longrightarrow> now < lExpiresAt l \<Longrightarrow> 0 < ttl \<Longrightarrow> now \<noteq> 0
     \<Longrightarrow> job_move j (j\<lparr>jLease := Some (l\<lparr>lExpiresAt := now + ttl\<rparr>), jUpdatedAt := now, jVersion := jVersion j + 1\<rparr>)"
| succeed: "jLease j = Some l \<Longrightarrow> jStatus j = StatusRunning \<Longrightarrow> now < lExpiresAt l \<Longrightarrow> now \<noteq> 0
     \<Longrightarrow> job_move j (j\<lparr>jStatus := StatusSucceeded, jOutput := Some out, jLease := None, jUpdatedAt := now,
           jVersion := jVersion j + 1\<rparr>)"
| stop_done: "jLease j = Some l \<Longrightarrow> jStatus j = StatusCancelRequested \<Longrightarrow> now < lExpiresAt l \<Longrightarrow> now \<noteq> 0
     \<Longrightarrow> job_move j (j\<lparr>jStatus := StatusCancelled, jLease := None, jUpdatedAt := now, jVersion := jVersion j + 1\<rparr>)"
| stop_failed: "jLease j = Some l \<Longrightarrow> jStatus j = StatusCancelRequested \<Longrightarrow> now < lExpiresAt l \<Longrightarrow> now \<noteq> 0
     \<Longrightarrow> job_move j (j\<lparr>jLastError := msg, jOutput := Some out, jLease := None, jStatus := StatusCancelled,
           jUpdatedAt := now, jVersion := jVersion j + 1\<rparr>)"
| retry_later: "jLease j = Some l \<Longrightarrow> jStatus j = StatusRunning \<Longrightarrow> now < lExpiresAt l \<Longrightarrow> now \<noteq> 0
     \<Longrightarrow> jAttempt j < jMaxAttempts j
     \<Longrightarrow> job_move j (j\<lparr>jLastError := msg, jOutput := Some out, jLease := None, jStatus := StatusRetryWait,
           jNextAttemptAt := now + RetryDelay (jAttempt j) policy, jUpdatedAt := now, jVersion := jVersion j + 1\<rparr>)"
| give_up: "jLease j = Some l \<Longrightarrow> jStatus j = StatusRunning \<Longrightarrow> now < lExpiresAt l \<Longrightarrow> now \<noteq> 0
     \<Longrightarrow> jMaxAttempts j \<le> jAttempt j
     \<Longrightarrow> job_move j (j\<lparr>jLastError := msg, jOutput := Some out, jLease := None, jStatus := StatusFailed,
           jNextAttemptAt := 0, jUpdatedAt := now, jVersion := jVersion j + 1\<rparr>)"
| request_cancel: "\<not> Terminal (jStatus j) \<Longrightarrow> now \<noteq> 0
     \<Longrightarrow> job_move j ((cancel_job j)\<lparr>jUpdatedAt := now, jVersion := jVersion j + 1\<rparr>)"

lemmas move_defs = claim_job_def expire_cancel_def exhaust_job_def cancel_job_def Let_def

definition jobs_move :: "(string \<times> Job) list \<Rightarrow> (string \<times> Job) list \<Rightarrow> bool" where
  "jobs_move jobs jobs' \<longleftrightarrow>
     gmap_ok jobs' \<and> (\<forall>i. gget jobs' i = gget jobs i
        \<or> (\<exists>j j'. gget jobs i = Some j \<and> gget jobs' i = Some j' \<and> job_move j j'))"

lemma jobs_move_refl: "gmap_ok jobs \<Longrightarrow> jobs_move jobs jobs"
  by (simp add: jobs_move_def)

lemma jobs_move_put:
  "gmap_ok jobs \<Longrightarrow> gget jobs i = Some j \<Longrightarrow> job_move j j' \<Longrightarrow> jobs_move jobs (gput i j' jobs)"
  by (auto simp: jobs_move_def)

subsection \<open>The claim loop\<close>

definition claimable :: "time \<Rightarrow> Job \<Rightarrow> bool" where
  "claimable now j \<longleftrightarrow> eligible now j \<and> jAttempt j < jMaxAttempts j"

lemma cancel_not_eligible: "cancel_expired now j \<Longrightarrow> \<not> eligible now j"
  by (auto simp: cancel_expired_def eligible_def)

text \<open>A lookup outside the ids still to visit is not changed by the rest of the loop.\<close>

lemma claim_loop_frame:
  "i \<notin> set is \<Longrightarrow> gget (fst (claim_loop w now ttl is jobs)) i = gget jobs i"
  by (induction w now ttl "is" jobs rule: claim_loop.induct) (auto simp: Let_def split: option.splits)

lemma claim_loop_moves:
  assumes "distinct is" "gmap_ok jobs" "0 < ttl" "now \<noteq> 0"
  shows "jobs_move jobs (fst (claim_loop w now ttl is jobs))"
  using assms
proof (induction "is" arbitrary: jobs)
  case Nil
  then show ?case by (simp add: jobs_move_refl)
next
  case (Cons i "is")
  have rest: "jobs_move jobs (fst (claim_loop w now ttl is (gput i j' jobs)))"
    if "gget jobs i = Some j" "job_move j j'" for j j'
  proof -
    let ?m = "gput i j' jobs" let ?r = "fst (claim_loop w now ttl is ?m)"
    have IH: "jobs_move ?m ?r" using Cons by auto
    have fr: "gget ?r i = Some j'" using claim_loop_frame[of i "is" w now ttl ?m] Cons.prems(1) by simp
    show ?thesis
      unfolding jobs_move_def
    proof (intro conjI allI)
      show "gmap_ok ?r" using IH by (simp add: jobs_move_def)
      fix k
      have "gget ?r k = gget ?m k \<or> (\<exists>j j'. gget ?m k = Some j \<and> gget ?r k = Some j' \<and> job_move j j')"
        using IH by (simp only: jobs_move_def)
      then show "gget ?r k = gget jobs k
          \<or> (\<exists>j j'. gget jobs k = Some j \<and> gget ?r k = Some j' \<and> job_move j j')"
        using fr that by (cases "k = i") auto
    qed
  qed
  show ?case
  proof (cases "gget jobs i")
    case None
    then show ?thesis using Cons by simp
  next
    case (Some j)
    then show ?thesis
      using Cons rest[OF Some job_move.sweep_cancel] rest[OF Some job_move.sweep_exhaust]
        jobs_move_put[OF Cons.prems(2) Some job_move.claim[of now j ttl w]]
      by (auto simp: Let_def)
  qed
qed

text \<open>The loop stops at the first claimable id, and reports none only if there is none.\<close>

lemma claim_loop_result:
  assumes "distinct is"
  shows "snd (claim_loop w now ttl is jobs) = None
           \<longleftrightarrow> (\<forall>i \<in> set is. \<forall>j. gget jobs i = Some j \<longrightarrow> \<not> claimable now j)"
    and "snd (claim_loop w now ttl is jobs) = Some c \<Longrightarrow>
           \<exists>is1 i is2 j. is = is1 @ i # is2 \<and> gget jobs i = Some j \<and> claimable now j
             \<and> c = claim_job w now ttl j \<and> gget (fst (claim_loop w now ttl is jobs)) i = Some c
             \<and> (\<forall>k \<in> set is1. \<forall>j. gget jobs k = Some j \<longrightarrow> \<not> claimable now j)"
proof -
  have skip: "(\<forall>k \<in> set is. \<forall>j. gget (gput i j' jobs) k = Some j \<longrightarrow> \<not> claimable now j)
      \<longleftrightarrow> (\<forall>k \<in> set is. \<forall>j. gget jobs k = Some j \<longrightarrow> \<not> claimable now j)"
    if "i \<notin> set is" for i j' jobs and "is" :: "string list"
    using that by auto
  show "snd (claim_loop w now ttl is jobs) = None
      \<longleftrightarrow> (\<forall>i \<in> set is. \<forall>j. gget jobs i = Some j \<longrightarrow> \<not> claimable now j)"
    using assms
  proof (induction "is" arbitrary: jobs)
    case (Cons i "is")
    then show ?case
      by (cases "gget jobs i")
        (auto simp: Let_def claimable_def skip dest: cancel_not_eligible)
  qed simp
  show "snd (claim_loop w now ttl is jobs) = Some c \<Longrightarrow>
      \<exists>is1 i is2 j. is = is1 @ i # is2 \<and> gget jobs i = Some j \<and> claimable now j
        \<and> c = claim_job w now ttl j \<and> gget (fst (claim_loop w now ttl is jobs)) i = Some c
        \<and> (\<forall>k \<in> set is1. \<forall>j. gget jobs k = Some j \<longrightarrow> \<not> claimable now j)"
    using assms
  proof (induction "is" arbitrary: jobs)
    case (Cons i "is")
    note IH = Cons.IH
    show ?case
    proof (cases "gget jobs i")
      case None
      then obtain is1 k is2 j where "is = is1 @ k # is2" "gget jobs k = Some j" "claimable now j"
          "c = claim_job w now ttl j" "gget (fst (claim_loop w now ttl is jobs)) k = Some c"
          "\<forall>k \<in> set is1. \<forall>j. gget jobs k = Some j \<longrightarrow> \<not> claimable now j"
        using IH[of jobs] Cons.prems by auto
      then show ?thesis using None
        by (intro exI[of _ "i # is1"] exI[of _ k] exI[of _ is2] exI[of _ j]) auto
    next
      case (Some j)
      show ?thesis
      proof (cases "claimable now j")
        case True
        then have "claim_loop w now ttl (i # is) jobs
            = (gput i (claim_job w now ttl j) jobs, Some (claim_job w now ttl j))"
          using Some cancel_not_eligible by (auto simp: claimable_def Let_def)
        then show ?thesis using Some True Cons.prems(1)
          by (intro exI[of _ "[]"] exI[of _ i] exI[of _ "is"] exI[of _ j]) auto
      next
        case False
        then obtain m where m: "claim_loop w now ttl (i # is) jobs = claim_loop w now ttl is m"
            "\<forall>k. k \<noteq> i \<longrightarrow> gget m k = gget jobs k"
          using Some
          by (cases "cancel_expired now j"; cases "eligible now j") (fastforce simp: claimable_def)+
        then obtain is1 k is2 j' where w: "is = is1 @ k # is2" "gget m k = Some j'" "claimable now j'"
            "c = claim_job w now ttl j'" "gget (fst (claim_loop w now ttl is m)) k = Some c"
            "\<forall>k \<in> set is1. \<forall>j. gget m k = Some j \<longrightarrow> \<not> claimable now j"
          using IH[of m] Cons.prems by auto
        have "k \<noteq> i" "i \<notin> set is1" using Cons.prems(2) w(1) by auto
        then show ?thesis using w m Some False
          by (intro exI[of _ "i # is1"] exI[of _ k] exI[of _ is2] exI[of _ j']) auto
      qed
    qed
  qed simp
qed

end
