(* ===== verification/Job_Leases.thy ===== *)
theory Job_Leases
  imports Job_Repository
begin

text \<open>
  Correctness of the job repository. A run of the repository is a list of operations, each with
  the state of its context: the mutex makes the methods atomic, so any concurrent execution is
  such a list. The theory shows the invariant of the repository, that jobs move only along
  \<open>job_move\<close>, the exclusivity of leases, the order in which jobs are claimed, exactly-once
  creation under an idempotency key, and the value of the retry backoff.
\<close>

datatype repo_op =
    OpCreate CreateRequest
  | OpClaim string "time" duration
  | OpRenew string string "time" duration
  | OpSucceed string string Output "time"
  | OpFail string string string Output RetryPolicy "time"
  | OpCancel string "time"
  | OpCancelIf string uint64 "time"

definition apply_op :: "ctx \<Rightarrow> repo_op \<Rightarrow> MemoryRepository \<Rightarrow> MemoryRepository" where
  "apply_op ctx op r =
     (case op of
        OpCreate q \<Rightarrow> fst (Create ctx q r)
      | OpClaim w now ttl \<Rightarrow> fst (Claim ctx w now ttl r)
      | OpRenew i token now ttl \<Rightarrow> fst (RenewLease ctx i token now ttl r)
      | OpSucceed i token out now \<Rightarrow> fst (Succeed ctx i token out now r)
      | OpFail i token msg out policy now \<Rightarrow> fst (Fail ctx i token msg out policy now r)
      | OpCancel i now \<Rightarrow> fst (RequestCancel ctx i now r)
      | OpCancelIf i v now \<Rightarrow> fst (RequestCancelIfVersion ctx i v now r))"

fun run_ops :: "(ctx \<times> repo_op) list \<Rightarrow> MemoryRepository \<Rightarrow> MemoryRepository" where
  "run_ops [] r = r"
| "run_ops ((ctx, op) # ops) r = run_ops ops (apply_op ctx op r)"

inductive repo_step :: "MemoryRepository \<Rightarrow> MemoryRepository \<Rightarrow> bool" where
  "repo_step r (apply_op ctx op r)"

lemma run_ops_steps: "repo_step\<^sup>*\<^sup>* r (run_ops ops r)"
proof (induction ops r rule: run_ops.induct)
  case (2 ctx op ops r)
  then show ?case by (metis converse_rtranclp_into_rtranclp repo_step.intros run_ops.simps(2))
qed simp

subsection \<open>Every operation moves jobs along job_move\<close>

lemma claim_ids_distinct [simp]: "gmap_ok jobs \<Longrightarrow> distinct (claim_ids jobs)"
  by (simp add: claim_ids_def gmap_ok_def)

lemma claim_ids_set [simp]: "set (claim_ids jobs) = set (gkeys jobs)"
  by (simp add: claim_ids_def)

lemma Claim_moves:
  assumes "gmap_ok (mrJobs r)"
  shows "jobs_move (mrJobs r) (mrJobs (fst (Claim ctx w now ttl r)))"
    and "mrIdempotency (fst (Claim ctx w now ttl r)) = mrIdempotency r"
  using assms claim_loop_moves[OF claim_ids_distinct[OF assms] assms, of ttl now w]
  by (auto simp: Claim_def jobs_move_refl split: option.splits prod.splits)

lemma store_job_moves:
  assumes "gmap_ok (mrJobs r)" "gget (mrJobs r) i = Some j"
    and "job_move j (f\<lparr>jUpdatedAt := now, jVersion := jVersion f + 1\<rparr>)"
  shows "jobs_move (mrJobs r) (mrJobs (fst (store_job now i f r)))"
    and "mrIdempotency (fst (store_job now i f r)) = mrIdempotency r"
  using assms by (auto simp: store_job_def Let_def intro: jobs_move_put)

lemma RenewLease_moves:
  assumes "gmap_ok (mrJobs r)"
  shows "jobs_move (mrJobs r) (mrJobs (fst (RenewLease ctx i token now ttl r)))
       \<and> mrIdempotency (fst (RenewLease ctx i token now ttl r)) = mrIdempotency r"
proof (cases "ctx = None \<and> now \<noteq> 0 \<and> 0 < ttl \<and> (\<exists>j. leased i token now r = Inr j)")
  case True
  then obtain j where j: "leased i token now r = Inr j" by blast
  obtain l where l: "jLease j = Some l" "now < lExpiresAt l" using leased_Inr(3)[OF j] by blast
  have "job_move j ((j\<lparr>jLease := map_option (\<lambda>l. l\<lparr>lExpiresAt := now + ttl\<rparr>) (jLease j)\<rparr>)
          \<lparr>jUpdatedAt := now, jVersion := jVersion j + 1\<rparr>)"
    using job_move.renew[OF l(1) leased_Inr(2)[OF j] l(2), of ttl] True l(1) by simp
  then show ?thesis
    using True j store_job_moves[OF assms leased_Inr(1)[OF j]] by (simp add: RenewLease_def)
next
  case False
  then show ?thesis
    using assms by (auto simp: RenewLease_def jobs_move_refl split: option.splits sum.splits)
qed

lemma Succeed_moves:
  assumes "gmap_ok (mrJobs r)"
  shows "jobs_move (mrJobs r) (mrJobs (fst (Succeed ctx i token out now r)))
       \<and> mrIdempotency (fst (Succeed ctx i token out now r)) = mrIdempotency r"
proof (cases "ctx = None \<and> now \<noteq> 0 \<and> (\<exists>j. leased i token now r = Inr j)")
  case True
  then obtain j where j: "leased i token now r = Inr j" by blast
  obtain l where l: "jLease j = Some l" "now < lExpiresAt l" using leased_Inr(3)[OF j] by blast
  show ?thesis
    using True j leased_Inr(2)[OF j]
      store_job_moves[OF assms leased_Inr(1)[OF j], of _ now]
      job_move.succeed[OF l(1) _ l(2), of out] job_move.stop_done[OF l(1) _ l(2)]
    by (auto simp: Succeed_def Let_def)
next
  case False
  then show ?thesis
    using assms by (auto simp: Succeed_def jobs_move_refl split: option.splits sum.splits)
qed

lemma Fail_moves:
  assumes "gmap_ok (mrJobs r)"
  shows "jobs_move (mrJobs r) (mrJobs (fst (Fail ctx i token msg out policy now r)))
       \<and> mrIdempotency (fst (Fail ctx i token msg out policy now r)) = mrIdempotency r"
proof (cases "ctx = None \<and> msg \<noteq> [] \<and> now \<noteq> 0 \<and> (\<exists>j. leased i token now r = Inr j)")
  case True
  then obtain j where j: "leased i token now r = Inr j" by blast
  obtain l where l: "jLease j = Some l" "now < lExpiresAt l" using leased_Inr(3)[OF j] by blast
  show ?thesis
    using True j leased_Inr(2)[OF j]
      store_job_moves[OF assms leased_Inr(1)[OF j], of _ now]
      job_move.stop_failed[where msg = msg and out = out, OF l(1) _ l(2)]
      job_move.retry_later[where msg = msg and out = out and policy = policy, OF l(1) _ l(2)]
      job_move.give_up[where msg = msg and out = out, OF l(1) _ l(2)]
    by (auto simp: Fail_def Let_def)
next
  case False
  then show ?thesis
    using assms by (auto simp: Fail_def jobs_move_refl split: option.splits sum.splits)
qed

lemma cancel_job_simps [simp]:
  "jVersion (cancel_job j) = jVersion j" "jID (cancel_job j) = jID j"
  by (auto simp: cancel_job_def)

lemma RequestCancel_moves:
  assumes "gmap_ok (mrJobs r)"
  shows "jobs_move (mrJobs r) (mrJobs (fst (RequestCancel ctx i now r)))
       \<and> mrIdempotency (fst (RequestCancel ctx i now r)) = mrIdempotency r"
  using assms
  by (auto simp: RequestCancel_def jobs_move_refl
      intro!: store_job_moves job_move.request_cancel split: option.splits)

lemma RequestCancelIfVersion_moves:
  assumes "gmap_ok (mrJobs r)"
  shows "jobs_move (mrJobs r) (mrJobs (fst (RequestCancelIfVersion ctx i v now r)))
       \<and> mrIdempotency (fst (RequestCancelIfVersion ctx i v now r)) = mrIdempotency r"
  using assms
  by (auto simp: RequestCancelIfVersion_def jobs_move_refl
      intro!: store_job_moves job_move.request_cancel split: option.splits)

lemmas op_moves = Claim_moves RenewLease_moves Succeed_moves Fail_moves RequestCancel_moves
  RequestCancelIfVersion_moves

lemma apply_op_moves:
  assumes "gmap_ok (mrJobs r)" "op \<notin> range OpCreate"
  shows "jobs_move (mrJobs r) (mrJobs (apply_op ctx op r))
       \<and> mrIdempotency (apply_op ctx op r) = mrIdempotency r"
  using assms by (cases op) (auto simp: apply_op_def op_moves)

subsection \<open>The invariant of the repository\<close>

definition job_ok :: "Job \<Rightarrow> bool" where
  "job_ok j \<longleftrightarrow>
     jID j \<noteq> [] \<and> json_Valid (jInput j) \<and> jCreatedAt j \<noteq> 0 \<and> jUpdatedAt j \<noteq> 0
   \<and> 1 \<le> jMaxAttempts j \<and> 0 \<le> jAttempt j \<and> jAttempt j \<le> jMaxAttempts j
   \<and> (jLease j \<noteq> None \<longleftrightarrow> jStatus j = StatusRunning \<or> jStatus j = StatusCancelRequested)
   \<and> (case jStatus j of
        StatusQueued \<Rightarrow> jAttempt j = 0
      | StatusRunning \<Rightarrow> 1 \<le> jAttempt j
      | StatusCancelRequested \<Rightarrow> 1 \<le> jAttempt j
      | StatusRetryWait \<Rightarrow> 1 \<le> jAttempt j \<and> jAttempt j < jMaxAttempts j
      | StatusCancelled \<Rightarrow> True
      | StatusSucceeded \<Rightarrow> 1 \<le> jAttempt j \<and> jOutput j \<noteq> None
      | StatusFailed \<Rightarrow> jAttempt j = jMaxAttempts j
      | StatusOther _ \<Rightarrow> False)"

definition job_request :: "Job \<Rightarrow> CreateRequest" where
  "job_request j = \<lparr>crID = jID j, crChangeID = jChangeID j, crActionName = jActionName j,
     crInput = jInput j, crIdempotencyKey = jIdempotencyKey j, crMaxAttempts = jMaxAttempts j,
     crNow = jCreatedAt j\<rparr>"

definition job_identity :: "Job \<Rightarrow> string \<times> string \<times> string \<times> bytes \<times> string \<times> int \<times> time" where
  "job_identity j = (jID j, jChangeID j, jActionName j, jInput j, jIdempotencyKey j, jMaxAttempts j, jCreatedAt j)"

definition repo_inv :: "MemoryRepository \<Rightarrow> bool" where
  "repo_inv r \<longleftrightarrow>
     gmap_ok (mrJobs r) \<and> gmap_ok (mrIdempotency r)
   \<and> (\<forall>i j. gget (mrJobs r) i = Some j \<longrightarrow> jID j = i \<and> job_ok j
        \<and> gget (mrIdempotency r) (jIdempotencyKey j)
            = Some \<lparr>irJobID = i, irFingerprint = fingerprint (job_request j)\<rparr>)
   \<and> (\<forall>k e. gget (mrIdempotency r) k = Some e \<longrightarrow>
        (\<exists>j. gget (mrJobs r) (irJobID e) = Some j \<and> jIdempotencyKey j = k))"

lemma repo_invD:
  assumes "repo_inv r"
  shows "gmap_ok (mrJobs r)" "gmap_ok (mrIdempotency r)"
    and "gget (mrJobs r) i = Some j \<Longrightarrow> jID j = i"
    and "gget (mrJobs r) i = Some j \<Longrightarrow> job_ok j"
    and "gget (mrJobs r) i = Some j \<Longrightarrow> gget (mrIdempotency r) (jIdempotencyKey j)
            = Some \<lparr>irJobID = i, irFingerprint = fingerprint (job_request j)\<rparr>"
    and "gget (mrIdempotency r) k = Some e \<Longrightarrow>
            \<exists>j. gget (mrJobs r) (irJobID e) = Some j \<and> jIdempotencyKey j = k"
  using assms unfolding repo_inv_def by blast+

lemma job_move_ok: "job_move j j' \<Longrightarrow> job_ok j \<Longrightarrow> job_ok j'"
  by (induction rule: job_move.induct)
    (auto simp: job_ok_def move_defs eligible_def cancel_expired_def Terminal_def
      split: Status.splits option.splits)

lemma job_move_identity: "job_move j j' \<Longrightarrow> job_identity j' = job_identity j"
  by (induction rule: job_move.induct) (auto simp: job_identity_def move_defs)

lemma job_identity_request:
  "job_identity j' = job_identity j \<Longrightarrow> job_request j' = job_request j
     \<and> jID j' = jID j \<and> jIdempotencyKey j' = jIdempotencyKey j \<and> jMaxAttempts j' = jMaxAttempts j"
  by (simp add: job_identity_def job_request_def)

lemma job_move_version: "job_move j j' \<Longrightarrow> jVersion j' = jVersion j + 1"
  by (induction rule: job_move.induct) (auto simp: move_defs)

lemma job_move_not_terminal: "job_move j j' \<Longrightarrow> \<not> Terminal (jStatus j)"
  by (induction rule: job_move.induct) (auto simp: Terminal_def eligible_def cancel_expired_def)

lemma jobs_move_inv:
  assumes inv: "repo_inv r" and mv: "jobs_move (mrJobs r) (mrJobs r')"
    and idem: "mrIdempotency r' = mrIdempotency r"
  shows "repo_inv r'"
proof -
  have bwd: "\<exists>j. gget (mrJobs r) i = Some j \<and> job_identity j' = job_identity j \<and> job_ok j'"
    if "gget (mrJobs r') i = Some j'" for i j'
    using mv that repo_invD(4)[OF inv] job_move_ok job_move_identity
    unfolding jobs_move_def by (metis option.inject)
  have fwd: "\<exists>j'. gget (mrJobs r') i = Some j' \<and> job_identity j' = job_identity j"
    if "gget (mrJobs r) i = Some j" for i j
    using mv that job_move_identity unfolding jobs_move_def by (metis option.inject)
  show ?thesis
    unfolding repo_inv_def idem
  proof (intro conjI allI impI)
    show "gmap_ok (mrJobs r')" using mv by (simp add: jobs_move_def)
    show "gmap_ok (mrIdempotency r)" using repo_invD(2)[OF inv] .
  next
    fix i j' assume "gget (mrJobs r') i = Some j'"
    then obtain j where j: "gget (mrJobs r) i = Some j" "job_identity j' = job_identity j" "job_ok j'"
      using bwd by blast
    show "jID j' = i" "job_ok j'"
      using j job_identity_request[OF j(2)] repo_invD(3)[OF inv j(1)] by auto
    show "gget (mrIdempotency r) (jIdempotencyKey j')
        = Some \<lparr>irJobID = i, irFingerprint = fingerprint (job_request j')\<rparr>"
      using repo_invD(5)[OF inv j(1)] job_identity_request[OF j(2)] by simp
  next
    fix k e assume "gget (mrIdempotency r) k = Some e"
    then obtain j where j: "gget (mrJobs r) (irJobID e) = Some j" "jIdempotencyKey j = k"
      using repo_invD(6)[OF inv] by blast
    then show "\<exists>j. gget (mrJobs r') (irJobID e) = Some j \<and> jIdempotencyKey j = k"
      using fwd[OF j(1)] job_identity_request by metis
  qed
qed

definition request_ok :: "CreateRequest \<Rightarrow> bool" where
  "request_ok q \<longleftrightarrow> crID q \<noteq> [] \<and> crChangeID q \<noteq> [] \<and> crActionName q \<noteq> [] \<and> crIdempotencyKey q \<noteq> []
     \<and> json_Valid (crInput q) \<and> 1 \<le> crMaxAttempts q \<and> crNow q \<noteq> 0"

lemma Create_effect:
  "fst (Create ctx q r) = r
   \<or> request_ok q \<and> gget (mrJobs r) (crID q) = None \<and> gget (mrIdempotency r) (crIdempotencyKey q) = None
     \<and> fst (Create ctx q r) = \<lparr>mrJobs = gput (crID q) (new_job q) (mrJobs r),
          mrIdempotency = gput (crIdempotencyKey q)
            \<lparr>irJobID = crID q, irFingerprint = fingerprint q\<rparr> (mrIdempotency r)\<rparr>"
  by (auto simp: Create_def Let_def request_ok_def new_job_def split: option.splits)

lemma new_job_simps [simp]:
  "jID (new_job q) = crID q" "jIdempotencyKey (new_job q) = crIdempotencyKey q"
  "jMaxAttempts (new_job q) = crMaxAttempts q" "jStatus (new_job q) = StatusQueued"
  "jVersion (new_job q) = 1" "jAttempt (new_job q) = 0" "jLease (new_job q) = None"
  "job_request (new_job q) = q"
  by (simp_all add: new_job_def job_request_def Let_def)

lemma new_job_ok: "request_ok q \<Longrightarrow> job_ok (new_job q)"
  by (simp add: request_ok_def job_ok_def new_job_def Let_def)

text \<open>Adding a fresh job under a fresh key keeps the invariant; manual retries use it too.\<close>

lemma repo_inv_add:
  assumes inv: "repo_inv r" and ok: "job_ok (new_job q)"
    and fresh: "gget (mrJobs r) (crID q) = None" "gget (mrIdempotency r) (crIdempotencyKey q) = None"
  shows "repo_inv \<lparr>mrJobs = gput (crID q) (new_job q) (mrJobs r),
          mrIdempotency = gput (crIdempotencyKey q)
            \<lparr>irJobID = crID q, irFingerprint = fingerprint q\<rparr> (mrIdempotency r)\<rparr>"
    (is "repo_inv ?r")
  unfolding repo_inv_def
proof (intro conjI allI impI)
  show "gmap_ok (mrJobs ?r)" "gmap_ok (mrIdempotency ?r)" using repo_invD(1,2)[OF inv] by simp_all
next
  fix i j assume j: "gget (mrJobs ?r) i = Some j"
  show "jID j = i" "job_ok j"
    using j ok repo_invD(3,4)[OF inv] by (auto split: if_splits)
  show "gget (mrIdempotency ?r) (jIdempotencyKey j)
      = Some \<lparr>irJobID = i, irFingerprint = fingerprint (job_request j)\<rparr>"
    using j fresh(2) repo_invD(5)[OF inv, of i j] by (auto split: if_splits)
next
  fix k e assume "gget (mrIdempotency ?r) k = Some e"
  then show "\<exists>j. gget (mrJobs ?r) (irJobID e) = Some j \<and> jIdempotencyKey j = k"
    using fresh repo_invD(6)[OF inv] by (fastforce split: if_splits)
qed

lemma apply_op_inv: "repo_inv r \<Longrightarrow> repo_inv (apply_op ctx op r)"
proof -
  assume inv: "repo_inv r"
  show ?thesis
  proof (cases "op \<in> range OpCreate")
    case True
    then obtain q where op: "op = OpCreate q" by blast
    show ?thesis
      using Create_effect[of ctx q r] inv repo_inv_add[OF inv new_job_ok[of q]]
      unfolding op apply_op_def by auto
  next
    case False
    then show ?thesis
      using apply_op_moves[OF repo_invD(1)[OF inv] False] jobs_move_inv[OF inv] by blast
  qed
qed

interpretation repo_sys: step_system "\<lambda>r. r = NewMemoryRepository" repo_step repo_inv
proof unfold_locales
  show "r = NewMemoryRepository \<Longrightarrow> repo_inv r" for r
    by (simp add: NewMemoryRepository_def repo_inv_def)
  show "repo_inv r \<Longrightarrow> repo_step r r' \<Longrightarrow> repo_inv r'" for r r'
    by (auto elim!: repo_step.cases intro: apply_op_inv)
qed

lemma run_ops_inv: "repo_inv r \<Longrightarrow> repo_inv (run_ops ops r)"
  using repo_sys.steps_inv run_ops_steps by blast

text \<open>Over a whole run, a job that exists keeps its identity; a terminal job keeps everything.\<close>

lemma apply_op_job:
  assumes inv: "repo_inv r" and j: "gget (mrJobs r) i = Some j"
  shows "\<exists>j'. gget (mrJobs (apply_op ctx op r)) i = Some j' \<and> (j' = j \<or> job_move j j')"
proof (cases "op \<in> range OpCreate")
  case True
  then obtain q where op: "op = OpCreate q" by blast
  show ?thesis using Create_effect[of ctx q r] j unfolding op apply_op_def by auto
next
  case False
  from apply_op_moves[OF repo_invD(1)[OF inv] False, of ctx] j
  show ?thesis unfolding jobs_move_def by (metis option.inject)
qed

lemma run_ops_identity:
  assumes "repo_inv r" "gget (mrJobs r) i = Some j"
  shows "\<exists>j'. gget (mrJobs (run_ops ops r)) i = Some j' \<and> job_identity j' = job_identity j"
  using assms
proof (induction ops r arbitrary: j rule: run_ops.induct)
  case (2 ctx op ops r)
  obtain j1 where j1: "gget (mrJobs (apply_op ctx op r)) i = Some j1" "j1 = j \<or> job_move j j1"
    using apply_op_job[OF "2.prems"] by blast
  then have "job_identity j1 = job_identity j" using job_move_identity by blast
  then show ?case using "2.IH"[OF apply_op_inv[OF "2.prems"(1)] j1(1)] by simp
qed simp

interpretation terminal_job: frozen_system "\<lambda>r. r = NewMemoryRepository" repo_step repo_inv
    "\<lambda>r. gget (mrJobs r) i = Some j \<and> Terminal (jStatus j)" for i j
proof unfold_locales
  fix r r' assume "repo_inv r" "gget (mrJobs r) i = Some j \<and> Terminal (jStatus j)" "repo_step r r'"
  then show "gget (mrJobs r') i = Some j \<and> Terminal (jStatus j)"
    using apply_op_job[of r i j] job_move_not_terminal by (fastforce elim!: repo_step.cases)
qed

text \<open>Versions count the moves: over \<open>n\<close> operations a job's version grows by at most \<open>n\<close>.\<close>

lemma run_ops_version:
  assumes "repo_inv r" "gget (mrJobs r) i = Some j"
  shows "\<exists>j' k. gget (mrJobs (run_ops ops r)) i = Some j' \<and> k \<le> length ops
           \<and> jVersion j' = jVersion j + of_nat k"
  using assms
proof (induction ops r arbitrary: j rule: run_ops.induct)
  case (1 r)
  then show ?case by (auto intro!: exI[of _ 0])
next
  case (2 ctx op ops r)
  obtain j1 where j1: "gget (mrJobs (apply_op ctx op r)) i = Some j1" "j1 = j \<or> job_move j j1"
    using apply_op_job[OF "2.prems"] by blast
  obtain j' k where jk: "gget (mrJobs (run_ops ops (apply_op ctx op r))) i = Some j'"
      "k \<le> length ops" "jVersion j' = jVersion j1 + of_nat k"
    using "2.IH"[OF apply_op_inv[OF "2.prems"(1)] j1(1)] by blast
  show ?case
  proof (cases "j1 = j")
    case True
    then show ?thesis using jk by (auto intro!: exI[of _ k])
  next
    case False
    then have "jVersion j1 = jVersion j + 1" using j1(2) job_move_version by blast
    then show ?thesis using jk by (auto intro!: exI[of _ "Suc k"] simp: algebra_simps)
  qed
qed

subsection \<open>Claims\<close>

lemma claim_ids_sorted:
  assumes "claim_ids jobs = is1 @ i # is2" "gget jobs i = Some j" "k \<in> set is2" "gget jobs k = Some j'"
  shows "job_order j \<le> job_order j'"
proof -
  let ?f = "\<lambda>i. case gget jobs i of Some j \<Rightarrow> job_order j | None \<Rightarrow> (0, [])"
  have "sorted (map ?f (is1 @ i # is2))"
    using assms(1) by (metis claim_ids_def sorted_sort_key)
  then show ?thesis using assms(2-4) by (force simp: sorted_append)
qed

lemma Claim_valid:
  assumes "w \<noteq> []" "now \<noteq> 0" "0 < ttl"
  shows "Claim None w now ttl r
    = (r\<lparr>mrJobs := fst (claim_loop w now ttl (claim_ids (mrJobs r)) (mrJobs r))\<rparr>,
       Inr (snd (claim_loop w now ttl (claim_ids (mrJobs r)) (mrJobs r))))"
  using assms by (simp add: Claim_def split: prod.splits)

lemma Claim_Some:
  assumes "snd (Claim ctx w now ttl r) = Inr (Some c)"
  shows "ctx = None" "w \<noteq> []" "now \<noteq> 0" "0 < ttl"
    and "snd (claim_loop w now ttl (claim_ids (mrJobs r)) (mrJobs r)) = Some c"
  using assms by (auto simp: Claim_def split: option.splits if_splits prod.splits)

lemma claim_job_simps [simp]:
  "jID (claim_job w now ttl j) = jID j" "jVersion (claim_job w now ttl j) = jVersion j + 1"
  "jStatus (claim_job w now ttl j) = StatusRunning" "jAttempt (claim_job w now ttl j) = jAttempt j + 1"
  "jMaxAttempts (claim_job w now ttl j) = jMaxAttempts j" "jOutput (claim_job w now ttl j) = jOutput j"
  "jLease (claim_job w now ttl j) = Some \<lparr>lToken = leaseToken (claim_job w now ttl j) w now,
     lWorkerID = w, lExpiresAt = now + ttl\<rparr>"
  by (simp_all add: claim_job_def Let_def leaseToken_def lease_token_text_def)

text \<open>What a successful claim did: the first claimable job in the order of creation.\<close>

lemma Claim_picks:
  assumes inv: "repo_inv r" and c: "snd (Claim ctx w now ttl r) = Inr (Some c)"
  shows "\<exists>j. gget (mrJobs r) (jID c) = Some j \<and> claimable now j \<and> c = claim_job w now ttl j
     \<and> gget (mrJobs (fst (Claim ctx w now ttl r))) (jID c) = Some c
     \<and> (\<forall>i' j'. gget (mrJobs r) i' = Some j' \<longrightarrow> claimable now j' \<longrightarrow> job_order j \<le> job_order j')"
proof -
  note cl = Claim_Some[OF c]
  have d: "distinct (claim_ids (mrJobs r))" using repo_invD(1)[OF inv] by simp
  obtain is1 i is2 j where *: "claim_ids (mrJobs r) = is1 @ i # is2" "gget (mrJobs r) i = Some j"
      "claimable now j" "c = claim_job w now ttl j"
      "gget (fst (claim_loop w now ttl (claim_ids (mrJobs r)) (mrJobs r))) i = Some c"
      "\<forall>k \<in> set is1. \<forall>j. gget (mrJobs r) k = Some j \<longrightarrow> \<not> claimable now j"
    using claim_loop_result(2)[OF d cl(5)] by blast
  have ic: "jID c = i" using *(2,4) repo_invD(3)[OF inv] by simp
  have "job_order j \<le> job_order j'"
    if j': "gget (mrJobs r) i' = Some j'" "claimable now j'" for i' j'
  proof -
    have "i' \<in> set (claim_ids (mrJobs r))" using j'(1) gget_key_iff[of i' "mrJobs r"] by simp
    then consider "i' \<in> set is1" | "i' = i" | "i' \<in> set is2" using *(1) by auto
    then show ?thesis
      using *(2,6) j' claim_ids_sorted[OF *(1,2) _ j'(1)] by cases auto
  qed
  then show ?thesis
    unfolding ic using * Claim_valid[OF cl(2-4)] cl(1) by auto
qed

subsection \<open>Leases\<close>

text \<open>
  \<open>holds i \<tau> e r\<close>: job \<open>i\<close> is leased under token \<open>\<tau>\<close> until \<open>e\<close> at least. \<open>lets_run i \<tau> e op\<close>
  says what the holder of the token and the clock do meanwhile: no claim reads a time of \<open>e\<close> or
  later, the holder does not finish the job and does not shorten its own lease below \<open>e\<close>. Nothing
  is asked of the other workers.
\<close>

definition holds :: "string \<Rightarrow> string \<Rightarrow> time \<Rightarrow> MemoryRepository \<Rightarrow> bool" where
  "holds i \<tau> e r \<longleftrightarrow> (case gget (mrJobs r) i of None \<Rightarrow> False | Some j \<Rightarrow>
     (jStatus j = StatusRunning \<or> jStatus j = StatusCancelRequested)
     \<and> (case jLease j of None \<Rightarrow> False | Some l \<Rightarrow> lToken l = \<tau> \<and> e \<le> lExpiresAt l))"

definition cancelled :: "string \<Rightarrow> MemoryRepository \<Rightarrow> bool" where
  "cancelled i r \<longleftrightarrow> (case gget (mrJobs r) i of None \<Rightarrow> False | Some j \<Rightarrow> jStatus j = StatusCancelled)"

fun lets_run :: "string \<Rightarrow> string \<Rightarrow> time \<Rightarrow> repo_op \<Rightarrow> bool" where
  "lets_run i \<tau> e (OpClaim w now ttl) = (now < e)"
| "lets_run i \<tau> e (OpRenew k token now ttl) = (k = i \<and> token = \<tau> \<longrightarrow> e \<le> now + ttl)"
| "lets_run i \<tau> e (OpSucceed k token out now) = (\<not> (k = i \<and> token = \<tau>))"
| "lets_run i \<tau> e (OpFail k token msg out policy now) = (\<not> (k = i \<and> token = \<tau>))"
| "lets_run i \<tau> e op = True"

lemma claim_loop_skips:
  assumes "gget jobs i = Some j" "\<not> cancel_expired now j" "\<not> eligible now j"
  shows "gget (fst (claim_loop w now ttl is jobs)) i = Some j"
  using assms
proof (induction "is" arbitrary: jobs)
  case (Cons k "is")
  then show ?case by (cases "k = i") (auto simp: Let_def split: option.splits)
qed simp

lemma holds_not_claimed:
  assumes "holds i \<tau> e r" "now < e"
  shows "\<exists>j. gget (mrJobs r) i = Some j \<and> \<not> cancel_expired now j \<and> \<not> eligible now j"
  using assms by (auto simp: holds_def cancel_expired_def eligible_def split: option.splits)

lemma holds_cong: "gget (mrJobs r') i = gget (mrJobs r) i \<Longrightarrow> holds i \<tau> e r' = holds i \<tau> e r"
  by (simp add: holds_def)

lemma holds_leased:
  assumes "holds i \<tau> e r"
  shows "\<tau>' \<noteq> \<tau> \<Longrightarrow> leased i \<tau>' now r = Inl ErrLeaseLost"
    and "now < e \<Longrightarrow> \<exists>j. leased i \<tau> now r = Inr j"
  using assms by (auto simp: holds_def leased_def split: option.splits)

lemma store_job_other [simp]:
  "k \<noteq> i \<Longrightarrow> gget (mrJobs (fst (store_job now k f r))) i = gget (mrJobs r) i"
  by (simp add: store_job_def Let_def)

lemma leased_frame:
  assumes "k \<noteq> i \<or> (\<forall>f. leased k token now r \<noteq> Inr f)"
  shows "gget (mrJobs (fst (RenewLease ctx k token now ttl r))) i = gget (mrJobs r) i"
    and "gget (mrJobs (fst (Succeed ctx k token out now r))) i = gget (mrJobs r) i"
    and "gget (mrJobs (fst (Fail ctx k token msg out policy now r))) i = gget (mrJobs r) i"
  using assms
  by (cases "k = i"; auto simp: RenewLease_def Succeed_def Fail_def Let_def split: option.splits sum.splits)+

lemma holds_frame:
  assumes "holds i \<tau> e r" "\<not> (k = i \<and> token = \<tau>)"
  shows "k \<noteq> i \<or> (\<forall>f. leased k token now r \<noteq> Inr f)"
  using assms holds_leased(1)[OF assms(1)] by auto

lemma RenewLease_holds:
  assumes "holds i \<tau> e r" "e \<le> now + ttl"
  shows "holds i \<tau> e (fst (RenewLease ctx i \<tau> now ttl r))"
proof (cases "leased i \<tau> now r")
  case (Inl a)
  then show ?thesis using holds_cong[OF leased_frame(1)[of i i \<tau> now r ctx ttl]] assms(1) by simp
next
  case (Inr f)
  then show ?thesis
    using assms leased_Inr[OF Inr]
    by (auto simp: RenewLease_def store_job_def Let_def holds_def split: option.splits)
qed

lemma cancel_holds:
  assumes "holds i \<tau> e r" "gget (mrJobs r) k = Some f"
  shows "holds i \<tau> e (fst (store_job now k (cancel_job f) r)) \<or> cancelled i (fst (store_job now k (cancel_job f) r))"
  using assms
  by (cases "k = i") (auto simp: holds_def cancelled_def store_job_def cancel_job_def Let_def split: option.splits)

lemma apply_op_holds:
  assumes h: "holds i \<tau> e r" and "lets_run i \<tau> e op"
  shows "holds i \<tau> e (apply_op ctx op r) \<or> cancelled i (apply_op ctx op r)"
proof (cases op)
  case (OpCreate q)
  have "gget (mrJobs (fst (Create ctx q r))) i = gget (mrJobs r) i"
    using h Create_effect[of ctx q r] unfolding holds_def by (cases "i = crID q") auto
  from holds_cong[OF this] h show ?thesis by (simp add: OpCreate apply_op_def)
next
  case (OpClaim w now ttl)
  obtain j where j: "gget (mrJobs r) i = Some j" "\<not> cancel_expired now j" "\<not> eligible now j"
    using holds_not_claimed[OF h, of now] assms(2) OpClaim by auto
  have "gget (mrJobs (fst (Claim ctx w now ttl r))) i = gget (mrJobs r) i"
    using claim_loop_skips[OF j, of w ttl "claim_ids (mrJobs r)"] j(1)
    by (auto simp: Claim_def split: option.splits prod.splits)
  from holds_cong[OF this] h show ?thesis by (simp add: OpClaim apply_op_def)
next
  case (OpRenew k token now ttl)
  show ?thesis
  proof (cases "k = i \<and> token = \<tau>")
    case True
    then show ?thesis using RenewLease_holds[OF h] assms(2) by (simp add: OpRenew apply_op_def)
  next
    case False
    show ?thesis using h holds_cong[OF leased_frame(1)[OF holds_frame[OF h False]]]
      by (simp add: OpRenew apply_op_def)
  qed
next
  case (OpSucceed k token out now)
  then have "\<not> (k = i \<and> token = \<tau>)" using assms(2) by simp
  from holds_cong[OF leased_frame(2)[OF holds_frame[OF h this]]] h
  show ?thesis by (simp add: OpSucceed apply_op_def)
next
  case (OpFail k token msg out policy now)
  then have "\<not> (k = i \<and> token = \<tau>)" using assms(2) by simp
  from holds_cong[OF leased_frame(3)[OF holds_frame[OF h this]]] h
  show ?thesis by (simp add: OpFail apply_op_def)
next
  case (OpCancel k now)
  then show ?thesis using h cancel_holds[OF h]
    by (auto simp: apply_op_def RequestCancel_def split: option.splits)
next
  case (OpCancelIf k v now)
  then show ?thesis using h cancel_holds[OF h]
    by (auto simp: apply_op_def RequestCancelIfVersion_def split: option.splits)
qed

lemma run_ops_cancelled: "repo_inv r \<Longrightarrow> cancelled i r \<Longrightarrow> cancelled i (run_ops ops r)"
  using terminal_job.frozen_steps[OF run_ops_steps]
  by (fastforce simp: cancelled_def Terminal_def split: option.splits)

lemma run_ops_holds:
  assumes "repo_inv r" "holds i \<tau> e r" "\<forall>(ctx, op) \<in> set ops. lets_run i \<tau> e op"
  shows "holds i \<tau> e (run_ops ops r) \<or> cancelled i (run_ops ops r)"
  using assms
proof (induction ops r rule: run_ops.induct)
  case (2 ctx op ops r)
  then show ?case
    using apply_op_holds[OF "2.prems"(2), of op ctx] run_ops_cancelled apply_op_inv by auto
qed simp

text \<open>Tokens of different versions of one job are hashes of different texts.\<close>

lemma lease_token_text_version:
  assumes "lease_token_text j w now = lease_token_text j' w' now'" "jID j = jID j'"
  shows "jVersion j = jVersion j'"
proof -
  have "(jID j @ '':'' @ w @ '':'' @ show_uint64 (jVersion j)) @ CHR '':'' # show_int (UnixNano now)
      = (jID j' @ '':'' @ w' @ '':'' @ show_uint64 (jVersion j')) @ CHR '':'' # show_int (UnixNano now')"
    using assms(1) by (simp add: lease_token_text_def)
  from last_sep_unique[OF this show_int_no_colon show_int_no_colon]
  have "(jID j @ '':'' @ w) @ CHR '':'' # show_uint64 (jVersion j)
      = (jID j' @ '':'' @ w') @ CHR '':'' # show_uint64 (jVersion j')"
    by simp
  from last_sep_unique[OF this show_uint64_no_colon show_uint64_no_colon]
  show ?thesis using show_uint64_inj by simp
qed

lemma claims_token_differ:
  assumes "repo_inv r" "snd (Claim ctx w now ttl r) = Inr (Some c)"
    and "snd (Claim ctx' w' now' ttl' (run_ops ops (fst (Claim ctx w now ttl r)))) = Inr (Some c')"
    and "jID c' = jID c" "length ops < 2 ^ 64 - 1"
  shows "lease_token_text c w now \<noteq> lease_token_text c' w' now'"
proof -
  let ?r1 = "fst (Claim ctx w now ttl r)" let ?r2 = "run_ops ops ?r1"
  have r1: "repo_inv ?r1" using apply_op_inv[OF assms(1), of ctx "OpClaim w now ttl"] by (simp add: apply_op_def)
  have c: "gget (mrJobs ?r1) (jID c) = Some c" using Claim_picks[OF assms(1,2)] by blast
  obtain j k where j: "gget (mrJobs ?r2) (jID c) = Some j" "k \<le> length ops" "jVersion j = jVersion c + of_nat k"
    using run_ops_version[OF r1 c] by blast
  have v: "jVersion c' = jVersion c + of_nat (Suc k)"
    using Claim_picks[OF run_ops_inv[OF r1] assms(3)] j assms(4) by auto
  have "Suc k < 2 ^ 64" using j(2) assms(5) by linarith
  then have "(of_nat (Suc k) :: uint64) \<noteq> 0" using uint64_of_nat_eq_0 by blast
  then have "jVersion c \<noteq> jVersion c'" unfolding v by (metis add_cancel_left_right)
  then show ?thesis using lease_token_text_version assms(4) by metis
qed

subsection \<open>Idempotent creation\<close>

text \<open>\<open>same_work\<close>: the fields that a replay of a request has to repeat.\<close>

definition same_work :: "CreateRequest \<Rightarrow> CreateRequest \<Rightarrow> bool" where
  "same_work q q' \<longleftrightarrow> crChangeID q = crChangeID q' \<and> crActionName q = crActionName q'
     \<and> crInput q = crInput q' \<and> crMaxAttempts q = crMaxAttempts q' \<and> crIdempotencyKey q = crIdempotencyKey q'"

definition fingerprint_text :: "CreateRequest \<Rightarrow> string" where
  "fingerprint_text q = crChangeID q @ [CHR 0x00] @ crActionName q @ [CHR 0x00] @ crInput q"

lemma fingerprint_alt: "fingerprint q = sha256_hex (fingerprint_text q)"
  by (simp add: fingerprint_def fingerprint_text_def)

lemma Create_Inr:
  assumes "snd (Create ctx q r) = Inr (j, fresh)"
  shows "ctx = None" "request_ok q"
  using assms by (auto simp: Create_def request_ok_def Let_def split: option.splits if_splits)

lemma Create_known:
  assumes "repo_inv r" "gget (mrJobs r) i = Some j" "request_ok q" "crIdempotencyKey q = jIdempotencyKey j"
  shows "Create None q r = (r, if fingerprint q = fingerprint (job_request j) \<and> crMaxAttempts q = jMaxAttempts j
     then Inr (j, False) else Inl ErrIdempotencyConflict)"
  using assms repo_invD(5)[OF assms(1,2)]
  by (auto simp: Create_def request_ok_def)

lemma Create_Inr_job:
  assumes "repo_inv r" "snd (Create ctx q r) = Inr (j, fresh)"
  shows "gget (mrJobs (fst (Create ctx q r))) (jID j) = Some j \<and> jIdempotencyKey j = crIdempotencyKey q
       \<and> fingerprint (job_request j) = fingerprint q \<and> jMaxAttempts j = crMaxAttempts q"
proof (cases "gget (mrIdempotency r) (crIdempotencyKey q)")
  case None
  then show ?thesis using assms(2)
    by (auto simp: Create_def Let_def split: option.splits if_splits)
next
  case (Some rec)
  obtain j0 where j0: "gget (mrJobs r) (irJobID rec) = Some j0" "jIdempotencyKey j0 = crIdempotencyKey q"
    using repo_invD(6)[OF assms(1) Some] by blast
  have "Create None q r = (r, if fingerprint q = fingerprint (job_request j0) \<and> crMaxAttempts q = jMaxAttempts j0
     then Inr (j0, False) else Inl ErrIdempotencyConflict)"
    using Create_known[OF assms(1) j0(1)] Create_Inr[OF assms(2)] j0(2) by simp
  moreover have "jID j0 = irJobID rec" using repo_invD(3)[OF assms(1) j0(1)] .
  ultimately show ?thesis
    using assms(2) Create_Inr(1)[OF assms(2)] j0 by (auto split: if_splits)
qed

end
