(* ===== verification/Job_Correctness.thy ===== *)
theory Job_Correctness
  imports Job_Leases
begin

text \<open>
  The properties of the job repository, over every state some list of operations reaches from
  \<open>NewMemoryRepository\<close>, each with a concrete run where its hypotheses hold.
\<close>

definition repo_reachable :: "MemoryRepository \<Rightarrow> bool" where
  "repo_reachable r \<longleftrightarrow> (\<exists>ops. r = run_ops ops NewMemoryRepository)"

lemma repo_reachable_inv: "repo_reachable r \<Longrightarrow> repo_inv r"
  using repo_sys.reach_inv run_ops_steps unfolding repo_reachable_def by blast

lemma run_ops_append: "run_ops (xs @ ys) r = run_ops ys (run_ops xs r)"
  by (induction xs r rule: run_ops.induct) auto

lemma repo_reachable_run: "repo_reachable r \<Longrightarrow> repo_reachable (run_ops ops r)"
  unfolding repo_reachable_def by (metis run_ops_append)

lemma Claim_inv: "repo_inv r \<Longrightarrow> repo_inv (fst (Claim ctx w now ttl r))"
  using apply_op_inv[of r ctx "OpClaim w now ttl"] by (simp add: apply_op_def)

lemma Create_inv: "repo_inv r \<Longrightarrow> repo_inv (fst (Create ctx q r))"
  using apply_op_inv[of r ctx "OpCreate q"] by (simp add: apply_op_def)

text \<open>A refused lease refuses the writer and changes nothing.\<close>

lemma lease_refused:
  assumes "leased i token t r = Inl e"
  shows "\<exists>err. Succeed ctx i token out t r = (r, Inl err)"
    and "\<exists>err. Fail ctx i token msg out policy t r = (r, Inl err)"
    and "\<exists>err. RenewLease ctx i token t ttl r = (r, Inl err)"
  using assms by (auto simp: Succeed_def Fail_def RenewLease_def split: option.splits)

lemma le_mult_power2: "0 < d \<Longrightarrow> d \<le> d * 2 ^ n" for d :: int
  using mult_left_mono[of 1 "2 ^ n" d] by simp

lemma retry_loop_exact:
  assumes "0 < d" "d < 2 ^ 63" "m < 2 ^ 63"
  shows "retry_loop n m d = min (if m > 0 then m else maxRetryDelay) (d * 2 ^ n)"
  using assms
proof (induction n arbitrary: d)
  case 0
  then show ?case by (auto simp: maxRetryDelay_def)
next
  case (Suc n)
  define p where "p = d * 2 ^ Suc n"
  have p: "d \<le> p" "d * 2 \<le> p"
    using le_mult_power2[OF Suc.prems(1), of "Suc n"] le_mult_power2[of "d * 2" n] Suc.prems(1)
    unfolding p_def by (simp_all only: power_Suc mult.assoc)
  show ?case
  proof (cases "m > 0 \<and> d \<ge> m \<or> d > maxRetryDelay div 2")
    case True
    then show ?thesis
      unfolding p_def[symmetric] using p Suc.prems(2-) by (auto simp: maxRetryDelay_def min_def)
  next
    case False
    then have "i64 (d * 2) = d * 2" "d * 2 < 2 ^ 63" using Suc.prems by (auto simp: maxRetryDelay_def)
    then show ?thesis using False Suc.IH[of "d * 2"] Suc.prems by (auto simp: mult.assoc)
  qed
qed

text \<open>A job whose cancellation is pending or done, with its attempts so far.\<close>

definition stopping :: "string \<Rightarrow> int \<Rightarrow> MemoryRepository \<Rightarrow> bool" where
  "stopping i a r \<longleftrightarrow> (case gget (mrJobs r) i of None \<Rightarrow> False | Some j \<Rightarrow>
     (jStatus j = StatusCancelRequested \<or> jStatus j = StatusCancelled) \<and> jAttempt j = a)"

lemma job_move_stopping:
  "job_move j j' \<Longrightarrow> jStatus j = StatusCancelRequested \<Longrightarrow>
     (jStatus j' = StatusCancelRequested \<or> jStatus j' = StatusCancelled) \<and> jAttempt j' = jAttempt j"
  by (induction rule: job_move.induct) (auto simp: move_defs eligible_def)

interpretation stopping_job: frozen_system "\<lambda>r. r = NewMemoryRepository" repo_step repo_inv "stopping i a" for i a
proof unfold_locales
  fix r r' assume inv: "repo_inv r" and st: "stopping i a r" and "repo_step r r'"
  then obtain ctx op where r': "r' = apply_op ctx op r" by (auto elim: repo_step.cases)
  obtain j where j: "gget (mrJobs r) i = Some j" "jAttempt j = a"
      "jStatus j = StatusCancelRequested \<or> jStatus j = StatusCancelled"
    using st by (auto simp: stopping_def split: option.splits)
  obtain j' where j': "gget (mrJobs r') i = Some j'" "j' = j \<or> job_move j j'"
    using apply_op_job[OF inv j(1)] r' by blast
  then show "stopping i a r'"
    using j job_move_stopping job_move_not_terminal[of j j'] by (auto simp: stopping_def Terminal_def)
qed

subsection \<open>A concrete run\<close>

definition w_request :: CreateRequest where
  "w_request = \<lparr>crID = ''job-1'', crChangeID = ''change-1'', crActionName = ''restart'', crInput = ''{}'',
     crIdempotencyKey = ''key-1'', crMaxAttempts = 2, crNow = 10\<rparr>"

definition w_repo :: MemoryRepository where
  "w_repo = run_ops [(None, OpCreate w_request)] NewMemoryRepository"

definition w_claimed :: Job where
  "w_claimed = claim_job ''worker-1'' 20 100 (new_job w_request)"

lemma w_request_ok: "request_ok w_request"
  by (simp add: request_ok_def w_request_def)

lemma w_request_simps [simp]: "crID w_request = ''job-1''" "crIdempotencyKey w_request = ''key-1''"
  "crMaxAttempts w_request = 2"
  by (simp_all add: w_request_def)

lemma w_repo_reachable: "repo_reachable w_repo"
  unfolding repo_reachable_def w_repo_def by blast

lemma w_create: "Create None w_request NewMemoryRepository
    = (w_repo, Inr (new_job w_request, True))"
  using w_request_ok
  by (auto simp: w_repo_def apply_op_def Create_def NewMemoryRepository_def request_ok_def Let_def)

lemma w_repo_jobs: "mrJobs w_repo = [(''job-1'', new_job w_request)]"
  using w_request_ok
  by (auto simp: w_repo_def apply_op_def Create_def NewMemoryRepository_def request_ok_def Let_def)

lemma w_claim: "Claim None ''worker-1'' 20 100 w_repo
    = (w_repo\<lparr>mrJobs := [(''job-1'', w_claimed)]\<rparr>, Inr (Some w_claimed))"
  by (simp add: Claim_def w_repo_jobs claim_ids_def cancel_expired_def eligible_def w_claimed_def Let_def)

lemma w_claimed_simps [simp]: "jID w_claimed = ''job-1''" "jStatus w_claimed = StatusRunning"
  "jVersion w_claimed = 2" "jAttempt w_claimed = 1"
  by (simp_all add: w_claimed_def)

lemma w_claimed_lease: "jLease w_claimed = Some \<lparr>lToken = leaseToken w_claimed ''worker-1'' 20,
    lWorkerID = ''worker-1'', lExpiresAt = 120\<rparr>"
  by (simp add: w_claimed_def)

definition w_repo2 :: MemoryRepository where
  "w_repo2 = run_ops [(None, OpClaim ''worker-1'' 20 100)] w_repo"

lemma w_repo2_jobs: "mrJobs w_repo2 = [(''job-1'', w_claimed)]"
  by (simp add: w_repo2_def apply_op_def w_claim)

lemma w_repo2_reachable: "repo_reachable w_repo2"
  unfolding w_repo2_def by (rule repo_reachable_run[OF w_repo_reachable])

subsection \<open>The invariant\<close>

text \<open>
  C30: In every state the repository can reach, every stored job is filed under its own id, has
  made between 0 and \<^verbatim>\<open>MaxAttempts\<close> attempts, holds a lease exactly while it is running or has a
  cancellation pending, is failed only with all attempts used, is succeeded only with an output
  and after an attempt, and has one of the seven declared statuses.
\<close>

theorem reachable_jobs_ok:
  assumes "repo_reachable r" "gget (mrJobs r) i = Some j"
  shows "jID j = i \<and> 0 \<le> jAttempt j \<and> jAttempt j \<le> jMaxAttempts j
    \<and> (jLease j \<noteq> None \<longleftrightarrow> jStatus j = StatusRunning \<or> jStatus j = StatusCancelRequested)
    \<and> (jStatus j = StatusFailed \<longrightarrow> jAttempt j = jMaxAttempts j)
    \<and> (jStatus j = StatusSucceeded \<longrightarrow> jOutput j \<noteq> None \<and> 1 \<le> jAttempt j)
    \<and> (\<forall>s. jStatus j \<noteq> StatusOther s)"
  using repo_invD(3,4)[OF repo_reachable_inv[OF assms(1)] assms(2)]
  by (auto simp: job_ok_def split: Status.splits)

theorem reachable_jobs_ok_witness:
  "repo_reachable w_repo2 \<and> gget (mrJobs w_repo2) ''job-1'' = Some w_claimed
   \<and> jAttempt w_claimed \<le> jMaxAttempts w_claimed \<and> jLease w_claimed \<noteq> None"
  using reachable_jobs_ok[OF w_repo2_reachable, of "''job-1''" w_claimed] w_repo2_reachable
  by (simp add: w_repo2_jobs)

text \<open>
  C20: Every operation of the repository is, job by job, a move of the abstract job: a stored job
  either stays as it is or makes one \<open>job_move\<close>, no job disappears, and a job appears only by
  \<^verbatim>\<open>Create\<close>, as the fresh queued job of a valid request.
\<close>

theorem repo_refines_job_moves:
  assumes "repo_reachable r"
  shows "gget (mrJobs (apply_op ctx op r)) i = gget (mrJobs r) i
    \<or> (\<exists>j j'. gget (mrJobs r) i = Some j \<and> gget (mrJobs (apply_op ctx op r)) i = Some j' \<and> job_move j j')
    \<or> (\<exists>q. op = OpCreate q \<and> request_ok q \<and> crID q = i \<and> gget (mrJobs r) i = None
         \<and> gget (mrJobs (apply_op ctx op r)) i = Some (new_job q))"
proof (cases "op \<in> range OpCreate")
  case True
  then obtain q where op: "op = OpCreate q" by blast
  show ?thesis using Create_effect[of ctx q r] unfolding op apply_op_def by (cases "i = crID q") auto
next
  case False
  show ?thesis
    using apply_op_moves[OF repo_invD(1)[OF repo_reachable_inv[OF assms]] False, of ctx]
    unfolding jobs_move_def by blast
qed

theorem repo_refines_job_moves_witness:
  "repo_reachable w_repo
   \<and> (\<exists>j j'. gget (mrJobs w_repo) ''job-1'' = Some j
        \<and> gget (mrJobs (apply_op None (OpClaim ''worker-1'' 20 100) w_repo)) ''job-1'' = Some j' \<and> job_move j j')"
  using repo_refines_job_moves[OF w_repo_reachable, of None "OpClaim ''worker-1'' 20 100" "''job-1''"]
    w_repo_reachable
  by (auto simp: apply_op_def w_claim w_repo_jobs w_claimed_def dest: arg_cong[of _ _ jStatus])

text \<open>
  A terminal job is final: once a job is succeeded, failed or cancelled, no later operation of
  any worker or operator changes any field of it.
\<close>

lemma terminal_jobs_final:
  assumes "repo_reachable r" "gget (mrJobs r) i = Some j" "Terminal (jStatus j)"
  shows "gget (mrJobs (run_ops ops r)) i = Some j"
  using terminal_job.frozen_steps[OF run_ops_steps repo_reachable_inv[OF assms(1)]] assms(2,3) by blast

subsection \<open>Claims and leases\<close>

text \<open>
  C25: Claiming is fair and misses nothing: a valid \<^verbatim>\<open>Claim\<close> returns a job exactly when some job is
  claimable (queued, due for retry, or running under an expired lease, with attempts left), and
  then it is the claimable job that is oldest by creation time and id, stored as running with one
  attempt more under a fresh lease of the caller.
\<close>

theorem Claim_oldest_claimable:
  assumes "repo_reachable r" "w \<noteq> []" "now \<noteq> 0" "0 < ttl"
  shows "\<exists>res. snd (Claim None w now ttl r) = Inr res
    \<and> (res = None \<longleftrightarrow> (\<forall>i j. gget (mrJobs r) i = Some j \<longrightarrow> \<not> claimable now j))
    \<and> (\<forall>c. res = Some c \<longrightarrow>
         (\<exists>j. gget (mrJobs r) (jID c) = Some j \<and> claimable now j \<and> c = claim_job w now ttl j
            \<and> gget (mrJobs (fst (Claim None w now ttl r))) (jID c) = Some c
            \<and> (\<forall>i' j'. gget (mrJobs r) i' = Some j' \<longrightarrow> claimable now j' \<longrightarrow> job_order j \<le> job_order j')))"
proof -
  note inv = repo_reachable_inv[OF assms(1)]
  let ?res = "snd (claim_loop w now ttl (claim_ids (mrJobs r)) (mrJobs r))"
  have res: "snd (Claim None w now ttl r) = Inr ?res" by (simp add: Claim_valid[OF assms(2-4)])
  have "?res = None \<longleftrightarrow> (\<forall>i j. gget (mrJobs r) i = Some j \<longrightarrow> \<not> claimable now j)"
    unfolding claim_loop_result(1)[OF claim_ids_distinct[OF repo_invD(1)[OF inv]]] claim_ids_set
    using gget_key_iff by metis
  then show ?thesis using res Claim_picks[OF inv] by (intro exI[of _ ?res]) simp
qed

theorem Claim_oldest_claimable_witness:
  "repo_reachable w_repo \<and> snd (Claim None ''worker-1'' 20 100 w_repo) = Inr (Some w_claimed)
   \<and> (\<exists>j. gget (mrJobs w_repo) ''job-1'' = Some j \<and> claimable 20 j)"
  using Claim_oldest_claimable[OF w_repo_reachable, of "''worker-1''" 20 100] w_repo_reachable
  by (auto simp: w_claim)

text \<open>
  C1: Leases are exclusive. Take a claim that returned job \<open>c\<close>, a time \<open>e\<close> within its lease, and
  any later operations of any workers, as long as no clock of a claim has reached \<open>e\<close> and the
  holder itself has neither finished the job nor shortened its lease. Then no claim before \<open>e\<close>
  returns the job, whoever presents another token is refused and changes nothing, and the holder's
  token is still good before \<open>e\<close>, unless the job has been cancelled.
\<close>

theorem lease_exclusive:
  assumes "repo_reachable r" "snd (Claim ctx w now ttl r) = Inr (Some c)"
    and "\<forall>(ctx, op) \<in> set ops. lets_run (jID c) (leaseToken c w now) e op" "e \<le> now + ttl"
    and "r' = run_ops ops (fst (Claim ctx w now ttl r))"
  shows "(\<forall>ctx' w' now' ttl' c'. now' < e \<and> snd (Claim ctx' w' now' ttl' r') = Inr (Some c') \<longrightarrow> jID c' \<noteq> jID c)
    \<and> (\<forall>ctx' \<tau>' out now'. \<tau>' \<noteq> leaseToken c w now \<longrightarrow> (\<exists>err. Succeed ctx' (jID c) \<tau>' out now' r' = (r', Inl err)))
    \<and> ((\<forall>now' < e. \<exists>j. leased (jID c) (leaseToken c w now) now' r' = Inr j) \<or> cancelled (jID c) r')"
proof -
  let ?i = "jID c" let ?\<tau> = "leaseToken c w now" let ?r1 = "fst (Claim ctx w now ttl r)"
  note inv = repo_reachable_inv[OF assms(1)]
  have inv1: "repo_inv ?r1" and inv': "repo_inv r'"
    using Claim_inv[OF inv] run_ops_inv assms(5) by auto
  obtain j where j: "c = claim_job w now ttl j" "gget (mrJobs ?r1) ?i = Some c"
    using Claim_picks[OF inv assms(2)] by blast
  have "jStatus c = StatusRunning" "jLease c = Some \<lparr>lToken = ?\<tau>, lWorkerID = w, lExpiresAt = now + ttl\<rparr>"
    unfolding j(1) by simp_all
  then have "holds ?i ?\<tau> e ?r1" using j(2) assms(4) by (simp add: holds_def)
  then consider (holds) "holds ?i ?\<tau> e r'" | (canc) "cancelled ?i r'"
    using run_ops_holds[OF inv1 _ assms(3)] assms(5) by blast
  then show ?thesis
  proof cases
    case holds
    have "jID c' \<noteq> ?i" if "now' < e" "snd (Claim ctx' w' now' ttl' r') = Inr (Some c')" for ctx' w' now' ttl' c'
      using Claim_picks[OF inv' that(2)] holds_not_claimed[OF holds that(1)] by (auto simp: claimable_def)
    then show ?thesis using holds_leased[OF holds]
      by (auto simp: Succeed_def split: option.splits)
  next
    case canc
    then have no: "leased ?i \<tau>' now' r' = Inl ErrLeaseLost" for \<tau>' now'
      by (auto simp: cancelled_def leased_def split: option.splits)
    have "jID c' \<noteq> ?i" if "snd (Claim ctx' w' now' ttl' r') = Inr (Some c')" for ctx' w' now' ttl' c'
      using Claim_picks[OF inv' that] canc by (auto simp: claimable_def eligible_def cancelled_def)
    then show ?thesis using canc by (auto simp: Succeed_def no split: option.splits)
  qed
qed

lemma w_after_claim: "snd (Claim None ''worker-1'' 20 100 w_repo) = Inr (Some w_claimed)"
  by (simp add: w_claim)

theorem lease_exclusive_witness:
  "repo_reachable w_repo \<and> snd (Claim None ''worker-1'' 20 100 w_repo) = Inr (Some w_claimed)
   \<and> (\<nexists>c'. jID c' = ''job-1'' \<and> snd (Claim None ''worker-2'' 60 100
        (run_ops [(None, OpClaim ''worker-2'' 30 100)] (fst (Claim None ''worker-1'' 20 100 w_repo)))) = Inr (Some c'))"
proof -
  let ?ops = "[(None, OpClaim ''worker-2'' 30 100)]"
  have "\<forall>(ctx, op) \<in> set ?ops. lets_run (jID w_claimed) (leaseToken w_claimed ''worker-1'' 20) 110 op"
    by simp
  note * = conjunct1[OF lease_exclusive[OF w_repo_reachable w_after_claim this _ refl], rule_format]
  have "jID c' \<noteq> ''job-1''"
    if "snd (Claim None ''worker-2'' 60 100
      (run_ops ?ops (fst (Claim None ''worker-1'' 20 100 w_repo)))) = Inr (Some c')" for c'
    using *[OF _ conjI[OF _ that]] by simp
  then show ?thesis using w_repo_reachable w_after_claim by blast
qed

text \<open>
  C7: Lost leases are fenced off. When a job has been claimed, then claimed again after any number
  of operations below the wrap-around of the version counter, the token of the first claim is
  refused by \<^verbatim>\<open>Succeed\<close>, \<^verbatim>\<open>Fail\<close> and \<^verbatim>\<open>RenewLease\<close>, and nothing changes, unless the two texts the tokens are
  hashes of are a collision of SHA-256.
\<close>

theorem stale_token_fenced:
  assumes "repo_reachable r" "snd (Claim ctx w now ttl r) = Inr (Some c)"
    and "r' = run_ops ops (fst (Claim ctx w now ttl r))" "length ops < 2 ^ 64 - 1"
    and "Claim ctx' w' now' ttl' r' = (r'', Inr (Some c'))" "jID c' = jID c"
  shows "(\<forall>ctx out t ttl msg policy.
        (\<exists>err. Succeed ctx (jID c) (leaseToken c w now) out t r'' = (r'', Inl err))
      \<and> (\<exists>err. Fail ctx (jID c) (leaseToken c w now) msg out policy t r'' = (r'', Inl err))
      \<and> (\<exists>err. RenewLease ctx (jID c) (leaseToken c w now) t ttl r'' = (r'', Inl err)))
    \<or> sha256_collision (lease_token_text c w now) (lease_token_text c' w' now')"
proof (cases "leaseToken c w now = leaseToken c' w' now'")
  case True
  have c': "snd (Claim ctx' w' now' ttl' (run_ops ops (fst (Claim ctx w now ttl r)))) = Inr (Some c')"
    using assms(3,5) by simp
  show ?thesis
    using True claims_token_differ[OF repo_reachable_inv[OF assms(1)] assms(2) c' assms(6,4)]
    by (simp add: sha256_collision_def leaseToken_def)
next
  case False
  have inv': "repo_inv r'"
    unfolding assms(3) by (rule run_ops_inv[OF Claim_inv[OF repo_reachable_inv[OF assms(1)]]])
  obtain j where j: "c' = claim_job w' now' ttl' j" "gget (mrJobs r'') (jID c) = Some c'"
    using Claim_picks[OF inv', of ctx' w' now' ttl' c'] assms(5,6) by auto
  have "lToken (the (jLease c')) = leaseToken c' w' now'" unfolding j(1) by simp
  then have le: "\<exists>err. leased (jID c) (leaseToken c w now) t r'' = Inl err" for t
    using j(2) False by (auto simp: leased_def split: option.splits)
  show ?thesis
  proof (intro disjI1 allI)
    fix ctx out t ttl msg policy
    obtain e where "leased (jID c) (leaseToken c w now) t r'' = Inl e" using le by blast
    note no = lease_refused[OF this]
    show "(\<exists>err. Succeed ctx (jID c) (leaseToken c w now) out t r'' = (r'', Inl err))
      \<and> (\<exists>err. Fail ctx (jID c) (leaseToken c w now) msg out policy t r'' = (r'', Inl err))
      \<and> (\<exists>err. RenewLease ctx (jID c) (leaseToken c w now) t ttl r'' = (r'', Inl err))"
      by (intro conjI no)
  qed
qed

definition w_claimed2 :: Job where
  "w_claimed2 = claim_job ''worker-2'' 200 100 w_claimed"

definition w_repo3 :: MemoryRepository where
  "w_repo3 = w_repo\<lparr>mrJobs := [(''job-1'', w_claimed2)]\<rparr>"

lemma w_reclaim: "Claim None ''worker-2'' 200 100 (run_ops [] (fst (Claim None ''worker-1'' 20 100 w_repo)))
    = (w_repo3, Inr (Some w_claimed2))"
  by (simp add: w_claim) (simp add: Claim_def claim_ids_def cancel_expired_def eligible_def w_claimed_lease
      w_claimed2_def w_repo3_def Let_def, simp add: w_claimed_def)

theorem stale_token_fenced_witness:
  "repo_reachable w_repo \<and> snd (Claim None ''worker-1'' 20 100 w_repo) = Inr (Some w_claimed)
   \<and> ((\<exists>err. Succeed None ''job-1'' (leaseToken w_claimed ''worker-1'' 20) empty_output 210 w_repo3 = (w_repo3, Inl err))
      \<or> sha256_collision (lease_token_text w_claimed ''worker-1'' 20) (lease_token_text w_claimed2 ''worker-2'' 200))"
proof -
  have "jID w_claimed2 = jID w_claimed" by (simp add: w_claimed2_def)
  from stale_token_fenced[OF w_repo_reachable w_after_claim refl _ w_reclaim this]
  show ?thesis using w_repo_reachable w_after_claim by auto
qed

text \<open>
  A cancellation is never overtaken: after an accepted cancellation of a job that is not
  terminal, whatever happens next, the job is \<^verbatim>\<open>cancel_requested\<close> or \<^verbatim>\<open>cancelled\<close>; it is never claimed
  again, never succeeds, never fails and never uses another attempt.
\<close>

lemma cancellation_holds:
  assumes "repo_reachable r" "gget (mrJobs r) i = Some j" "\<not> Terminal (jStatus j)" "now \<noteq> 0"
  shows "\<exists>j'. gget (mrJobs (run_ops ops (fst (RequestCancel None i now r)))) i = Some j'
    \<and> (jStatus j' = StatusCancelRequested \<or> jStatus j' = StatusCancelled) \<and> jAttempt j' = jAttempt j"
proof -
  let ?r = "fst (RequestCancel None i now r)"
  have inv: "repo_inv ?r"
    using apply_op_inv[OF repo_reachable_inv[OF assms(1)], of None "OpCancel i now"] by (simp add: apply_op_def)
  have "stopping i (jAttempt j) ?r"
    using assms(2-4) by (simp add: stopping_def RequestCancel_def store_job_def cancel_job_def Let_def)
  from stopping_job.frozen_steps[OF run_ops_steps[of _ ops] inv this] show ?thesis
    unfolding stopping_def by (auto split: option.splits)
qed

text \<open>
  C31: A second cancellation takes the lease away: cancelling a job whose cancellation is already
  pending marks it \<^verbatim>\<open>cancelled\<close> at once, so the worker still executing it under a lease that has not
  expired is refused from then on.
\<close>

theorem second_cancel_revokes_lease:
  assumes "gget (mrJobs r) i = Some j" "jStatus j = StatusRunning" "now \<noteq> 0" "now' \<noteq> 0"
    and "r' = fst (RequestCancel None i now' (fst (RequestCancel None i now r)))"
  shows "cancelled i r' \<and> (\<forall>token t. leased i token t r' = Inl ErrLeaseLost)"
  using assms by (simp add: RequestCancel_def store_job_def cancel_job_def cancelled_def leased_def Terminal_def Let_def)

theorem second_cancel_revokes_lease_witness:
  "gget (mrJobs w_repo2) ''job-1'' = Some w_claimed \<and> jStatus w_claimed = StatusRunning
   \<and> leased ''job-1'' (leaseToken w_claimed ''worker-1'' 20) 50 w_repo2 = Inr w_claimed
   \<and> leased ''job-1'' (leaseToken w_claimed ''worker-1'' 20) 50
       (fst (RequestCancel None ''job-1'' 40 (fst (RequestCancel None ''job-1'' 30 w_repo2)))) = Inl ErrLeaseLost"
  using second_cancel_revokes_lease[of w_repo2 "''job-1''" w_claimed 30 40, OF _ _ _ _ refl]
  by (simp add: w_repo2_jobs w_claimed_lease leased_def)

text \<open>
  \<^verbatim>\<open>RequestCancelIfVersion\<close> is compare-and-swap: at the reviewed version it does exactly what
  \<^verbatim>\<open>RequestCancel\<close> does, at any other it answers \<^verbatim>\<open>ErrVersionConflict\<close> and changes nothing, and after it
  has changed a job a second request with the same expected version is refused.
\<close>

lemma RequestCancelIfVersion_cas:
  assumes "gget (mrJobs r) i = Some j" "v \<noteq> 0" "now \<noteq> 0"
  shows "RequestCancelIfVersion None i v now r
      = (if jVersion j = v then RequestCancel None i now r else (r, Inl ErrVersionConflict))
    \<and> (\<not> Terminal (jStatus j) \<and> jVersion j = v \<and> t \<noteq> 0 \<longrightarrow>
        (let r' = fst (RequestCancelIfVersion None i v now r) in
         RequestCancelIfVersion ctx i v t r' = (r', Inl (case ctx of None \<Rightarrow> ErrVersionConflict | Some e \<Rightarrow> CtxErr e))))"
  using assms
  by (auto simp: RequestCancelIfVersion_def RequestCancel_def store_job_def Let_def split: option.splits)

subsection \<open>Creation, listing, backoff\<close>

text \<open>
  C21: Creation is idempotent for ever. After a \<^verbatim>\<open>Create\<close> that returned job \<open>j\<close>, and any operations
  after it, a valid request under the same idempotency key changes nothing. If it repeats the
  change, action, input and attempt limit, it returns the job as it is by then, with \<^verbatim>\<open>created\<close> false
  and the identity of \<open>j\<close>; otherwise it is refused as a conflict, unless the two requests are a
  collision of SHA-256.
\<close>

theorem Create_idempotent:
  assumes "repo_reachable r" "snd (Create ctx q r) = Inr (j, fresh)"
    and "request_ok q'" "crIdempotencyKey q' = crIdempotencyKey q"
    and "r' = run_ops ops (fst (Create ctx q r))"
  shows "\<exists>j'. gget (mrJobs r') (jID j) = Some j' \<and> job_identity j' = job_identity j
    \<and> (fingerprint_text q' = fingerprint_text q \<and> crMaxAttempts q' = crMaxAttempts q
        \<longrightarrow> Create None q' r' = (r', Inr (j', False)))
    \<and> (fingerprint_text q' \<noteq> fingerprint_text q \<or> crMaxAttempts q' \<noteq> crMaxAttempts q
        \<longrightarrow> Create None q' r' = (r', Inl ErrIdempotencyConflict)
            \<or> sha256_collision (fingerprint_text q') (fingerprint_text q))"
proof -
  note inv = repo_reachable_inv[OF assms(1)]
  have inv1: "repo_inv (fst (Create ctx q r))" and inv': "repo_inv r'"
    using Create_inv[OF inv] run_ops_inv assms(5) by auto
  have j: "gget (mrJobs (fst (Create ctx q r))) (jID j) = Some j" "jIdempotencyKey j = crIdempotencyKey q"
      "fingerprint (job_request j) = fingerprint q" "jMaxAttempts j = crMaxAttempts q"
    using Create_Inr_job[OF inv assms(2)] by auto
  obtain j' where j': "gget (mrJobs r') (jID j) = Some j'" "job_identity j' = job_identity j"
    using run_ops_identity[OF inv1 j(1)] assms(5) by blast
  have "Create None q' r' = (r', if fingerprint q' = fingerprint q \<and> crMaxAttempts q' = crMaxAttempts q
      then Inr (j', False) else Inl ErrIdempotencyConflict)"
    using Create_known[OF inv' j'(1) assms(3)] job_identity_request[OF j'(2)] j assms(4) by simp
  then show ?thesis using j' by (auto simp: fingerprint_alt sha256_collision_def)
qed

theorem Create_idempotent_witness:
  "repo_reachable NewMemoryRepository
   \<and> (\<exists>j'. Create None w_request w_repo2 = (w_repo2, Inr (j', False)) \<and> jID j' = ''job-1'')"
proof -
  have r0: "repo_reachable NewMemoryRepository"
    unfolding repo_reachable_def using run_ops.simps(1)[symmetric] by blast
  have c: "snd (Create None w_request NewMemoryRepository) = Inr (new_job w_request, True)"
    by (simp add: w_create)
  have r: "w_repo2 = run_ops [(None, OpClaim ''worker-1'' 20 100)] (fst (Create None w_request NewMemoryRepository))"
    by (simp add: w_repo2_def w_create)
  from Create_idempotent[OF r0 c w_request_ok refl r] show ?thesis
    using r0 by (auto simp: job_identity_def)
qed

text \<open>
  \<^verbatim>\<open>List\<close> returns exactly the stored jobs that match the filter, oldest first, and the answer
  does not depend on the order in which the map is iterated.
\<close>

lemma List_exact:
  assumes "repo_reachable r"
  shows "\<exists>js. List None f r = Inr js \<and> sorted (map job_order js)
    \<and> (\<forall>j. j \<in> set js \<longleftrightarrow> gget (mrJobs r) (jID j) = Some j \<and> filter_match f j)
    \<and> (\<forall>jobs. gmap_ok jobs \<and> (\<forall>i. gget jobs i = gget (mrJobs r) i) \<longrightarrow> List None f (r\<lparr>mrJobs := jobs\<rparr>) = Inr js)"
proof -
  note inv = repo_reachable_inv[OF assms]
  let ?pick = "\<lambda>m. filter (filter_match f) (map snd m)"
  have clone_list: "map clone js = js" for js by (induction js) auto
  have val: "List None f r = Inr (sort_key job_order (?pick (mrJobs r)))"
    and val': "List None f (r\<lparr>mrJobs := jobs\<rparr>) = Inr (sort_key job_order (?pick jobs))" for jobs
    by (simp_all add: List_def clone_list)
  have ids: "gget (mrJobs r) (jID j) = Some j" if mem: "j \<in> snd ` set (mrJobs r)" for j
  proof -
    obtain i where "(i, j) \<in> set (mrJobs r)" using mem by auto
    then have "gget (mrJobs r) i = Some j" by (simp add: gmap_ok_gget_iff[OF repo_invD(1)[OF inv]])
    then show ?thesis using repo_invD(3)[OF inv] by simp
  qed
  have mem: "j \<in> set (?pick (mrJobs r)) \<longleftrightarrow> gget (mrJobs r) (jID j) = Some j \<and> filter_match f j" for j
  proof -
    have "gget (mrJobs r) (jID j) = Some j \<Longrightarrow> j \<in> snd ` set (mrJobs r)"
      using image_eqI[of j snd "(jID j, j)" "set (mrJobs r)"] map_of_SomeD by force
    then show ?thesis using ids[of j] by (simp only: set_filter set_map mem_Collect_eq) blast
  qed
  have inj: "inj_on job_order (set (?pick (mrJobs r)))"
  proof (rule inj_onI)
    fix x y assume x: "x \<in> set (?pick (mrJobs r))" and y: "y \<in> set (?pick (mrJobs r))"
      and eq: "job_order x = job_order y"
    have "Some x = gget (mrJobs r) (jID x)" using iffD1[OF mem x] by simp
    also have "jID x = jID y" using eq by (simp add: job_order_def)
    also have "gget (mrJobs r) (jID y) = Some y" using iffD1[OF mem y] by simp
    finally show "x = y" by simp
  qed
  have "sort_key job_order (?pick jobs) = sort_key job_order (?pick (mrJobs r))"
    if "gmap_ok jobs" "\<forall>i. gget jobs i = gget (mrJobs r) i" for jobs
  proof (rule sort_key_order_independent[symmetric, OF _ inj])
    show "mset (?pick (mrJobs r)) = mset (?pick jobs)"
      using gmap_same_contents[OF that(1) repo_invD(1)[OF inv]] that(2) by simp
  qed
  then show ?thesis
    by (intro exI[of _ "sort_key job_order (?pick (mrJobs r))"] conjI allI impI)
      (simp_all only: val val' set_sort mem sorted_sort_key simp_thms)
qed

text \<open>
  The retry delay is the base delay (one second if none is set) doubled for every attempt after
  the first and capped at the policy's maximum, or at the largest duration if none is set; within
  the int64 range of the policy it never overflows.
\<close>

lemma RetryDelay_exact:
  assumes "rpBaseDelay policy < 2 ^ 63" "rpMaxDelay policy < 2 ^ 63"
  shows "RetryDelay attempt policy
    = min (if rpMaxDelay policy > 0 then rpMaxDelay policy else maxRetryDelay)
          ((if rpBaseDelay policy \<le> 0 then second else rpBaseDelay policy) * 2 ^ nat (attempt - 1))"
proof -
  let ?base = "if rpBaseDelay policy \<le> 0 then second else rpBaseDelay policy"
  have base: "0 < ?base" "?base < 2 ^ 63" using assms(1) by (auto simp: second_def)
  show ?thesis
    unfolding RetryDelay_def Let_def retry_loop_exact[OF base assms(2)]
    using le_mult_power2[OF base(1), of "nat (attempt - 1)"] by (simp add: min_def)
qed

end
