(* ===== verification/Job_Timeline.thy ===== *)
theory Job_Timeline
  imports Job_Correctness
begin

text \<open>
  \<^verbatim>\<open>timeline.go\<close>, \<^verbatim>\<open>timeline_memory.go\<close> and \<^verbatim>\<open>timeline_transition.go\<close> of
  \<^verbatim>\<open>internal/orchestration/job\<close>: bounded evidence of the life of a job. The theory shows which
  evidence every move of the job repository gives, and that the stored timeline only grows.
  Error values carry the fixed part of the message, without the quoted statuses.
  \<^verbatim>\<open>TimelineEvent\<close> is a string type; \<open>TimelineOther\<close> stands for any other string.
\<close>

datatype TimelineEvent =
    TimelineObserved | TimelineCreated | TimelineAttemptStarted | TimelineRetryScheduled
  | TimelineCancelRequested | TimelineCancelled | TimelineSucceeded | TimelineFailed
  | TimelineOther string

record TimelineEntry =
  teJobID :: string
  teEvent :: TimelineEvent
  teStatus :: Status
  teAttempt :: int
  teJobVersion :: uint64
  teOccurredAt :: "time"

datatype timeline_error =
    TimelineCtxErr ctx_error
  | ErrInvalidTimelineEntry string
  | ErrTimelineConflict

definition validTimelineStatus :: "Status \<Rightarrow> bool" where
  "validTimelineStatus status = (case status of
      StatusQueued \<Rightarrow> True | StatusRunning \<Rightarrow> True | StatusRetryWait \<Rightarrow> True | StatusCancelRequested \<Rightarrow> True
    | StatusCancelled \<Rightarrow> True | StatusSucceeded \<Rightarrow> True | StatusFailed \<Rightarrow> True | StatusOther _ \<Rightarrow> False)"

definition timelineEventMatchesStatus :: "TimelineEvent \<Rightarrow> Status \<Rightarrow> bool" where
  "timelineEventMatchesStatus event status = (case event of
      TimelineObserved \<Rightarrow> validTimelineStatus status
    | TimelineCreated \<Rightarrow> status = StatusQueued
    | TimelineAttemptStarted \<Rightarrow> status = StatusRunning
    | TimelineRetryScheduled \<Rightarrow> status = StatusRetryWait
    | TimelineCancelRequested \<Rightarrow> status = StatusCancelRequested
    | TimelineCancelled \<Rightarrow> status = StatusCancelled
    | TimelineSucceeded \<Rightarrow> status = StatusSucceeded
    | TimelineFailed \<Rightarrow> status = StatusFailed
    | TimelineOther _ \<Rightarrow> False)"

definition ValidateTimelineEntry :: "TimelineEntry \<Rightarrow> timeline_error + unit" where
  "ValidateTimelineEntry entry =
     (if TrimSpace (teJobID entry) = [] \<or> teJobID entry \<noteq> TrimSpace (teJobID entry)
        then Inl (ErrInvalidTimelineEntry ''canonical job id is required'')
      else if teJobVersion entry = 0 \<or> IsZero (teOccurredAt entry) \<or> teAttempt entry < 0
        then Inl (ErrInvalidTimelineEntry ''job version, timestamp and non-negative attempt are required'')
      else if \<not> validTimelineStatus (teStatus entry)
        then Inl (ErrInvalidTimelineEntry ''unsupported status'')
      else if \<not> timelineEventMatchesStatus (teEvent entry) (teStatus entry)
        then Inl (ErrInvalidTimelineEntry ''event is incompatible with status'')
      else if (teEvent entry = TimelineCreated \<or> teEvent entry = TimelineObserved)
              \<and> teAttempt entry \<noteq> 0 \<and> teStatus entry = StatusQueued
        then Inl (ErrInvalidTimelineEntry ''queued creation evidence cannot have an attempt'')
      else Inr ())"

subsection \<open>Evidence of a transition\<close>

definition timelineEntry :: "Job \<Rightarrow> TimelineEvent \<Rightarrow> TimelineEntry" where
  "timelineEntry source event =
     \<lparr>teJobID = jID source, teEvent = event, teStatus = jStatus source, teAttempt = jAttempt source,
      teJobVersion = jVersion source, teOccurredAt = time_UTC (jUpdatedAt source)\<rparr>"

definition validated_entry :: "TimelineEntry \<Rightarrow> timeline_error + TimelineEntry option" where
  "validated_entry entry = (case ValidateTimelineEntry entry of Inl e \<Rightarrow> Inl e | Inr _ \<Rightarrow> Inr (Some entry))"

text \<open>
  The \<^verbatim>\<open>switch after.Status\<close> of the source: \<open>Inr None\<close> is a state-neutral change, \<open>Inr (Some event)\<close> the
  event of the evidence. The case \<^verbatim>\<open>before.Status\<close> comes after the six named statuses, so it can
  match only a queued job.
\<close>

definition transition_event :: "Job \<Rightarrow> Job \<Rightarrow> timeline_error + TimelineEvent option" where
  "transition_event before after =
     (case jStatus after of
        StatusRunning \<Rightarrow>
          if jAttempt after \<noteq> jAttempt before + 1 then
            if jStatus before = StatusRunning \<and> jAttempt after = jAttempt before then Inr None
            else Inl (ErrInvalidTimelineEntry ''running transition must start exactly one attempt'')
          else if jStatus before = StatusQueued \<or> jStatus before = StatusRetryWait \<or> jStatus before = StatusRunning
            then Inr (Some TimelineAttemptStarted)
          else Inl (ErrInvalidTimelineEntry ''cannot start attempt'')
      | StatusRetryWait \<Rightarrow>
          if jStatus before \<noteq> StatusRunning \<or> jAttempt after \<noteq> jAttempt before
            then Inl (ErrInvalidTimelineEntry ''retry scheduling requires a running attempt'')
          else Inr (Some TimelineRetryScheduled)
      | StatusCancelRequested \<Rightarrow>
          if jStatus before \<noteq> StatusRunning \<or> jAttempt after \<noteq> jAttempt before
            then Inl (ErrInvalidTimelineEntry ''cancel request requires a running attempt'')
          else Inr (Some TimelineCancelRequested)
      | StatusCancelled \<Rightarrow>
          if jStatus before = StatusQueued \<or> jStatus before = StatusRetryWait \<or> jStatus before = StatusRunning
             \<or> jStatus before = StatusCancelRequested
            then Inr (Some TimelineCancelled)
          else Inl (ErrInvalidTimelineEntry ''cannot cancel'')
      | StatusSucceeded \<Rightarrow>
          if jStatus before \<noteq> StatusRunning \<or> jAttempt after \<noteq> jAttempt before
            then Inl (ErrInvalidTimelineEntry ''success requires the current running attempt'')
          else Inr (Some TimelineSucceeded)
      | StatusFailed \<Rightarrow>
          if jStatus before = StatusQueued \<or> jStatus before = StatusRetryWait \<or> jStatus before = StatusRunning
            then Inr (Some TimelineFailed)
          else Inl (ErrInvalidTimelineEntry ''cannot fail'')
      | s \<Rightarrow>
          if s = jStatus before then
            if jAttempt after \<noteq> jAttempt before
              then Inl (ErrInvalidTimelineEntry ''state-neutral transition changed attempt'')
            else Inr None
          else Inl (ErrInvalidTimelineEntry ''unsupported transition''))"

definition TimelineEntryFromTransition :: "Job option \<Rightarrow> Job \<Rightarrow> timeline_error + TimelineEntry option" where
  "TimelineEntryFromTransition before after =
     (if TrimSpace (jID after) = [] \<or> jID after \<noteq> TrimSpace (jID after)
        then Inl (ErrInvalidTimelineEntry ''canonical job id is required'')
      else if \<not> validTimelineStatus (jStatus after) \<or> jVersion after = 0 \<or> IsZero (jUpdatedAt after)
              \<or> jAttempt after < 0 \<or> jMaxAttempts after < 1 \<or> jAttempt after > jMaxAttempts after
        then Inl (ErrInvalidTimelineEntry ''incomplete Job state'')
      else case before of
        None \<Rightarrow>
          if jStatus after \<noteq> StatusQueued \<or> jAttempt after \<noteq> 0 \<or> jVersion after \<noteq> 1
            then Inl (ErrInvalidTimelineEntry ''first lifecycle evidence must be queued version 1'')
          else validated_entry (timelineEntry after TimelineCreated)
      | Some b \<Rightarrow>
          if jID b \<noteq> jID after \<or> jVersion b \<ge> jVersion after \<or> IsZero (jUpdatedAt b)
             \<or> jUpdatedAt after < jUpdatedAt b
            then Inl (ErrInvalidTimelineEntry ''transition identity, version or timestamp is inconsistent'')
          else if jAttempt after < jAttempt b \<or> jAttempt after > jAttempt b + 1
            then Inl (ErrInvalidTimelineEntry ''attempt progression is inconsistent'')
          else case transition_event b after of
            Inl e \<Rightarrow> Inl e
          | Inr None \<Rightarrow> Inr None
          | Inr (Some event) \<Rightarrow> validated_entry (timelineEntry after event))"

subsection \<open>The timeline repository\<close>

type_synonym MemoryTimelineRepository = "(string \<times> (uint64 \<times> TimelineEntry) list) list"

definition NewMemoryTimelineRepository :: MemoryTimelineRepository where
  "NewMemoryTimelineRepository = []"

text \<open>
  \<^verbatim>\<open>Append\<close> first makes sure that the job has a version map, also when it then reports a conflict.
\<close>

definition Append :: "ctx \<Rightarrow> TimelineEntry \<Rightarrow> MemoryTimelineRepository \<Rightarrow> MemoryTimelineRepository \<times> (timeline_error + bool)" where
  "Append ctx entry0 r =
     (case ctx of Some e \<Rightarrow> (r, Inl (TimelineCtxErr e))
      | None \<Rightarrow> (case ValidateTimelineEntry entry0 of
          Inl e \<Rightarrow> (r, Inl e)
        | Inr _ \<Rightarrow>
            let entry = entry0\<lparr>teOccurredAt := time_UTC (teOccurredAt entry0)\<rparr>;
                r1 = (case gget r (teJobID entry) of None \<Rightarrow> gput (teJobID entry) [] r | Some _ \<Rightarrow> r);
                versions = (case gget r (teJobID entry) of None \<Rightarrow> [] | Some vs \<Rightarrow> vs)
            in case gget versions (teJobVersion entry) of
                 Some existing \<Rightarrow> if existing = entry then (r1, Inr False) else (r1, Inl ErrTimelineConflict)
               | None \<Rightarrow> (gput (teJobID entry) (gput (teJobVersion entry) entry versions) r1, Inr True)))"

definition timeline_order :: "TimelineEntry \<Rightarrow> uint64 \<times> time" where
  "timeline_order e = (teJobVersion e, teOccurredAt e)"

definition Timeline_List :: "ctx \<Rightarrow> string \<Rightarrow> MemoryTimelineRepository \<Rightarrow> timeline_error + TimelineEntry list" where
  "Timeline_List ctx jobID r =
     (case ctx of Some e \<Rightarrow> Inl (TimelineCtxErr e)
      | None \<Rightarrow>
          if jobID = [] then Inl (ErrInvalidTimelineEntry [])
          else Inr (sort_key timeline_order
                 (map snd (case gget r jobID of None \<Rightarrow> [] | Some versions \<Rightarrow> versions))))"

subsection \<open>Which evidence the repository gives\<close>

definition status_event :: "Status \<Rightarrow> TimelineEvent" where
  "status_event s = (case s of StatusQueued \<Rightarrow> TimelineCreated | StatusRunning \<Rightarrow> TimelineAttemptStarted
     | StatusRetryWait \<Rightarrow> TimelineRetryScheduled | StatusCancelRequested \<Rightarrow> TimelineCancelRequested
     | StatusCancelled \<Rightarrow> TimelineCancelled | StatusSucceeded \<Rightarrow> TimelineSucceeded
     | StatusFailed \<Rightarrow> TimelineFailed | StatusOther _ \<Rightarrow> TimelineObserved)"

lemma job_ok_valid_status: "job_ok j \<Longrightarrow> validTimelineStatus (jStatus j)"
  by (auto simp: job_ok_def validTimelineStatus_def split: Status.splits)

lemma validated_status_event:
  assumes "job_ok j" "canonical (jID j)" "jVersion j \<noteq> 0"
  shows "validated_entry (timelineEntry j (status_event (jStatus j)))
       = Inr (Some (timelineEntry j (status_event (jStatus j))))"
  using assms
  by (auto simp: validated_entry_def ValidateTimelineEntry_def timelineEntry_def status_event_def
      timelineEventMatchesStatus_def validTimelineStatus_def job_ok_def canonical_trim canonical_not_blank
      split: Status.splits)

text \<open>The event of every move, by the rules of \<open>job_move\<close>.\<close>

lemma job_move_event:
  assumes "job_move j j'" "job_ok j"
  shows "transition_event j j' =
    (if jStatus j' = jStatus j \<and> jAttempt j' = jAttempt j
     then if jStatus j = StatusRunning then Inr None
          else Inl (ErrInvalidTimelineEntry ''cancel request requires a running attempt'')
     else Inr (Some (status_event (jStatus j'))))
   \<and> jAttempt j \<le> jAttempt j' \<and> jAttempt j' \<le> jAttempt j + 1 \<and> jID j' = jID j"
  using assms
  by (induction rule: job_move.induct)
    (auto simp: transition_event_def status_event_def move_defs job_ok_def eligible_def cancel_expired_def
      Terminal_def split: Status.splits)

lemma move_evidence:
  assumes mv: "job_move j j'" and ok: "job_ok j" and "canonical (jID j)" "jVersion j \<noteq> - 1"
    and mono: "jUpdatedAt j \<le> jUpdatedAt j'"
  shows "TimelineEntryFromTransition (Some j) j' =
    (if jStatus j' = jStatus j \<and> jAttempt j' = jAttempt j
     then if jStatus j = StatusRunning then Inr None
          else Inl (ErrInvalidTimelineEntry ''cancel request requires a running attempt'')
     else Inr (Some (timelineEntry j' (status_event (jStatus j')))))"
proof -
  have ok': "job_ok j'" using job_move_ok[OF mv ok] .
  have v: "jVersion j' = jVersion j + 1" using job_move_version[OF mv] .
  have v0: "jVersion j' \<noteq> 0" unfolding v using assms(4) by (metis add_eq_0_iff2)
  have lt: "\<not> jVersion j \<ge> jVersion j'" unfolding v using uint64_less_Suc[OF assms(4)] by simp
  have ids: "canonical (jID j')" "jID j' = jID j" using job_move_event[OF mv ok] assms(3) by simp_all
  have att: "\<not> jAttempt j' < jAttempt j" "\<not> jAttempt j' > jAttempt j + 1"
    using job_move_event[OF mv ok] by auto
  have bounds: "0 \<le> jAttempt j'" "jAttempt j' \<le> jMaxAttempts j'" "1 \<le> jMaxAttempts j'" "jUpdatedAt j' \<noteq> 0"
    "jUpdatedAt j \<noteq> 0"
    using ok ok' by (simp_all add: job_ok_def)
  show ?thesis
    unfolding TimelineEntryFromTransition_def
    using canonical_trim[OF ids(1)] canonical_not_blank[OF ids(1)] v0 lt att bounds mono
      job_ok_valid_status[OF ok'] validated_status_event[OF ok' ids(1) v0] job_move_event[OF mv ok]
    by (auto simp: ids(2))
qed



subsection \<open>The stored timeline only grows\<close>

definition timeline_lookup :: "MemoryTimelineRepository \<Rightarrow> string \<Rightarrow> uint64 \<Rightarrow> TimelineEntry option" where
  "timeline_lookup r i v = (case gget r i of None \<Rightarrow> None | Some vs \<Rightarrow> gget vs v)"

definition timeline_ok :: "MemoryTimelineRepository \<Rightarrow> bool" where
  "timeline_ok r \<longleftrightarrow> gmap_ok r
     \<and> (\<forall>i vs. gget r i = Some vs \<longrightarrow> gmap_ok vs
          \<and> (\<forall>v e. gget vs v = Some e \<longrightarrow> teJobVersion e = v \<and> ValidateTimelineEntry e = Inr ()))"

inductive timeline_step :: "MemoryTimelineRepository \<Rightarrow> MemoryTimelineRepository \<Rightarrow> bool" where
  "timeline_step r (fst (Append ctx entry r))"

lemma Append_effect:
  "timeline_lookup (fst (Append ctx e r)) i v =
     (if ctx = None \<and> ValidateTimelineEntry e = Inr () \<and> i = teJobID e \<and> v = teJobVersion e
         \<and> timeline_lookup r i v = None
      then Some e else timeline_lookup r i v)"
  by (auto simp: Append_def timeline_lookup_def Let_def split: option.splits sum.splits)

lemma Append_result:
  assumes "ValidateTimelineEntry e = Inr ()"
  shows "snd (Append None e r) = (case timeline_lookup r (teJobID e) (teJobVersion e) of
     None \<Rightarrow> Inr True | Some e' \<Rightarrow> if e' = e then Inr False else Inl ErrTimelineConflict)"
  using assms by (auto simp: Append_def timeline_lookup_def Let_def split: option.splits)

lemma Append_ok: "timeline_ok r \<Longrightarrow> timeline_ok (fst (Append ctx e r))"
  unfolding timeline_ok_def Append_def
  by (auto simp: Let_def split: option.splits sum.splits if_splits)

interpretation timeline_sys: step_system "\<lambda>r. r = NewMemoryTimelineRepository" timeline_step timeline_ok
  by unfold_locales
    (auto simp: NewMemoryTimelineRepository_def timeline_ok_def[of "[]"] elim!: timeline_step.cases intro: Append_ok)

interpretation timeline_fact: frozen_system "\<lambda>r. r = NewMemoryTimelineRepository" timeline_step timeline_ok
    "\<lambda>r. timeline_lookup r i v = Some e" for i v e
  by unfold_locales (auto elim!: timeline_step.cases simp: Append_effect)

lemma Timeline_List_entries:
  assumes "timeline_ok r" "i \<noteq> []"
  shows "\<exists>es. Timeline_List None i r = Inr es \<and> sorted_wrt (<) (map teJobVersion es)
     \<and> (\<forall>e. e \<in> set es \<longleftrightarrow> timeline_lookup r i (teJobVersion e) = Some e)"
proof -
  obtain vs where vs: "(case gget r i of None \<Rightarrow> [] | Some versions \<Rightarrow> versions) = vs" by blast
  have ok: "gmap_ok vs" "gget vs v = Some e \<Longrightarrow> teJobVersion e = v"
    and look: "timeline_lookup r i v = gget vs v" for v e
    using assms(1) vs by (auto simp: timeline_ok_def timeline_lookup_def split: option.splits)
  have fst_v: "fst x = teJobVersion (snd x)" if "x \<in> set vs" for x
    using ok(2)[of "fst x" "snd x"] that gmap_ok_gget_iff[OF ok(1), of "fst x" "snd x"] by simp
  let ?es = "sort_key timeline_order (map snd vs)"
  have keys: "map teJobVersion (map snd vs) = map fst vs" using fst_v by simp
  have "mset (map teJobVersion ?es) = mset (map fst vs)" unfolding keys[symmetric] mset_map by simp
  then have "distinct (map teJobVersion ?es)"
    using ok(1) unfolding gmap_ok_def by (metis mset_eq_imp_distinct_iff)
  moreover have "sorted (map teJobVersion ?es)"
    using sorted_sort_key[of timeline_order "map snd vs"] unfolding sorted_map
    by (rule sorted_wrt_mono_rel[rotated]) (auto simp: timeline_order_def less_eq_prod_def)
  ultimately have "sorted_wrt (<) (map teJobVersion ?es)" by (simp add: strict_sorted_iff)
  moreover have "e \<in> set ?es \<longleftrightarrow> gget vs (teJobVersion e) = Some e" for e
  proof -
    have "e \<in> set ?es \<longleftrightarrow> (\<exists>x \<in> set vs. snd x = e)" by auto
    also have "\<dots> \<longleftrightarrow> (teJobVersion e, e) \<in> set vs" using fst_v by (metis prod.collapse snd_conv)
    finally show ?thesis unfolding gmap_ok_gget_iff[OF ok(1)] .
  qed
  moreover have "Timeline_List None i r = Inr ?es" using vs assms(2) by (simp add: Timeline_List_def)
  ultimately show ?thesis unfolding look by blast
qed

text \<open>
  The timeline is append-only evidence. Once an entry is recorded for a version of a job, it is
  in every later state of the repository; recording it again changes no entry and reports that
  nothing was created, recording anything else for that version is a conflict; and \<^verbatim>\<open>List\<close> returns
  exactly the recorded entries, in strictly increasing version order.
\<close>

lemma timeline_append_only:
  assumes "timeline_step\<^sup>*\<^sup>* NewMemoryTimelineRepository r" "timeline_lookup r i v = Some e" "i \<noteq> []"
    and "timeline_step\<^sup>*\<^sup>* r r'"
  shows "timeline_lookup r' i v = Some e
    \<and> (ValidateTimelineEntry e' = Inr () \<and> teJobID e' = i \<and> teJobVersion e' = v \<longrightarrow>
        snd (Append None e' r') = (if e' = e then Inr False else Inl ErrTimelineConflict))
    \<and> (\<exists>es. Timeline_List None i r' = Inr es \<and> sorted_wrt (<) (map teJobVersion es)
        \<and> (\<forall>e. e \<in> set es \<longleftrightarrow> timeline_lookup r' i (teJobVersion e) = Some e))"
proof -
  have r: "timeline_ok r" using timeline_sys.reach_inv[OF refl assms(1)] .
  have r': "timeline_ok r'" using timeline_sys.steps_inv[OF assms(4) r] .
  have e: "timeline_lookup r' i v = Some e"
    using timeline_fact.frozen_steps[OF assms(4) r assms(2)] .
  show ?thesis
    by (intro conjI impI e Timeline_List_entries[OF r' assms(3)]) (use e in \<open>auto simp: Append_result\<close>)
qed

end
