(* ===== verification/Go_Json_Encode.thy ===== *)
theory Go_Json_Encode
  imports Go_Strings
begin

text \<open>
  \<^verbatim>\<open>encoding/json\<close> as the program uses it to write: \<^verbatim>\<open>json.Marshal\<close> of structs, which lists the fields in
  declaration order, escapes strings with HTML escaping on and renders times in RFC 3339 with
  nanoseconds. A struct is a \<open>JObject\<close>; a field with \<^verbatim>\<open>omitempty\<close> is left out of the list when empty.
\<close>

datatype json = JString string | JInt int | JBool bool | JNull | JArray "json list" | JObject "(string \<times> json) list"

definition backslash :: string where
  "backslash = [CHR 0x5C]"

definition hex2 :: "nat \<Rightarrow> string" where
  "hex2 b = [hex_char (b div 16), hex_char (b mod 16)]"

definition json_escape_ascii :: "char \<Rightarrow> string" where
  "json_escape_ascii c =
     (let b = of_char c :: nat in
      if c = CHR 0x22 \<or> c = CHR 0x5C then backslash @ [c]
      else if b = 8 then backslash @ ''b''
      else if b = 12 then backslash @ ''f''
      else if b = 10 then backslash @ ''n''
      else if b = 13 then backslash @ ''r''
      else if b = 9 then backslash @ ''t''
      else if b < 32 \<or> c = CHR ''<'' \<or> c = CHR ''>'' \<or> c = CHR ''&'' then backslash @ ''u00'' @ hex2 b
      else [c])"

text \<open>The first argument counts the bytes of the current rune that are already written.\<close>

fun json_escape :: "nat \<Rightarrow> string \<Rightarrow> string" where
  "json_escape skip [] = []"
| "json_escape (Suc n) (c # s) = json_escape n s"
| "json_escape 0 (c # s) =
     (if of_char c < (128 :: nat) then json_escape_ascii c @ json_escape 0 s
      else case decode_rune (bytes_of (c # s)) of
        ((r, valid), w) \<Rightarrow>
          (if \<not> valid then backslash @ ''ufffd''
           else if r = 8232 then backslash @ ''u2028''
           else if r = 8233 then backslash @ ''u2029''
           else take w (c # s)) @ json_escape (w - 1) s)"

definition json_string :: "string \<Rightarrow> string" where
  "json_string s = [CHR 0x22] @ json_escape 0 s @ [CHR 0x22]"

fun join :: "string \<Rightarrow> string list \<Rightarrow> string" where
  "join sep [] = []"
| "join sep [x] = x"
| "join sep (x # y # ys) = x @ sep @ join sep (y # ys)"

fun json_Marshal :: "json \<Rightarrow> string" where
  "json_Marshal (JString s) = json_string s"
| "json_Marshal (JInt i) = show_int i"
| "json_Marshal (JBool b) = (if b then ''true'' else ''false'')"
| "json_Marshal JNull = ''null''"
| "json_Marshal (JArray vs) = ''['' @ join '','' (map json_Marshal vs) @ '']''"
| "json_Marshal (JObject fields) =
     ''{'' @ join '','' (map (\<lambda>(k, v). json_string k @ '':'' @ json_Marshal v) fields) @ ''}''"

subsection \<open>Times\<close>

text \<open>
  The proleptic Gregorian date of a day, counted from 1 January of year 1; \<open>z\<close> counts from
  1 March of year 0.
\<close>

definition civil_date :: "int \<Rightarrow> int \<times> int \<times> int" where
  "civil_date days =
     (let z = days + 306;
          era = z div 146097;
          doe = z mod 146097;
          yoe = (doe - doe div 1460 + doe div 36524 - doe div 146096) div 365;
          doy = doe - (365 * yoe + yoe div 4 - yoe div 100);
          mp = (5 * doy + 2) div 153;
          d = doy - (153 * mp + 2) div 5 + 1;
          m = (if mp < 10 then mp + 3 else mp - 9);
          y = yoe + era * 400 + (if m \<le> 2 then 1 else 0)
      in (y, m, d))"

definition pad :: "nat \<Rightarrow> int \<Rightarrow> string" where
  "pad n i = (let s = show_nat (nat i) in replicate (n - length s) (CHR ''0'') @ s)"

definition fraction :: "int \<Rightarrow> string" where
  "fraction ns = (if ns = 0 then []
     else ''.'' @ rev (dropWhile (\<lambda>c. c = CHR ''0'') (rev (pad 9 ns))))"

text \<open>\<^verbatim>\<open>Time.MarshalJSON\<close> of a UTC time: an error when the year is outside 0 to 9999.\<close>

definition time_RFC3339 :: "time \<Rightarrow> string option" where
  "time_RFC3339 t =
     (let secs = t div second; ns = t mod second; days = secs div 86400; s = secs mod 86400
      in case civil_date days of (y, m, d) \<Rightarrow>
           if y < 0 \<or> 9999 < y then None
           else Some (pad 4 y @ ''-'' @ pad 2 m @ ''-'' @ pad 2 d @ ''T'' @ pad 2 (s div 3600) @ '':''
                  @ pad 2 (s div 60 mod 60) @ '':'' @ pad 2 (s mod 60) @ fraction ns @ ''Z''))"

definition time_marshals :: "time \<Rightarrow> bool" where
  "time_marshals t \<longleftrightarrow> time_RFC3339 t \<noteq> None"

lemma small_time: "0 \<le> t \<Longrightarrow> t < second \<Longrightarrow> \<exists>s. time_RFC3339 t = Some s"
proof -
  assume "0 \<le> t" "t < second"
  then have "t div second = 0" by simp
  moreover have "civil_date 0 = (1, 1, 1)" by code_simp
  ultimately show ?thesis by (simp add: time_RFC3339_def)
qed

end
