(* ===== verification/Manual_Retry.thy ===== *)
theory Manual_Retry
  imports Job_Correctness Go_Json_Encode
begin

text \<open>
  \<^verbatim>\<open>manual_retry.go\<close>, \<^verbatim>\<open>manual_retry_memory.go\<close>, \<^verbatim>\<open>manual_retry_lookup_memory.go\<close> and
  \<^verbatim>\<open>manual_retry_history.go\<close> of \<^verbatim>\<open>internal/orchestration/job\<close>: an operator's retry of a failed job as a fresh
  job, with immutable lineage records, and the evidence rebuilt from the chain of those records.
  \<^verbatim>\<open>MemoryManualRetryRepository\<close> holds a pointer to the job repository; here the job repository is a
  field of its state, and both share one mutex, so every method is one step.
\<close>

definition MaxManualRetryIdentifierLength :: nat where
  "MaxManualRetryIdentifierLength = 255"

datatype retry_error =
    RetryJob job_error
  | ErrManualRetrySourceNotFailed
  | ErrManualRetrySourceAlreadyRetried
  | ErrManualRetryAdmissionConflict
  | ErrManualRetryLineageNotFound
  | ErrInvalidManualRetryHistory string
  | RetryMsg string

record ManualRetryRequest =
  mqSourceJobID :: string
  mqExpectedSourceVersion :: uint64
  mqRetryJobID :: string
  mqRetryIdempotencyKey :: string
  mqReviewedAdmissionID :: string
  mqRevalidationAdmissionID :: string
  mqRevisionID :: string
  mqRevisionDigest :: string
  mqPolicyID :: string
  mqPolicyDigest :: string
  mqRetryHistoryDigest :: string
  mqApprovalEvidenceDigest :: string
  mqRequestedAt :: "time"

record ManualRetryLineage =
  mlRootJobID :: string
  mlSourceJobID :: string
  mlSourceJobVersion :: uint64
  mlRetryJobID :: string
  mlRetryIdempotencyKey :: string
  mlReviewedAdmissionID :: string
  mlRevalidationAdmissionID :: string
  mlRevisionID :: string
  mlRevisionDigest :: string
  mlPolicyID :: string
  mlPolicyDigest :: string
  mlRetryHistoryDigest :: string
  mlApprovalEvidenceDigest :: string
  mlRequestedAt :: "time"

definition validateManualRetryIdentifier :: "string \<Rightarrow> string \<Rightarrow> retry_error + unit" where
  "validateManualRetryIdentifier name v =
     (let trimmed = TrimSpace v in
      if trimmed = [] \<or> trimmed \<noteq> v \<or> length v > MaxManualRetryIdentifierLength
      then Inl (RetryMsg (''canonical '' @ name @ '' is required'')) else Inr ())"

text \<open>
  The source ranges over the runes after the prefix. A byte outside ASCII belongs to a rune outside
  ASCII, which the test refuses as it refuses the byte, so the model tests bytes.
\<close>

definition validManualRetryDigest :: "string \<Rightarrow> bool" where
  "validManualRetryDigest v \<longleftrightarrow>
     length v = length ''sha256:'' + 64 \<and> HasPrefix v ''sha256:''
   \<and> list_all (\<lambda>ch. \<not> ((ch < CHR ''0'' \<or> ch > CHR ''9'') \<and> (ch < CHR ''a'' \<or> ch > CHR ''f'')))
       (drop (length ''sha256:'') v)"

definition require_digest :: "string \<Rightarrow> string \<Rightarrow> retry_error + unit" where
  "require_digest name v = require (validManualRetryDigest v) (RetryMsg (''canonical '' @ name @ '' is required''))"

definition ValidateManualRetryRequest :: "ManualRetryRequest \<Rightarrow> retry_error + unit" where
  "ValidateManualRetryRequest request = first_error
     [validateManualRetryIdentifier ''source job id'' (mqSourceJobID request),
      validateManualRetryIdentifier ''retry job id'' (mqRetryJobID request),
      validateManualRetryIdentifier ''retry idempotency key'' (mqRetryIdempotencyKey request),
      validateManualRetryIdentifier ''revision id'' (mqRevisionID request),
      validateManualRetryIdentifier ''policy id'' (mqPolicyID request),
      require (mqExpectedSourceVersion request \<noteq> 0) (RetryMsg ''expected source job version is required''),
      require (mqSourceJobID request \<noteq> mqRetryJobID request) (RetryMsg ''retry job must have a fresh job id''),
      require_digest ''reviewed admission id'' (mqReviewedAdmissionID request),
      require_digest ''revalidation admission id'' (mqRevalidationAdmissionID request),
      require_digest ''revision digest'' (mqRevisionDigest request),
      require_digest ''policy digest'' (mqPolicyDigest request),
      require_digest ''retry history digest'' (mqRetryHistoryDigest request),
      require (\<not> (mqApprovalEvidenceDigest request \<noteq> [] \<and> \<not> validManualRetryDigest (mqApprovalEvidenceDigest request)))
        (RetryMsg ''canonical approval evidence digest is required''),
      require (\<not> IsZero (mqRequestedAt request)) (RetryMsg ''manual retry request time is required'')]"

definition retry_fingerprint_values :: "ManualRetryRequest \<Rightarrow> string list" where
  "retry_fingerprint_values request =
     [mqSourceJobID request, show_uint64 (mqExpectedSourceVersion request), mqRetryJobID request,
      mqRetryIdempotencyKey request, mqReviewedAdmissionID request, mqRevisionID request,
      mqRevisionDigest request, mqPolicyID request, mqPolicyDigest request, mqRetryHistoryDigest request,
      mqApprovalEvidenceDigest request]"

definition nul_terminated :: "string list \<Rightarrow> string" where
  "nul_terminated vs = concat (map (\<lambda>v. v @ [CHR 0x00]) vs)"

definition ManualRetryRequestFingerprint :: "ManualRetryRequest \<Rightarrow> retry_error + string" where
  "ManualRetryRequestFingerprint request =
     (case ValidateManualRetryRequest request of Inl e \<Rightarrow> Inl e
      | Inr _ \<Rightarrow> Inr (sha256_hex (nul_terminated (retry_fingerprint_values request))))"

subsection \<open>The memory repository\<close>

record memoryManualRetryRecord =
  rrFingerprint :: string
  rrLineage :: ManualRetryLineage

record MemoryManualRetryRepository =
  mmJobs :: MemoryRepository
  mmByAdmission :: "(string \<times> memoryManualRetryRecord) list"
  mmByRetryJob :: "(string \<times> ManualRetryLineage) list"
  mmBySource :: "(string \<times> ManualRetryLineage) list"

definition NewMemoryManualRetryRepository :: "MemoryRepository \<Rightarrow> MemoryManualRetryRepository" where
  "NewMemoryManualRetryRepository jobs =
     \<lparr>mmJobs = jobs, mmByAdmission = [], mmByRetryJob = [], mmBySource = []\<rparr>"

definition Retry_Get :: "ctx \<Rightarrow> string \<Rightarrow> MemoryManualRetryRepository \<Rightarrow> job_error + Job" where
  "Retry_Get ctx i r = Get ctx i (mmJobs r)"

definition manualRetrySourceKey :: "string \<Rightarrow> uint64 \<Rightarrow> string" where
  "manualRetrySourceKey jobID version = jobID @ [CHR 0x00] @ show_uint64 version"

definition retry_create_request :: "ManualRetryRequest \<Rightarrow> Job \<Rightarrow> CreateRequest" where
  "retry_create_request request source =
     \<lparr>crID = mqRetryJobID request, crChangeID = jChangeID source, crActionName = jActionName source,
      crInput = [] @ jInput source, crIdempotencyKey = mqRetryIdempotencyKey request,
      crMaxAttempts = jMaxAttempts source, crNow = time_UTC (mqRequestedAt request)\<rparr>"

definition retry_lineage :: "ManualRetryRequest \<Rightarrow> Job \<Rightarrow> string \<Rightarrow> ManualRetryLineage" where
  "retry_lineage request source rootJobID =
     \<lparr>mlRootJobID = rootJobID, mlSourceJobID = jID source, mlSourceJobVersion = jVersion source,
      mlRetryJobID = mqRetryJobID request, mlRetryIdempotencyKey = mqRetryIdempotencyKey request,
      mlReviewedAdmissionID = mqReviewedAdmissionID request,
      mlRevalidationAdmissionID = mqRevalidationAdmissionID request,
      mlRevisionID = mqRevisionID request, mlRevisionDigest = mqRevisionDigest request,
      mlPolicyID = mqPolicyID request, mlPolicyDigest = mqPolicyDigest request,
      mlRetryHistoryDigest = mqRetryHistoryDigest request,
      mlApprovalEvidenceDigest = mqApprovalEvidenceDigest request,
      mlRequestedAt = time_UTC (mqRequestedAt request)\<rparr>"

text \<open>The root of a new lineage: the root of the lineage that made the source job, or the source itself.\<close>

definition retry_root :: "MemoryManualRetryRepository \<Rightarrow> string \<Rightarrow> string" where
  "retry_root r sourceID = (case gget (mmByRetryJob r) sourceID of None \<Rightarrow> sourceID | Some parent \<Rightarrow> mlRootJobID parent)"

definition store_retry ::
    "ManualRetryRequest \<Rightarrow> Job \<Rightarrow> string \<Rightarrow> MemoryManualRetryRepository \<Rightarrow> MemoryManualRetryRepository" where
  "store_retry request source fingerprintValue r =
     (let retryRequest = retry_create_request request source;
          retry = new_job retryRequest;
          lineage = retry_lineage request source (retry_root r (jID source))
      in \<lparr>mmJobs = \<lparr>mrJobs = gput (jID retry) retry (mrJobs (mmJobs r)),
            mrIdempotency = gput (jIdempotencyKey retry)
              \<lparr>irJobID = jID retry, irFingerprint = fingerprint retryRequest\<rparr> (mrIdempotency (mmJobs r))\<rparr>,
          mmByAdmission = gput (mqReviewedAdmissionID request)
            \<lparr>rrFingerprint = fingerprintValue, rrLineage = lineage\<rparr> (mmByAdmission r),
          mmByRetryJob = gput (jID retry) lineage (mmByRetryJob r),
          mmBySource = gput (manualRetrySourceKey (jID source) (jVersion source)) lineage (mmBySource r)\<rparr>)"

definition CreateManualRetry ::
    "ctx \<Rightarrow> ManualRetryRequest \<Rightarrow> MemoryManualRetryRepository
     \<Rightarrow> MemoryManualRetryRepository \<times> (retry_error + Job \<times> ManualRetryLineage \<times> bool)" where
  "CreateManualRetry ctx request r =
     (case ctx of Some e \<Rightarrow> (r, Inl (RetryJob (CtxErr e)))
      | None \<Rightarrow> (case ManualRetryRequestFingerprint request of
          Inl e \<Rightarrow> (r, Inl e)
        | Inr fingerprintValue \<Rightarrow>
          (case gget (mmByAdmission r) (mqReviewedAdmissionID request) of
             Some existing \<Rightarrow>
               if rrFingerprint existing \<noteq> fingerprintValue then (r, Inl ErrManualRetryAdmissionConflict)
               else (case gget (mrJobs (mmJobs r)) (mlRetryJobID (rrLineage existing)) of
                   None \<Rightarrow> (r, Inl (RetryMsg ''manual retry lineage references missing retry job''))
                 | Some retry \<Rightarrow> (r, Inr (clone retry, rrLineage existing, False)))
           | None \<Rightarrow>
             (case gget (mrJobs (mmJobs r)) (mqSourceJobID request) of
                None \<Rightarrow> (r, Inl (RetryJob ErrNotFound))
              | Some source \<Rightarrow>
                if jVersion source \<noteq> mqExpectedSourceVersion request then (r, Inl (RetryJob ErrVersionConflict))
                else if jStatus source \<noteq> StatusFailed \<or> jAttempt source < jMaxAttempts source \<or> jLease source \<noteq> None
                  then (r, Inl ErrManualRetrySourceNotFailed)
                else if gget (mmBySource r) (manualRetrySourceKey (jID source) (jVersion source)) \<noteq> None
                  then (r, Inl ErrManualRetrySourceAlreadyRetried)
                else if gget (mrJobs (mmJobs r)) (mqRetryJobID request) \<noteq> None
                  then (r, Inl (RetryJob (JobIDExists (mqRetryJobID request))))
                else if gget (mrIdempotency (mmJobs r)) (mqRetryIdempotencyKey request) \<noteq> None
                  then (r, Inl (RetryJob ErrIdempotencyConflict))
                else (store_retry request source fingerprintValue r,
                      Inr (clone (new_job (retry_create_request request source)),
                           retry_lineage request source (retry_root r (jID source)), True))))))"

definition GetManualRetryLineageByAdmission ::
    "ctx \<Rightarrow> string \<Rightarrow> MemoryManualRetryRepository \<Rightarrow> retry_error + ManualRetryLineage" where
  "GetManualRetryLineageByAdmission ctx admissionID r =
     (case ctx of Some e \<Rightarrow> Inl (RetryJob (CtxErr e))
      | None \<Rightarrow> (case gget (mmByAdmission r) admissionID of None \<Rightarrow> Inl ErrManualRetryLineageNotFound
          | Some found \<Rightarrow> Inr (rrLineage found)))"

definition GetManualRetryLineageByRetryJob ::
    "ctx \<Rightarrow> string \<Rightarrow> MemoryManualRetryRepository \<Rightarrow> retry_error + ManualRetryLineage" where
  "GetManualRetryLineageByRetryJob ctx retryJobID r =
     (case ctx of Some e \<Rightarrow> Inl (RetryJob (CtxErr e))
      | None \<Rightarrow> (case gget (mmByRetryJob r) retryJobID of None \<Rightarrow> Inl ErrManualRetryLineageNotFound
          | Some found \<Rightarrow> Inr found))"

definition lineage_order :: "ManualRetryLineage \<Rightarrow> time \<times> string" where
  "lineage_order l = (mlRequestedAt l, mlRetryJobID l)"

definition ListManualRetryLineage ::
    "ctx \<Rightarrow> string \<Rightarrow> MemoryManualRetryRepository \<Rightarrow> retry_error + ManualRetryLineage list" where
  "ListManualRetryLineage ctx rootJobID r =
     (case ctx of Some e \<Rightarrow> Inl (RetryJob (CtxErr e))
      | None \<Rightarrow> (case validateManualRetryIdentifier ''root job id'' rootJobID of Inl e \<Rightarrow> Inl e
          | Inr _ \<Rightarrow> Inr (sort_key lineage_order
              (filter (\<lambda>l. mlRootJobID l = rootJobID) (map (\<lambda>(_, rec). rrLineage rec) (mmByAdmission r))))))"

subsection \<open>The invariant\<close>

definition lineage_values :: "ManualRetryLineage \<Rightarrow> string list" where
  "lineage_values l =
     [mlSourceJobID l, show_uint64 (mlSourceJobVersion l), mlRetryJobID l, mlRetryIdempotencyKey l,
      mlReviewedAdmissionID l, mlRevisionID l, mlRevisionDigest l, mlPolicyID l, mlPolicyDigest l,
      mlRetryHistoryDigest l, mlApprovalEvidenceDigest l]"

definition lineage_key :: "ManualRetryLineage \<Rightarrow> string" where
  "lineage_key l = manualRetrySourceKey (mlSourceJobID l) (mlSourceJobVersion l)"

definition valid_identifier :: "string \<Rightarrow> bool" where
  "valid_identifier v \<longleftrightarrow> canonical v \<and> length v \<le> MaxManualRetryIdentifierLength"

lemma validateManualRetryIdentifier_Inr [simp]:
  "validateManualRetryIdentifier name v = Inr () \<longleftrightarrow> valid_identifier v"
  by (auto simp: validateManualRetryIdentifier_def valid_identifier_def canonical_def Let_def)

text \<open>What the jobs say about a lineage: its child exists and its source is the failed job it was made from.\<close>

definition lineage_jobs :: "MemoryRepository \<Rightarrow> ManualRetryLineage \<Rightarrow> bool" where
  "lineage_jobs jobs l \<longleftrightarrow> gget (mrJobs jobs) (mlRetryJobID l) \<noteq> None
     \<and> (\<exists>s. gget (mrJobs jobs) (mlSourceJobID l) = Some s \<and> jStatus s = StatusFailed \<and> jVersion s = mlSourceJobVersion l)"

definition lineage_fields :: "ManualRetryLineage \<Rightarrow> bool" where
  "lineage_fields l \<longleftrightarrow> valid_identifier (mlSourceJobID l) \<and> valid_identifier (mlRetryJobID l)
     \<and> mlSourceJobVersion l \<noteq> 0 \<and> mlRequestedAt l \<noteq> 0"

definition manual_inv :: "MemoryManualRetryRepository \<Rightarrow> bool" where
  "manual_inv r \<longleftrightarrow>
     repo_inv (mmJobs r) \<and> gmap_ok (mmByAdmission r)
   \<and> (\<forall>a rec. gget (mmByAdmission r) a = Some rec \<longrightarrow> mlReviewedAdmissionID (rrLineage rec) = a
        \<and> rrFingerprint rec = sha256_hex (nul_terminated (lineage_values (rrLineage rec)))
        \<and> gget (mmByRetryJob r) (mlRetryJobID (rrLineage rec)) = Some (rrLineage rec))
   \<and> (\<forall>i l. gget (mmByRetryJob r) i = Some l \<longrightarrow> mlRetryJobID l = i \<and> lineage_jobs (mmJobs r) l
        \<and> lineage_fields l \<and> mlRootJobID l = retry_root r (mlSourceJobID l)
        \<and> (\<exists>rec. gget (mmByAdmission r) (mlReviewedAdmissionID l) = Some rec \<and> rrLineage rec = l)
        \<and> gget (mmBySource r) (lineage_key l) = Some l)
   \<and> (\<forall>k l. gget (mmBySource r) k = Some l \<longrightarrow> k = lineage_key l \<and> gget (mmByRetryJob r) (mlRetryJobID l) = Some l)
   \<and> (\<exists>rank :: string \<Rightarrow> nat. \<forall>i l. gget (mmByRetryJob r) i = Some l \<longrightarrow> rank (mlSourceJobID l) < rank i)"

lemma manual_invD:
  assumes "manual_inv r"
  shows "repo_inv (mmJobs r)" "gmap_ok (mmByAdmission r)"
    and "gget (mmByAdmission r) a = Some rec \<Longrightarrow> mlReviewedAdmissionID (rrLineage rec) = a
        \<and> rrFingerprint rec = sha256_hex (nul_terminated (lineage_values (rrLineage rec)))
        \<and> gget (mmByRetryJob r) (mlRetryJobID (rrLineage rec)) = Some (rrLineage rec)"
    and "gget (mmByRetryJob r) i = Some l \<Longrightarrow> mlRetryJobID l = i \<and> lineage_jobs (mmJobs r) l
        \<and> lineage_fields l \<and> mlRootJobID l = retry_root r (mlSourceJobID l)
        \<and> (\<exists>rec. gget (mmByAdmission r) (mlReviewedAdmissionID l) = Some rec \<and> rrLineage rec = l)
        \<and> gget (mmBySource r) (lineage_key l) = Some l"
    and "gget (mmBySource r) k = Some l \<Longrightarrow> k = lineage_key l \<and> gget (mmByRetryJob r) (mlRetryJobID l) = Some l"
    and "\<exists>rank :: string \<Rightarrow> nat. \<forall>i l. gget (mmByRetryJob r) i = Some l \<longrightarrow> rank (mlSourceJobID l) < rank i"
  using assms unfolding manual_inv_def by blast+

lemma manual_inv_new: "repo_inv jobs \<Longrightarrow> manual_inv (NewMemoryManualRetryRepository jobs)"
  by (simp add: manual_inv_def NewMemoryManualRetryRepository_def)

lemma manual_inv_job_op:
  assumes "manual_inv r"
  shows "manual_inv (r\<lparr>mmJobs := apply_op ctx op (mmJobs r)\<rparr>)"
proof -
  note inv = manual_invD(1)[OF assms]
  have keep: "lineage_jobs (apply_op ctx op (mmJobs r)) l" if l: "lineage_jobs (mmJobs r) l" for l
  proof -
    obtain c s where c: "gget (mrJobs (mmJobs r)) (mlRetryJobID l) = Some c"
      and s: "gget (mrJobs (mmJobs r)) (mlSourceJobID l) = Some s" "jStatus s = StatusFailed" "jVersion s = mlSourceJobVersion l"
      using l by (auto simp: lineage_jobs_def)
    have "gget (mrJobs (apply_op ctx op (mmJobs r))) (mlSourceJobID l) = Some s"
      using apply_op_job[OF inv s(1), of ctx op] job_move_not_terminal s(2) by (auto simp: Terminal_def)
    then show ?thesis using apply_op_job[OF inv c, of ctx op] s by (auto simp: lineage_jobs_def)
  qed
  have root: "retry_root (r\<lparr>mmJobs := j\<rparr>) = retry_root r" for j by (rule ext) (simp add: retry_root_def)
  show ?thesis
    using assms apply_op_inv[OF inv, of ctx op] unfolding manual_inv_def
    by (simp add: root) (blast intro: keep)
qed

lemma CreateManualRetry_effect:
  "fst (CreateManualRetry ctx q r) = r \<and> (\<forall>j l. snd (CreateManualRetry ctx q r) \<noteq> Inr (j, l, True))
   \<or> (\<exists>source. ctx = None \<and> ValidateManualRetryRequest q = Inr ()
       \<and> gget (mmByAdmission r) (mqReviewedAdmissionID q) = None
       \<and> gget (mrJobs (mmJobs r)) (mqSourceJobID q) = Some source
       \<and> jVersion source = mqExpectedSourceVersion q \<and> jStatus source = StatusFailed
       \<and> gget (mmBySource r) (manualRetrySourceKey (jID source) (jVersion source)) = None
       \<and> gget (mrJobs (mmJobs r)) (mqRetryJobID q) = None
       \<and> gget (mrIdempotency (mmJobs r)) (mqRetryIdempotencyKey q) = None
       \<and> CreateManualRetry ctx q r =
           (store_retry q source (sha256_hex (nul_terminated (retry_fingerprint_values q))) r,
            Inr (new_job (retry_create_request q source),
                 retry_lineage q source (retry_root r (jID source)), True)))"
  unfolding CreateManualRetry_def ManualRetryRequestFingerprint_def
  by (auto split: option.splits sum.splits)

lemma ValidateManualRetryRequestD:
  assumes "ValidateManualRetryRequest q = Inr ()"
  shows "valid_identifier (mqSourceJobID q)" "valid_identifier (mqRetryJobID q)"
    "valid_identifier (mqRetryIdempotencyKey q)" "mqExpectedSourceVersion q \<noteq> 0"
    "mqSourceJobID q \<noteq> mqRetryJobID q" "mqRequestedAt q \<noteq> 0"
  using assms by (simp_all add: ValidateManualRetryRequest_def)

lemma retry_lineage_simps [simp]:
  "mlRootJobID (retry_lineage q s root) = root" "mlSourceJobID (retry_lineage q s root) = jID s"
  "mlSourceJobVersion (retry_lineage q s root) = jVersion s" "mlRetryJobID (retry_lineage q s root) = mqRetryJobID q"
  "mlReviewedAdmissionID (retry_lineage q s root) = mqReviewedAdmissionID q"
  "mlRequestedAt (retry_lineage q s root) = mqRequestedAt q"
  by (simp_all add: retry_lineage_def)

lemma retry_create_request_simps [simp]:
  "crID (retry_create_request q s) = mqRetryJobID q"
  "crIdempotencyKey (retry_create_request q s) = mqRetryIdempotencyKey q"
  "crMaxAttempts (retry_create_request q s) = jMaxAttempts s" "crInput (retry_create_request q s) = jInput s"
  "crChangeID (retry_create_request q s) = jChangeID s" "crActionName (retry_create_request q s) = jActionName s"
  by (simp_all add: retry_create_request_def)

lemma lineage_values_retry:
  "jID s = mqSourceJobID q \<Longrightarrow> jVersion s = mqExpectedSourceVersion q \<Longrightarrow>
     lineage_values (retry_lineage q s root) = retry_fingerprint_values q"
  by (simp add: lineage_values_def retry_fingerprint_values_def retry_lineage_def)

lemma store_retry_inv:
  assumes inv: "manual_inv r" and q: "ValidateManualRetryRequest q = Inr ()"
    and adm: "gget (mmByAdmission r) (mqReviewedAdmissionID q) = None"
    and src: "gget (mrJobs (mmJobs r)) (mqSourceJobID q) = Some source"
      "jVersion source = mqExpectedSourceVersion q" "jStatus source = StatusFailed"
    and fresh: "gget (mmBySource r) (manualRetrySourceKey (jID source) (jVersion source)) = None"
      "gget (mrJobs (mmJobs r)) (mqRetryJobID q) = None"
      "gget (mrIdempotency (mmJobs r)) (mqRetryIdempotencyKey q) = None"
  shows "manual_inv (store_retry q source (sha256_hex (nul_terminated (retry_fingerprint_values q))) r)"
    (is "manual_inv ?r")
proof -
  note repo = manual_invD(1)[OF inv]
  let ?l = "retry_lineage q source (retry_root r (jID source))"
  let ?jobs = "mmJobs ?r"
  have jid: "jID source = mqSourceJobID q" using repo_invD(3)[OF repo src(1)] .
  have sok: "job_ok source" using repo_invD(4)[OF repo src(1)] .
  note qd = ValidateManualRetryRequestD[OF q]
  have old: "i \<noteq> mqRetryJobID q" "mlSourceJobID l \<noteq> mqRetryJobID q" if "gget (mmByRetryJob r) i = Some l" for i l
    using manual_invD(4)[OF inv that] fresh(2) by (auto simp: lineage_jobs_def)
  have root: "retry_root ?r i = retry_root r i" if "i \<noteq> mqRetryJobID q" for i
    using that by (simp add: retry_root_def store_retry_def Let_def)
  have maps: "mmByRetryJob ?r = gput (mqRetryJobID q) ?l (mmByRetryJob r)"
    "mmBySource ?r = gput (lineage_key ?l) ?l (mmBySource r)"
    "mmByAdmission ?r = gput (mqReviewedAdmissionID q)
       \<lparr>rrFingerprint = sha256_hex (nul_terminated (lineage_values ?l)), rrLineage = ?l\<rparr> (mmByAdmission r)"
    by (simp_all add: store_retry_def lineage_key_def lineage_values_retry[OF jid src(2)] Let_def)
  have jobs: "gget (mrJobs ?jobs) i = (if i = mqRetryJobID q then Some (new_job (retry_create_request q source))
      else gget (mrJobs (mmJobs r)) i)" for i
    by (simp add: store_retry_def Let_def)
  have "job_ok (new_job (retry_create_request q source))"
    using sok qd canonical_nonempty[of "mqRetryJobID q"]
    by (simp add: job_ok_def new_job_def retry_create_request_def valid_identifier_def Let_def)
  then have "repo_inv ?jobs"
    using repo_inv_add[OF repo, of "retry_create_request q source"] fresh(2,3) by (simp add: store_retry_def Let_def)
  moreover have "gmap_ok (mmByAdmission ?r)" using manual_invD(2)[OF inv] unfolding maps by simp
  moreover have "mlReviewedAdmissionID (rrLineage rec) = a
      \<and> rrFingerprint rec = sha256_hex (nul_terminated (lineage_values (rrLineage rec)))
      \<and> gget (mmByRetryJob ?r) (mlRetryJobID (rrLineage rec)) = Some (rrLineage rec)"
    if rec: "gget (mmByAdmission ?r) a = Some rec" for a rec
  proof (cases "a = mqReviewedAdmissionID q")
    case True
    then show ?thesis using rec unfolding maps by auto
  next
    case False
    then have "gget (mmByAdmission r) a = Some rec" using rec unfolding maps by simp
    then show ?thesis using manual_invD(3)[OF inv] old unfolding maps by fastforce
  qed
  moreover have "mlRetryJobID l = i \<and> lineage_jobs ?jobs l
      \<and> lineage_fields l \<and> mlRootJobID l = retry_root ?r (mlSourceJobID l)
      \<and> (\<exists>rec. gget (mmByAdmission ?r) (mlReviewedAdmissionID l) = Some rec \<and> rrLineage rec = l)
      \<and> gget (mmBySource ?r) (lineage_key l) = Some l"
    if l: "gget (mmByRetryJob ?r) i = Some l" for i l
  proof (cases "i = mqRetryJobID q")
    case True
    then have l': "l = ?l" using l unfolding maps by simp
    show ?thesis
      unfolding l' using True src jid qd root[of "mqSourceJobID q"]
      by (simp add: lineage_jobs_def lineage_fields_def jobs maps)
  next
    case False
    then have lr: "gget (mmByRetryJob r) i = Some l" using l unfolding maps by simp
    note d = manual_invD(4)[OF inv lr]
    have "lineage_key l \<noteq> lineage_key ?l"
      using d fresh(1) by (auto simp: lineage_key_def)
    moreover have "mlReviewedAdmissionID l \<noteq> mqReviewedAdmissionID q" using d adm by auto
    moreover have "lineage_jobs ?jobs l" using d fresh(2) by (auto simp: lineage_jobs_def jobs)
    ultimately show ?thesis using d root[OF old(2)[OF lr]] by (simp add: maps)
  qed
  moreover have "k = lineage_key l \<and> gget (mmByRetryJob ?r) (mlRetryJobID l) = Some l"
    if "gget (mmBySource ?r) k = Some l" for k l
    using that manual_invD(5)[OF inv, of k l] old unfolding maps by (fastforce split: if_splits)
  moreover have "\<exists>rank :: string \<Rightarrow> nat. \<forall>i l. gget (mmByRetryJob ?r) i = Some l \<longrightarrow> rank (mlSourceJobID l) < rank i"
  proof -
    obtain rank :: "string \<Rightarrow> nat" where rank: "\<forall>i l. gget (mmByRetryJob r) i = Some l \<longrightarrow> rank (mlSourceJobID l) < rank i"
      using manual_invD(6)[OF inv] by blast
    let ?rank = "rank(mqRetryJobID q := Suc (rank (mqSourceJobID q)))"
    have "?rank (mlSourceJobID l) < ?rank i" if l: "gget (mmByRetryJob ?r) i = Some l" for i l
      using l rank old[of i l] qd(5) jid unfolding maps by (cases "i = mqRetryJobID q") auto
    then show ?thesis by blast
  qed
  ultimately show ?thesis unfolding manual_inv_def by blast
qed

datatype retry_op = JobOp repo_op | RetryOp ManualRetryRequest

definition apply_retry_op :: "ctx \<Rightarrow> retry_op \<Rightarrow> MemoryManualRetryRepository \<Rightarrow> MemoryManualRetryRepository" where
  "apply_retry_op ctx op r = (case op of
      JobOp j \<Rightarrow> r\<lparr>mmJobs := apply_op ctx j (mmJobs r)\<rparr>
    | RetryOp q \<Rightarrow> fst (CreateManualRetry ctx q r))"

inductive retry_step :: "MemoryManualRetryRepository \<Rightarrow> MemoryManualRetryRepository \<Rightarrow> bool" where
  "retry_step r (apply_retry_op ctx op r)"

lemma CreateManualRetry_inv: "manual_inv r \<Longrightarrow> manual_inv (fst (CreateManualRetry ctx q r))"
  using CreateManualRetry_effect[of ctx q r] store_retry_inv[of r q] by auto

lemma apply_retry_op_inv: "manual_inv r \<Longrightarrow> manual_inv (apply_retry_op ctx op r)"
  by (cases op) (simp_all add: apply_retry_op_def manual_inv_job_op CreateManualRetry_inv)

abbreviation fresh_retry_repository :: "MemoryManualRetryRepository \<Rightarrow> bool" where
  "fresh_retry_repository r \<equiv> r = NewMemoryManualRetryRepository NewMemoryRepository"

interpretation retry_sys: step_system fresh_retry_repository retry_step manual_inv
proof unfold_locales
  show "fresh_retry_repository r \<Longrightarrow> manual_inv r" for r
    by (simp add: manual_inv_new repo_sys.init_inv)
  show "manual_inv r \<Longrightarrow> retry_step r r' \<Longrightarrow> manual_inv r'" for r r'
    by (auto elim!: retry_step.cases intro: apply_retry_op_inv)
qed

text \<open>Records are never rewritten, and the source of a recorded lineage never moves again.\<close>

lemma CreateManualRetry_keeps:
  shows "gget (mmByAdmission r) a = Some rec \<Longrightarrow> gget (mmByAdmission (fst (CreateManualRetry ctx q r))) a = Some rec"
    and "gget (mmBySource r) k = Some l \<Longrightarrow> gget (mmBySource (fst (CreateManualRetry ctx q r))) k = Some l"
  using CreateManualRetry_effect[of ctx q r] by (auto simp: store_retry_def Let_def)

lemma apply_retry_op_keeps:
  shows "gget (mmByAdmission r) a = Some rec \<Longrightarrow> gget (mmByAdmission (apply_retry_op ctx op r)) a = Some rec"
    and "gget (mmBySource r) k = Some l \<Longrightarrow> gget (mmBySource (apply_retry_op ctx op r)) k = Some l"
  by (cases op; simp add: apply_retry_op_def CreateManualRetry_keeps)+

lemma apply_retry_op_job:
  assumes "manual_inv r" "gget (mrJobs (mmJobs r)) i = Some j"
  shows "\<exists>j'. gget (mrJobs (mmJobs (apply_retry_op ctx op r))) i = Some j' \<and> job_identity j' = job_identity j
     \<and> (Terminal (jStatus j) \<longrightarrow> j' = j)"
proof (cases op)
  case (JobOp o')
  show ?thesis
    using apply_op_job[OF manual_invD(1)[OF assms(1)] assms(2), of ctx o'] job_move_identity job_move_not_terminal
    by (auto simp: JobOp apply_retry_op_def)
next
  case (RetryOp q)
  have "gget (mrJobs (mmJobs (fst (CreateManualRetry ctx q r)))) i = Some j"
    using CreateManualRetry_effect[of ctx q r] assms(2) by (auto simp: store_retry_def Let_def)
  then show ?thesis by (simp add: RetryOp apply_retry_op_def)
qed

interpretation recorded_admission: frozen_system fresh_retry_repository retry_step manual_inv
    "\<lambda>r. gget (mmByAdmission r) a = Some rec" for a rec
  by unfold_locales (auto elim!: retry_step.cases intro: apply_retry_op_keeps)

interpretation recorded_source: frozen_system fresh_retry_repository retry_step manual_inv
    "\<lambda>r. gget (mmBySource r) k = Some l" for k l
  by unfold_locales (auto elim!: retry_step.cases intro: apply_retry_op_keeps)

interpretation retry_child: frozen_system fresh_retry_repository retry_step manual_inv
    "\<lambda>r. \<exists>j'. gget (mrJobs (mmJobs r)) i = Some j' \<and> job_identity j' = ident" for i ident
  by unfold_locales (use apply_retry_op_job in \<open>fastforce elim!: retry_step.cases\<close>)

interpretation retry_terminal: frozen_system fresh_retry_repository retry_step manual_inv
    "\<lambda>r. gget (mrJobs (mmJobs r)) i = Some j \<and> Terminal (jStatus j)" for i j
  by unfold_locales (use apply_retry_op_job in \<open>fastforce elim!: retry_step.cases\<close>)

lemma CreateManualRetry_True:
  assumes "manual_inv r" "CreateManualRetry ctx q r = (r', Inr (retry, l, True))"
  shows "\<exists>source. gget (mrJobs (mmJobs r)) (mqSourceJobID q) = Some source \<and> jID source = mqSourceJobID q
    \<and> jVersion source = mqExpectedSourceVersion q \<and> jStatus source = StatusFailed
    \<and> gget (mrJobs (mmJobs r)) (mqRetryJobID q) = None
    \<and> retry = new_job (retry_create_request q source) \<and> l = retry_lineage q source (retry_root r (jID source))
    \<and> (\<forall>i. gget (mrJobs (mmJobs r')) i = (if i = mqRetryJobID q then Some retry else gget (mrJobs (mmJobs r)) i))
    \<and> gget (mmByAdmission r') (mqReviewedAdmissionID q)
        = Some \<lparr>rrFingerprint = sha256_hex (nul_terminated (retry_fingerprint_values q)), rrLineage = l\<rparr>
    \<and> gget (mmBySource r') (manualRetrySourceKey (mqSourceJobID q) (mqExpectedSourceVersion q)) = Some l
    \<and> ValidateManualRetryRequest q = Inr ()"
proof -
  obtain source where "gget (mrJobs (mmJobs r)) (mqSourceJobID q) = Some source"
      "jVersion source = mqExpectedSourceVersion q" "jStatus source = StatusFailed"
      "gget (mrJobs (mmJobs r)) (mqRetryJobID q) = None" "ValidateManualRetryRequest q = Inr ()"
      "CreateManualRetry ctx q r =
           (store_retry q source (sha256_hex (nul_terminated (retry_fingerprint_values q))) r,
            Inr (new_job (retry_create_request q source),
                 retry_lineage q source (retry_root r (jID source)), True))"
    using CreateManualRetry_effect[of ctx q r] assms(2) by auto
  then show ?thesis
    using assms(2) repo_invD(3)[OF manual_invD(1)[OF assms(1)], of "mqSourceJobID q" source]
    by (auto simp: store_retry_def Let_def)
qed

end
