(* ===== verification/Retry_History.thy ===== *)
theory Retry_History
  imports Manual_Retry
begin

text \<open>
  \<^verbatim>\<open>manual_retry_history.go\<close>: the evidence of a retry chain, rebuilt from immutable lineage records by
  following them from the root. The contract of \<^verbatim>\<open>ManualRetryLineageReader\<close> is the locale
  \<open>lineage_reader\<close>, in which the evidence is shown to exist; it is interpreted on
  \<^verbatim>\<open>MemoryManualRetryRepository\<close>. The theory ends with the properties of manual retries.
\<close>

definition ManualRetryHistoryContractVersion :: string where
  "ManualRetryHistoryContractVersion = ''job.manual-retry-history/v1''"

definition MaxManualRetryHistoryEntries :: nat where
  "MaxManualRetryHistoryEntries = 64"

record ManualRetryLineageReader =
  lrGet :: "ctx \<Rightarrow> string \<Rightarrow> retry_error + ManualRetryLineage"
  lrList :: "ctx \<Rightarrow> string \<Rightarrow> retry_error + ManualRetryLineage list"

record ManualRetryHistoryEvidence =
  heContractVersion :: string
  heRootJobID :: string
  heSourceJobID :: string
  heSourceJobVersion :: uint64
  heUsedManualRetries :: "32 word"
  heSourceAlreadyRetried :: bool
  heDigest :: string
  heObservedAt :: "time"

record manualRetryHistoryEntry =
  hnSourceJobID :: string
  hnSourceJobVersion :: uint64
  hnRetryJobID :: string
  hnReviewedAdmissionID :: string
  hnRevalidationAdmissionID :: string
  hnRevisionID :: string
  hnRevisionDigest :: string
  hnPolicyID :: string
  hnPolicyDigest :: string
  hnRetryHistoryDigest :: string
  hnApprovalEvidenceDigest :: string
  hnRequestedAt :: "time"

definition history_entry :: "ManualRetryLineage \<Rightarrow> manualRetryHistoryEntry" where
  "history_entry item =
     \<lparr>hnSourceJobID = mlSourceJobID item, hnSourceJobVersion = mlSourceJobVersion item,
      hnRetryJobID = mlRetryJobID item, hnReviewedAdmissionID = mlReviewedAdmissionID item,
      hnRevalidationAdmissionID = mlRevalidationAdmissionID item, hnRevisionID = mlRevisionID item,
      hnRevisionDigest = mlRevisionDigest item, hnPolicyID = mlPolicyID item,
      hnPolicyDigest = mlPolicyDigest item, hnRetryHistoryDigest = mlRetryHistoryDigest item,
      hnApprovalEvidenceDigest = mlApprovalEvidenceDigest item, hnRequestedAt = time_UTC (mlRequestedAt item)\<rparr>"

text \<open>The JSON of the digest payload; times outside the years 0 to 9999 do not marshal.\<close>

definition history_entry_json :: "manualRetryHistoryEntry \<Rightarrow> json" where
  "history_entry_json e = JObject (
     [(''source_job_id'', JString (hnSourceJobID e)),
      (''source_job_version'', JInt (uint (hnSourceJobVersion e))),
      (''retry_job_id'', JString (hnRetryJobID e)),
      (''reviewed_admission_id'', JString (hnReviewedAdmissionID e)),
      (''revalidation_admission_id'', JString (hnRevalidationAdmissionID e)),
      (''revision_id'', JString (hnRevisionID e)),
      (''revision_digest'', JString (hnRevisionDigest e)),
      (''policy_id'', JString (hnPolicyID e)),
      (''policy_digest'', JString (hnPolicyDigest e)),
      (''retry_history_digest'', JString (hnRetryHistoryDigest e))]
     @ (if hnApprovalEvidenceDigest e = [] then []
        else [(''approval_evidence_digest'', JString (hnApprovalEvidenceDigest e))])
     @ (case time_RFC3339 (hnRequestedAt e) of None \<Rightarrow> [] | Some t \<Rightarrow> [(''requested_at'', JString t)]))"

definition history_payload :: "string \<Rightarrow> manualRetryHistoryEntry list \<Rightarrow> string option" where
  "history_payload rootJobID entries =
     (if list_all (\<lambda>e. time_marshals (hnRequestedAt e)) entries
      then Some (json_Marshal (JObject
        [(''contract_version'', JString ManualRetryHistoryContractVersion),
         (''root_job_id'', JString rootJobID),
         (''entries'', JArray (map history_entry_json entries))]))
      else None)"

text \<open>The loop that indexes the records by their source job and refuses incomplete entries and forks.\<close>

fun index_lineage :: "string \<Rightarrow> ManualRetryLineage list \<Rightarrow> (string \<times> ManualRetryLineage) list
    \<Rightarrow> retry_error + (string \<times> ManualRetryLineage) list" where
  "index_lineage rootJobID [] bySource = Inr bySource"
| "index_lineage rootJobID (item # items) bySource =
     (if mlRootJobID item \<noteq> rootJobID \<or> mlSourceJobID item = [] \<or> mlRetryJobID item = []
         \<or> mlSourceJobVersion item = 0 \<or> IsZero (mlRequestedAt item)
        then Inl (ErrInvalidManualRetryHistory ''incomplete retry lineage entry'')
      else if gget bySource (mlSourceJobID item) \<noteq> None
        then Inl (ErrInvalidManualRetryHistory ''retry lineage forks'')
      else index_lineage rootJobID items (gput (mlSourceJobID item) item bySource))"

text \<open>The loop that follows the chain. It ends because every round visits another source of the index.\<close>

function history_loop :: "(string \<times> ManualRetryLineage) list \<Rightarrow> string list \<Rightarrow> string
    \<Rightarrow> manualRetryHistoryEntry list \<Rightarrow> retry_error + manualRetryHistoryEntry list" where
  "history_loop bySource visited cursor entries =
     (if cursor \<in> set visited then Inl (ErrInvalidManualRetryHistory ''retry lineage cycle detected'')
      else case gget bySource cursor of
        None \<Rightarrow> Inr entries
      | Some item \<Rightarrow> history_loop bySource (cursor # visited) (mlRetryJobID item) (entries @ [history_entry item]))"
  by pat_completeness auto

termination
proof (relation "measure (\<lambda>(b, v, c, e). card (set (gkeys b) - set v))")
  fix b v e item and c :: string
  assume "c \<notin> set v" "gget b c = Some (item :: ManualRetryLineage)"
  then have "c \<in> set (gkeys b) - set v" using gget_key_iff[of c b] by blast
  then have "set (gkeys b) - set (c # v) \<subset> set (gkeys b) - set v" by auto
  then show "((b, c # v, mlRetryJobID item, e @ [history_entry item]), b, v, c, e)
      \<in> measure (\<lambda>(b, v, c, e). card (set (gkeys b) - set v))"
    using psubset_card_mono[of "set (gkeys b) - set v"] by simp
qed simp

declare history_loop.simps [simp del]

definition BuildManualRetryHistoryEvidence ::
    "ctx \<Rightarrow> ManualRetryLineageReader option \<Rightarrow> Job \<Rightarrow> time \<Rightarrow> retry_error + ManualRetryHistoryEvidence" where
  "BuildManualRetryHistoryEvidence ctx reader source observedAt =
     (case reader of None \<Rightarrow> Inl (RetryMsg ''manual retry lineage reader is required'')
      | Some rd \<Rightarrow>
     (case validateManualRetryIdentifier ''source job id'' (jID source) of Inl e \<Rightarrow> Inl e
      | Inr _ \<Rightarrow>
        if jVersion source = 0
          then Inl (ErrInvalidManualRetryHistory ''positive source Job version is required'')
        else if IsZero observedAt \<or> IsZero (jUpdatedAt source) \<or> observedAt < jUpdatedAt source
          then Inl (ErrInvalidManualRetryHistory ''fresh history observation is required'')
        else case (case lrGet rd ctx (jID source) of
                     Inr parent \<Rightarrow> Inr (mlRootJobID parent)
                   | Inl e \<Rightarrow> if e = ErrManualRetryLineageNotFound then Inr (jID source) else Inl e) of
          Inl e \<Rightarrow> Inl e
        | Inr rootJobID \<Rightarrow>
     (case validateManualRetryIdentifier ''root job id'' rootJobID of Inl e \<Rightarrow> Inl e
      | Inr _ \<Rightarrow>
     (case lrList rd ctx rootJobID of Inl e \<Rightarrow> Inl e
      | Inr lineage \<Rightarrow>
        if length lineage > MaxManualRetryHistoryEntries
          then Inl (ErrInvalidManualRetryHistory ''retry history exceeds bounded evidence size'')
        else (case index_lineage rootJobID lineage [] of Inl e \<Rightarrow> Inl e
      | Inr bySource \<Rightarrow>
     (case history_loop bySource [] rootJobID [] of Inl e \<Rightarrow> Inl e
      | Inr entries \<Rightarrow>
        if length entries \<noteq> length lineage
          then Inl (ErrInvalidManualRetryHistory ''retry lineage contains disconnected entries'')
        else (case history_payload rootJobID entries of
            None \<Rightarrow> Inl (ErrInvalidManualRetryHistory ''encode retry history'')
          | Some encoded \<Rightarrow> Inr
             \<lparr>heContractVersion = ManualRetryHistoryContractVersion, heRootJobID = rootJobID,
              heSourceJobID = jID source, heSourceJobVersion = jVersion source,
              heUsedManualRetries = of_nat (length entries),
              heSourceAlreadyRetried = (gget bySource (jID source) \<noteq> None),
              heDigest = ''sha256:'' @ sha256_hex encoded, heObservedAt = time_UTC observedAt\<rparr>)))))))"

subsection \<open>The contract of a lineage reader\<close>

text \<open>
  \<open>recorded s\<close> is the set of lineage records of the store in state \<open>s\<close>. Besides answering the two
  queries, a reader has to keep one record per source job, to give a record the root of the record
  that made its source, and to add a record only after the job it retries exists.
\<close>

locale lineage_reader =
  fixes inv :: "'s \<Rightarrow> bool"
    and by_retry :: "ctx \<Rightarrow> string \<Rightarrow> 's \<Rightarrow> retry_error + ManualRetryLineage"
    and by_root :: "ctx \<Rightarrow> string \<Rightarrow> 's \<Rightarrow> retry_error + ManualRetryLineage list"
    and recorded :: "'s \<Rightarrow> ManualRetryLineage set"
  assumes by_retry_found: "inv s \<Longrightarrow> l \<in> recorded s \<Longrightarrow> by_retry None (mlRetryJobID l) s = Inr l"
    and by_retry_missing: "inv s \<Longrightarrow> i \<notin> mlRetryJobID ` recorded s
      \<Longrightarrow> by_retry None i s = Inl ErrManualRetryLineageNotFound"
    and by_root_lists: "inv s \<Longrightarrow> valid_identifier root
      \<Longrightarrow> \<exists>ls. by_root None root s = Inr ls \<and> distinct ls \<and> set ls = {l \<in> recorded s. mlRootJobID l = root}"
    and one_per_source: "inv s \<Longrightarrow> l \<in> recorded s \<Longrightarrow> l' \<in> recorded s
      \<Longrightarrow> mlSourceJobID l = mlSourceJobID l' \<Longrightarrow> l = l'"
    and root_inherited: "inv s \<Longrightarrow> l \<in> recorded s \<Longrightarrow>
      mlRootJobID l = mlSourceJobID l \<and> mlSourceJobID l \<notin> mlRetryJobID ` recorded s
      \<or> (\<exists>p \<in> recorded s. mlRetryJobID p = mlSourceJobID l \<and> mlRootJobID p = mlRootJobID l)"
    and complete_fields: "inv s \<Longrightarrow> l \<in> recorded s \<Longrightarrow> lineage_fields l"
    and made_later: "inv s \<Longrightarrow> \<exists>rank :: string \<Rightarrow> nat. \<forall>l \<in> recorded s. rank (mlSourceJobID l) < rank (mlRetryJobID l)"
begin

definition root_of :: "'s \<Rightarrow> string \<Rightarrow> string" where
  "root_of s i = (if i \<in> mlRetryJobID ` recorded s
     then (case by_retry None i s of Inr p \<Rightarrow> mlRootJobID p | Inl _ \<Rightarrow> i) else i)"

definition chain :: "'s \<Rightarrow> string \<Rightarrow> ManualRetryLineage set" where
  "chain s root = {l \<in> recorded s. mlRootJobID l = root}"

definition reader :: "'s \<Rightarrow> ManualRetryLineageReader" where
  "reader s = \<lparr>lrGet = (\<lambda>ctx i. by_retry ctx i s), lrList = (\<lambda>ctx i. by_root ctx i s)\<rparr>"

lemma root_valid:
  assumes inv: "inv s" and l: "l \<in> recorded s"
  shows "valid_identifier (mlRootJobID l)"
proof -
  obtain rank :: "string \<Rightarrow> nat" where rank: "\<forall>l \<in> recorded s. rank (mlSourceJobID l) < rank (mlRetryJobID l)"
    using made_later[OF inv] by blast
  show ?thesis
    using l
  proof (induction "rank (mlRetryJobID l)" arbitrary: l rule: less_induct)
    case less
    show ?case
      using root_inherited[OF inv less.prems]
    proof
      assume "\<exists>p \<in> recorded s. mlRetryJobID p = mlSourceJobID l \<and> mlRootJobID p = mlRootJobID l"
      then obtain p where p: "p \<in> recorded s" "mlRetryJobID p = mlSourceJobID l" "mlRootJobID p = mlRootJobID l"
        by blast
      then show ?thesis using less.hyps[OF _ p(1)] rank less.prems by force
    qed (use complete_fields[OF inv less.prems] in \<open>auto simp: lineage_fields_def\<close>)
  qed
qed

text \<open>The index of a chain finds the record of every source job of the chain.\<close>

lemma index_chain:
  assumes inv: "inv s" and ls: "distinct ls" "set ls \<subseteq> chain s root"
    and b: "\<forall>i. gget b i \<noteq> None \<longrightarrow> i \<notin> mlSourceJobID ` set ls"
  shows "\<exists>b'. index_lineage root ls b = Inr b'
     \<and> (\<forall>i l. gget b' i = Some l \<longleftrightarrow> gget b i = Some l \<or> l \<in> set ls \<and> mlSourceJobID l = i)"
  using ls b
proof (induction ls arbitrary: b)
  case (Cons x ls)
  have x: "x \<in> recorded s" "mlRootJobID x = root" using Cons.prems(2) by (auto simp: chain_def)
  have ok: "mlSourceJobID x \<noteq> []" "mlRetryJobID x \<noteq> []" "mlSourceJobVersion x \<noteq> 0" "mlRequestedAt x \<noteq> 0"
    using complete_fields[OF inv x(1)] canonical_nonempty by (auto simp: lineage_fields_def valid_identifier_def)
  have new: "gget b (mlSourceJobID x) = None" using Cons.prems(3) by fastforce
  have notin: "mlSourceJobID x \<notin> mlSourceJobID ` set ls"
  proof
    assume "mlSourceJobID x \<in> mlSourceJobID ` set ls"
    then obtain y where "y \<in> set ls" "mlSourceJobID x = mlSourceJobID y" by blast
    then show False using one_per_source[OF inv x(1), of y] Cons.prems(1,2) by (auto simp: chain_def)
  qed
  have "\<exists>b'. index_lineage root ls (gput (mlSourceJobID x) x b) = Inr b'
     \<and> (\<forall>i l. gget b' i = Some l \<longleftrightarrow> gget (gput (mlSourceJobID x) x b) i = Some l \<or> l \<in> set ls \<and> mlSourceJobID l = i)"
    by (rule Cons.IH) (use Cons.prems notin in auto)
  then obtain b' where b': "index_lineage root ls (gput (mlSourceJobID x) x b) = Inr b'"
     "\<forall>i l. gget b' i = Some l \<longleftrightarrow> gget (gput (mlSourceJobID x) x b) i = Some l \<or> l \<in> set ls \<and> mlSourceJobID l = i"
    by blast
  then show ?case
    by (intro exI[of _ b']) (auto simp: x ok new)
qed simp

text \<open>
  Following the chain from its root visits every record of the chain once: the visited sources have
  smaller rank than the cursor, and the child of every visited source is visited or is the cursor.
\<close>

lemma follow_chain:
  assumes inv: "inv s" and fin: "finite (chain s root)"
    and b: "\<forall>i l. gget b i = Some l \<longleftrightarrow> l \<in> chain s root \<and> mlSourceJobID l = i"
    and rank: "\<forall>l \<in> recorded s. rank (mlSourceJobID l) < (rank (mlRetryJobID l) :: nat)"
    and V: "\<forall>v \<in> set V. rank v < rank c" "distinct V" "set V \<subseteq> mlSourceJobID ` chain s root"
    and closed: "root \<in> insert c (set V)"
      "\<forall>l \<in> chain s root. mlSourceJobID l \<in> set V \<longrightarrow> mlRetryJobID l \<in> insert c (set V)"
    and es: "length es = length V" "set es = history_entry ` {l \<in> chain s root. mlSourceJobID l \<in> set V}"
  shows "\<exists>es'. history_loop b V c es = Inr es' \<and> length es' = card (chain s root)
     \<and> set es' = history_entry ` chain s root"
  using V closed es
proof (induction "card (mlSourceJobID ` chain s root - set V)" arbitrary: V c es rule: less_induct)
  case less
  note prems = less.prems
  have cV: "c \<notin> set V" using prems(1) by blast
  show ?case
  proof (cases "gget b c")
    case None
    have all: "mlSourceJobID l \<in> set V" if "l \<in> chain s root" for l
      using that
    proof (induction "rank (mlRetryJobID l)" arbitrary: l rule: less_induct)
      case less
      have l: "l \<in> recorded s" "mlRootJobID l = root" using less.prems by (auto simp: chain_def)
      have "gget b (mlSourceJobID l) = Some l" using b less.prems by blast
      then have nc: "mlSourceJobID l \<noteq> c" using None by auto
      show ?case
        using root_inherited[OF inv l(1)]
      proof
        assume "\<exists>p \<in> recorded s. mlRetryJobID p = mlSourceJobID l \<and> mlRootJobID p = mlRootJobID l"
        then obtain p where p: "p \<in> chain s root" "mlRetryJobID p = mlSourceJobID l"
          using l(2) by (auto simp: chain_def)
        have "mlSourceJobID p \<in> set V" using less.hyps[OF _ p(1)] rank l(1) p(2) by simp
        then show ?thesis using prems(5) p nc by force
      qed (use prems(4) nc l(2) in auto)
    qed
    have "set V = mlSourceJobID ` chain s root" using prems(3) all by blast
    moreover have "inj_on mlSourceJobID (chain s root)"
      using one_per_source[OF inv] by (auto simp: chain_def inj_on_def)
    ultimately have len: "length V = card (chain s root)"
      using distinct_card[OF prems(2)] card_image by metis
    have "{l \<in> chain s root. mlSourceJobID l \<in> set V} = chain s root" using all by blast
    then show ?thesis using None cV prems(6,7) len by (simp add: history_loop.simps[of b V c])
  next
    case (Some l)
    then have l: "l \<in> chain s root" "mlSourceJobID l = c" using b by auto
    have lt: "rank c < rank (mlRetryJobID l)" using rank l by (auto simp: chain_def)
    have "c \<in> mlSourceJobID ` chain s root - set V" using l cV by blast
    then have "mlSourceJobID ` chain s root - set (c # V) \<subset> mlSourceJobID ` chain s root - set V" by auto
    then have m: "card (mlSourceJobID ` chain s root - set (c # V)) < card (mlSourceJobID ` chain s root - set V)"
      using fin by (intro psubset_card_mono) auto
    have uniq: "\<forall>k \<in> chain s root. mlSourceJobID k = c \<longrightarrow> k = l"
      using one_per_source[OF inv] l by (auto simp: chain_def)
    have "\<exists>es'. history_loop b (c # V) (mlRetryJobID l) (es @ [history_entry l]) = Inr es'
        \<and> length es' = card (chain s root) \<and> set es' = history_entry ` chain s root"
    proof (rule less.hyps[OF m])
      show "\<forall>v \<in> set (c # V). rank v < rank (mlRetryJobID l)" using prems(1) lt by fastforce
      show "distinct (c # V)" using prems(2) cV by simp
      show "set (c # V) \<subseteq> mlSourceJobID ` chain s root" using prems(3) l by auto
      show "root \<in> insert (mlRetryJobID l) (set (c # V))" using prems(4) by auto
      show "\<forall>k \<in> chain s root. mlSourceJobID k \<in> set (c # V) \<longrightarrow> mlRetryJobID k \<in> insert (mlRetryJobID l) (set (c # V))"
        using prems(5) uniq by (metis insert_iff list.simps(15))
      show "length (es @ [history_entry l]) = length (c # V)" using prems(6) by simp
      have "{k \<in> chain s root. mlSourceJobID k \<in> set (c # V)} = insert l {k \<in> chain s root. mlSourceJobID k \<in> set V}"
        unfolding list.set(2) using uniq l by blast
      then show "set (es @ [history_entry l]) = history_entry ` {k \<in> chain s root. mlSourceJobID k \<in> set (c # V)}"
        using prems(7) by simp
    qed
    then show ?thesis using Some cV by (simp add: history_loop.simps[of b V c])
  qed
qed

lemma root_lookup:
  assumes "inv s"
  shows "(case by_retry None i s of Inr parent \<Rightarrow> Inr (mlRootJobID parent)
      | Inl e \<Rightarrow> if e = ErrManualRetryLineageNotFound then Inr i else Inl e) = Inr (root_of s i)"
  using by_retry_found[OF assms] by_retry_missing[OF assms, of i]
  by (cases "i \<in> mlRetryJobID ` recorded s") (auto simp: root_of_def)

lemma root_of_valid:
  assumes "inv s" "valid_identifier i"
  shows "valid_identifier (root_of s i)"
  using assms by_retry_found[OF assms(1)] root_valid[OF assms(1)] by (auto simp: root_of_def)

lemma retried_in_chain:
  assumes "inv s" "l \<in> recorded s"
  shows "mlRootJobID l = root_of s (mlSourceJobID l)"
  using root_inherited[OF assms]
proof
  assume "\<exists>p \<in> recorded s. mlRetryJobID p = mlSourceJobID l \<and> mlRootJobID p = mlRootJobID l"
  then obtain p where p: "p \<in> recorded s" "mlRetryJobID p = mlSourceJobID l" "mlRootJobID p = mlRootJobID l"
    by blast
  have "mlSourceJobID l \<in> mlRetryJobID ` recorded s" using p(1,2) by (metis imageI)
  then show ?thesis using by_retry_found[OF assms(1) p(1)] p(2,3) by (simp add: root_of_def)
qed (simp add: root_of_def)

lemma build_evidence:
  assumes inv: "inv s" and src: "valid_identifier (jID source)" "jVersion source \<noteq> 0" "jUpdatedAt source \<noteq> 0"
    and obs: "observedAt \<noteq> 0" "jUpdatedAt source \<le> observedAt"
    and root: "root = root_of s (jID source)"
  shows "\<exists>entries. set entries = history_entry ` chain s root \<and> length entries = card (chain s root)
    \<and> BuildManualRetryHistoryEvidence None (Some (reader s)) source observedAt =
      (if card (chain s root) > MaxManualRetryHistoryEntries
         then Inl (ErrInvalidManualRetryHistory ''retry history exceeds bounded evidence size'')
       else case history_payload root entries of
         None \<Rightarrow> Inl (ErrInvalidManualRetryHistory ''encode retry history'')
       | Some encoded \<Rightarrow> Inr
          \<lparr>heContractVersion = ManualRetryHistoryContractVersion, heRootJobID = root,
           heSourceJobID = jID source, heSourceJobVersion = jVersion source,
           heUsedManualRetries = of_nat (card (chain s root)),
           heSourceAlreadyRetried = (jID source \<in> mlSourceJobID ` recorded s),
           heDigest = ''sha256:'' @ sha256_hex encoded, heObservedAt = observedAt\<rparr>)"
proof -
  have rv: "valid_identifier root" using root_of_valid[OF inv src(1)] root by simp
  obtain ls where ls: "by_root None root s = Inr ls" "distinct ls" "set ls = chain s root"
    using by_root_lists[OF inv rv] unfolding chain_def by blast
  have len: "length ls = card (chain s root)" using distinct_card[OF ls(2)] ls(3) by simp
  obtain b where b: "index_lineage root ls [] = Inr b"
      "\<forall>i l. gget b i = Some l \<longleftrightarrow> l \<in> chain s root \<and> mlSourceJobID l = i"
    using index_chain[OF inv ls(2), of root "[]"] ls(3) by auto
  obtain rank :: "string \<Rightarrow> nat" where rank: "\<forall>l \<in> recorded s. rank (mlSourceJobID l) < rank (mlRetryJobID l)"
    using made_later[OF inv] by blast
  have "finite (chain s root)" using ls(3) by (metis List.finite_set)
  then obtain es where es: "history_loop b [] root [] = Inr es" "length es = card (chain s root)"
      "set es = history_entry ` chain s root"
    using follow_chain[OF inv _ b(2) rank, of "[]" root "[]"] by auto
  have "gget b (jID source) \<noteq> None \<longleftrightarrow> jID source \<in> mlSourceJobID ` recorded s"
    using b(2) retried_in_chain[OF inv] root by (force simp: chain_def)
  moreover have "validateManualRetryIdentifier ''source job id'' (jID source) = Inr ()"
      "validateManualRetryIdentifier ''root job id'' root = Inr ()"
    using src(1) rv by simp_all
  ultimately show ?thesis
    using src(2,3) obs es(2,3)
    by (intro exI[of _ es]) (simp add: BuildManualRetryHistoryEvidence_def reader_def root_lookup[OF inv]
        root[symmetric] ls(1) len b(1) es(1) split: option.split del: validateManualRetryIdentifier_Inr)
qed

end

subsection \<open>The memory repository is such a reader\<close>

definition retry_records :: "MemoryManualRetryRepository \<Rightarrow> ManualRetryLineage set" where
  "retry_records r = {l. gget (mmByRetryJob r) (mlRetryJobID l) = Some l}"

definition retry_chain :: "MemoryManualRetryRepository \<Rightarrow> string \<Rightarrow> ManualRetryLineage set" where
  "retry_chain r root = {l \<in> retry_records r. mlRootJobID l = root}"

definition memory_reader :: "MemoryManualRetryRepository \<Rightarrow> ManualRetryLineageReader" where
  "memory_reader r = \<lparr>lrGet = (\<lambda>ctx i. GetManualRetryLineageByRetryJob ctx i r),
     lrList = (\<lambda>ctx i. ListManualRetryLineage ctx i r)\<rparr>"

lemma retry_record_lookup:
  assumes "manual_inv r"
  shows "gget (mmByRetryJob r) i = Some l \<longleftrightarrow> l \<in> retry_records r \<and> mlRetryJobID l = i"
  using manual_invD(4)[OF assms, of i l] by (auto simp: retry_records_def)

lemma one_record_per_source:
  assumes inv: "manual_inv r" and "l \<in> retry_records r" "l' \<in> retry_records r" "mlSourceJobID l = mlSourceJobID l'"
  shows "l = l'"
proof -
  have d: "lineage_jobs (mmJobs r) l" "gget (mmBySource r) (lineage_key l) = Some l"
    "lineage_jobs (mmJobs r) l'" "gget (mmBySource r) (lineage_key l') = Some l'"
    using manual_invD(4)[OF inv] assms(2,3) by (auto simp: retry_records_def)
  then have "mlSourceJobVersion l = mlSourceJobVersion l'" using assms(4) by (auto simp: lineage_jobs_def)
  then show ?thesis using d(2,4) assms(4) by (simp add: lineage_key_def)
qed

lemma ListManualRetryLineage_chain:
  assumes inv: "manual_inv r" and root: "valid_identifier root"
  shows "\<exists>ls. ListManualRetryLineage None root r = Inr ls \<and> distinct ls
     \<and> set ls = {l \<in> retry_records r. mlRootJobID l = root}"
proof -
  let ?all = "map (\<lambda>(_, rec). rrLineage rec) (mmByAdmission r)"
  have rec: "gget (mmByAdmission r) a = Some rec" if "(a, rec) \<in> set (mmByAdmission r)" for a rec
    using that gmap_ok_gget_iff[OF manual_invD(2)[OF inv]] by blast
  have adm: "map mlReviewedAdmissionID ?all = gkeys (mmByAdmission r)"
    using manual_invD(3)[OF inv rec] by auto
  have "distinct ?all"
    using manual_invD(2)[OF inv] unfolding gmap_ok_def adm[symmetric] distinct_map by (rule conjunct1)
  moreover have "set ?all = retry_records r"
  proof
    show "set ?all \<subseteq> retry_records r"
      using manual_invD(3)[OF inv rec] by (auto simp: retry_records_def)
    show "retry_records r \<subseteq> set ?all"
    proof
      fix l assume "l \<in> retry_records r"
      then obtain rec where "gget (mmByAdmission r) (mlReviewedAdmissionID l) = Some rec" "rrLineage rec = l"
        using manual_invD(4)[OF inv] by (auto simp: retry_records_def)
      then show "l \<in> set ?all" by (force dest: map_of_SomeD)
    qed
  qed
  moreover have "validateManualRetryIdentifier ''root job id'' root = Inr ()" using root by simp
  ultimately show ?thesis
    by (simp add: ListManualRetryLineage_def del: validateManualRetryIdentifier_Inr)
qed

interpretation mem: lineage_reader manual_inv GetManualRetryLineageByRetryJob ListManualRetryLineage retry_records
proof unfold_locales
  fix r l i root l'
  assume inv: "manual_inv r"
  note look = retry_record_lookup[OF inv]
  show "l \<in> retry_records r \<Longrightarrow> GetManualRetryLineageByRetryJob None (mlRetryJobID l) r = Inr l"
    by (simp add: GetManualRetryLineageByRetryJob_def retry_records_def)
  show "i \<notin> mlRetryJobID ` retry_records r
      \<Longrightarrow> GetManualRetryLineageByRetryJob None i r = Inl ErrManualRetryLineageNotFound"
    using look[of i, THEN iffD1]
    by (cases "gget (mmByRetryJob r) i") (auto simp: GetManualRetryLineageByRetryJob_def)
  show "valid_identifier root \<Longrightarrow> \<exists>ls. ListManualRetryLineage None root r = Inr ls \<and> distinct ls
      \<and> set ls = {l \<in> retry_records r. mlRootJobID l = root}"
    using ListManualRetryLineage_chain[OF inv] .
  show "l \<in> retry_records r \<Longrightarrow> l' \<in> retry_records r \<Longrightarrow> mlSourceJobID l = mlSourceJobID l' \<Longrightarrow> l = l'"
    using one_record_per_source[OF inv] .
  show "l \<in> retry_records r \<Longrightarrow> lineage_fields l"
    using manual_invD(4)[OF inv] by (auto simp: retry_records_def)
  show "\<exists>rank :: string \<Rightarrow> nat. \<forall>l \<in> retry_records r. rank (mlSourceJobID l) < rank (mlRetryJobID l)"
    using manual_invD(6)[OF inv] by (auto simp: retry_records_def)
  show "mlRootJobID l = mlSourceJobID l \<and> mlSourceJobID l \<notin> mlRetryJobID ` retry_records r
      \<or> (\<exists>p \<in> retry_records r. mlRetryJobID p = mlSourceJobID l \<and> mlRootJobID p = mlRootJobID l)"
    if l: "l \<in> retry_records r"
  proof (cases "gget (mmByRetryJob r) (mlSourceJobID l)")
    case None
    then show ?thesis
      using l manual_invD(4)[OF inv, of "mlRetryJobID l" l] by (force simp: retry_records_def retry_root_def)
  next
    case (Some p)
    then show ?thesis
      using l look[of "mlSourceJobID l" p] manual_invD(4)[OF inv, of "mlRetryJobID l" l]
      by (auto simp: retry_records_def retry_root_def)
  qed
qed

lemma mem_root: "manual_inv r \<Longrightarrow> mem.root_of r i = retry_root r i"
  using mem.root_lookup[of r i]
  by (auto simp: retry_root_def GetManualRetryLineageByRetryJob_def split: option.splits)

lemma mem_reader: "mem.reader r = memory_reader r"
  by (simp add: mem.reader_def memory_reader_def)

lemma mem_chain: "mem.chain r root = retry_chain r root"
  by (simp add: mem.chain_def retry_chain_def)

subsection \<open>Properties of manual retries\<close>

abbreviation retry_reachable :: "MemoryManualRetryRepository \<Rightarrow> bool" where
  "retry_reachable r \<equiv> retry_step\<^sup>*\<^sup>* (NewMemoryManualRetryRepository NewMemoryRepository) r"

lemma retry_reachable_inv: "retry_reachable r \<Longrightarrow> manual_inv r"
  using retry_sys.reach_inv by blast

text \<open>A concrete run: a job with one attempt fails, and an operator retries it.\<close>

definition x_request :: CreateRequest where
  "x_request = w_request\<lparr>crMaxAttempts := 1\<rparr>"

definition x_claimed :: Job where
  "x_claimed = claim_job ''worker-1'' 20 100 (new_job x_request)"

definition x_failed :: Job where
  "x_failed = x_claimed\<lparr>jLastError := ''boom'', jOutput := Some empty_output, jLease := None,
     jStatus := StatusFailed, jNextAttemptAt := 0, jUpdatedAt := 30, jVersion := 3\<rparr>"

definition x_ops :: "(ctx \<times> repo_op) list" where
  "x_ops = [(None, OpCreate x_request), (None, OpClaim ''worker-1'' 20 100),
     (None, OpFail ''job-1'' (leaseToken x_claimed ''worker-1'' 20) ''boom'' empty_output
        \<lparr>rpBaseDelay = 0, rpMaxDelay = 0\<rparr> 30)]"

definition x_repo :: MemoryManualRetryRepository where
  "x_repo = NewMemoryManualRetryRepository (run_ops x_ops NewMemoryRepository)"

definition x_digest :: string where
  "x_digest = ''sha256:'' @ replicate 64 (CHR ''a'')"

definition x_retry :: ManualRetryRequest where
  "x_retry = \<lparr>mqSourceJobID = ''job-1'', mqExpectedSourceVersion = 3, mqRetryJobID = ''job-2'',
     mqRetryIdempotencyKey = ''key-2'', mqReviewedAdmissionID = x_digest, mqRevalidationAdmissionID = x_digest,
     mqRevisionID = ''rev-1'', mqRevisionDigest = x_digest, mqPolicyID = ''policy-1'', mqPolicyDigest = x_digest,
     mqRetryHistoryDigest = x_digest, mqApprovalEvidenceDigest = [], mqRequestedAt = 50\<rparr>"

lemma x_request_simps [simp]: "crID x_request = ''job-1''" "crIdempotencyKey x_request = ''key-1''"
  "crMaxAttempts x_request = 1" "crInput x_request = ''{}''"
  by (simp_all add: x_request_def w_request_def)

lemma x_claimed_simps [simp]: "jID x_claimed = ''job-1''" "jStatus x_claimed = StatusRunning"
  "jVersion x_claimed = 2" "jAttempt x_claimed = 1" "jMaxAttempts x_claimed = 1"
  "jLease x_claimed = Some \<lparr>lToken = leaseToken x_claimed ''worker-1'' 20, lWorkerID = ''worker-1'', lExpiresAt = 120\<rparr>"
  by (simp_all add: x_claimed_def)

lemma x_created: "Create None x_request NewMemoryRepository
    = (\<lparr>mrJobs = [(''job-1'', new_job x_request)],
        mrIdempotency = [(''key-1'', \<lparr>irJobID = ''job-1'', irFingerprint = fingerprint x_request\<rparr>)]\<rparr>,
       Inr (new_job x_request, True))"
  by (simp add: Create_def NewMemoryRepository_def x_request_def w_request_def Let_def)

lemma x_run: "run_ops x_ops NewMemoryRepository
    = \<lparr>mrJobs = [(''job-1'', x_failed)],
       mrIdempotency = [(''key-1'', \<lparr>irJobID = ''job-1'', irFingerprint = fingerprint x_request\<rparr>)]\<rparr>"
  by (simp add: x_ops_def apply_op_def x_created Claim_def claim_ids_def cancel_expired_def eligible_def Let_def
      x_claimed_def[symmetric])
    (simp add: Fail_def leased_def store_job_def x_failed_def Let_def)

lemma retry_steps_run_ops:
  "retry_step\<^sup>*\<^sup>* r (r\<lparr>mmJobs := run_ops ops (mmJobs r)\<rparr>)"
proof (induction ops arbitrary: r)
  case (Cons op ops)
  obtain ctx o' where op: "op = (ctx, o')" by (cases op)
  let ?r = "r\<lparr>mmJobs := apply_op ctx o' (mmJobs r)\<rparr>"
  have "retry_step r ?r" using retry_step.intros[of r ctx "JobOp o'"] by (simp add: apply_retry_op_def)
  then show ?case using Cons.IH[of ?r] unfolding op by (simp add: converse_rtranclp_into_rtranclp)
qed simp

lemma x_repo_reachable: "retry_reachable x_repo"
  using retry_steps_run_ops[of "NewMemoryManualRetryRepository NewMemoryRepository" x_ops]
  by (simp add: x_repo_def NewMemoryManualRetryRepository_def)

lemma x_digest_valid: "validManualRetryDigest x_digest"
  by (simp add: validManualRetryDigest_def x_digest_def HasPrefix_def list_all_iff less_char_def)

lemma x_retry_valid: "ValidateManualRetryRequest x_retry = Inr ()"
  by (simp add: ValidateManualRetryRequest_def require_digest_def x_retry_def x_digest_valid valid_identifier_def
      canonical_def MaxManualRetryIdentifierLength_def trim_defs)

lemma x_created_retry: "CreateManualRetry None x_retry x_repo
    = (store_retry x_retry x_failed (sha256_hex (nul_terminated (retry_fingerprint_values x_retry))) x_repo,
       Inr (new_job (retry_create_request x_retry x_failed), retry_lineage x_retry x_failed ''job-1'', True))"
  by (simp add: CreateManualRetry_def ManualRetryRequestFingerprint_def x_retry_valid x_repo_def x_run
      NewMemoryManualRetryRepository_def retry_root_def)
    (simp add: x_retry_def x_failed_def)

lemma x_source: "gget (mrJobs (mmJobs x_repo)) (mqSourceJobID x_retry) = Some x_failed"
  by (simp add: x_repo_def x_run NewMemoryManualRetryRepository_def x_retry_def)

lemma x_admissions: "gget (mmByAdmission (fst (CreateManualRetry None x_retry x_repo))) a
    = (if a = x_digest then Some \<lparr>rrFingerprint = sha256_hex (nul_terminated (retry_fingerprint_values x_retry)),
         rrLineage = retry_lineage x_retry x_failed ''job-1''\<rparr> else None)"
  unfolding x_created_retry
  by (simp add: store_retry_def x_repo_def NewMemoryManualRetryRepository_def retry_root_def Let_def)
    (simp add: x_retry_def x_failed_def)

text \<open>
  C6: A manual retry creates exactly one fresh job and touches nothing else, and a failed job is
  retried at most once: when a retry is accepted, its source is a failed job at the reviewed version,
  the child is queued with the change, action, input and attempt limit of the source, every other
  job keeps its state; and in every later state the source job is still unchanged and another
  admission to retry the same version is refused.
\<close>

theorem manual_retry_once:
  assumes "retry_reachable r" "CreateManualRetry ctx q r = (r', Inr (retry, l, True))" "retry_step\<^sup>*\<^sup>* r' r''"
  shows "\<exists>source. gget (mrJobs (mmJobs r)) (mqSourceJobID q) = Some source \<and> jStatus source = StatusFailed
    \<and> jVersion source = mqExpectedSourceVersion q
    \<and> retry = new_job (retry_create_request q source) \<and> gget (mrJobs (mmJobs r)) (jID retry) = None
    \<and> (\<forall>i. gget (mrJobs (mmJobs r')) i = (if i = jID retry then Some retry else gget (mrJobs (mmJobs r)) i))
    \<and> gget (mrJobs (mmJobs r'')) (mqSourceJobID q) = Some source
    \<and> (\<forall>q'. ValidateManualRetryRequest q' = Inr () \<and> gget (mmByAdmission r'') (mqReviewedAdmissionID q') = None
          \<and> mqSourceJobID q' = mqSourceJobID q \<and> mqExpectedSourceVersion q' = mqExpectedSourceVersion q
        \<longrightarrow> CreateManualRetry None q' r'' = (r'', Inl ErrManualRetrySourceAlreadyRetried))"
proof -
  have inv: "manual_inv r" using retry_reachable_inv[OF assms(1)] .
  have inv': "manual_inv r'" using CreateManualRetry_inv[OF inv, of ctx q] assms(2) by simp
  have inv'': "manual_inv r''" using retry_sys.steps_inv[OF assms(3) inv'] .
  obtain source where s: "gget (mrJobs (mmJobs r)) (mqSourceJobID q) = Some source" "jID source = mqSourceJobID q"
      "jVersion source = mqExpectedSourceVersion q" "jStatus source = StatusFailed"
      "gget (mrJobs (mmJobs r)) (mqRetryJobID q) = None" "retry = new_job (retry_create_request q source)"
      "\<forall>i. gget (mrJobs (mmJobs r')) i = (if i = mqRetryJobID q then Some retry else gget (mrJobs (mmJobs r)) i)"
      "gget (mmBySource r') (manualRetrySourceKey (mqSourceJobID q) (mqExpectedSourceVersion q)) = Some l"
    using CreateManualRetry_True[OF inv assms(2)] by blast
  have ne: "mqSourceJobID q \<noteq> mqRetryJobID q" using s(1,5) by auto
  have src'': "gget (mrJobs (mmJobs r'')) (mqSourceJobID q) = Some source"
    using ne retry_terminal.frozen_steps[OF assms(3) inv', of "mqSourceJobID q" source] s by (auto simp: Terminal_def)
  have taken: "gget (mmBySource r'') (manualRetrySourceKey (mqSourceJobID q) (mqExpectedSourceVersion q)) = Some l"
    using recorded_source.frozen_steps[OF assms(3) inv' s(8)] .
  have ok: "job_ok source" using repo_invD(4)[OF manual_invD(1)[OF inv''] src''] .
  have "CreateManualRetry None q' r'' = (r'', Inl ErrManualRetrySourceAlreadyRetried)"
    if "ValidateManualRetryRequest q' = Inr ()" "gget (mmByAdmission r'') (mqReviewedAdmissionID q') = None"
      "mqSourceJobID q' = mqSourceJobID q" "mqExpectedSourceVersion q' = mqExpectedSourceVersion q" for q'
    using that src'' s(2-4) taken ok
    by (simp add: CreateManualRetry_def ManualRetryRequestFingerprint_def job_ok_def)
  then show ?thesis using s src'' by auto
qed

theorem manual_retry_once_witness:
  "retry_reachable x_repo
   \<and> (let r' = fst (CreateManualRetry None x_retry x_repo) in
      gget (mrJobs (mmJobs r')) ''job-1'' = Some x_failed
      \<and> CreateManualRetry None (x_retry\<lparr>mqReviewedAdmissionID := ''sha256:'' @ replicate 64 (CHR ''b''), mqRetryJobID := ''job-3''\<rparr>) r'
         = (r', Inl ErrManualRetrySourceAlreadyRetried))"
proof -
  let ?q = "x_retry\<lparr>mqReviewedAdmissionID := ''sha256:'' @ replicate 64 (CHR ''b''), mqRetryJobID := ''job-3''\<rparr>"
  let ?r = "fst (CreateManualRetry None x_retry x_repo)"
  have c: "CreateManualRetry None x_retry x_repo = (?r, Inr (new_job (retry_create_request x_retry x_failed),
      retry_lineage x_retry x_failed ''job-1'', True))" by (simp add: x_created_retry)
  have "ValidateManualRetryRequest ?q = Inr ()"
    by (simp add: ValidateManualRetryRequest_def require_digest_def x_retry_def x_digest_valid valid_identifier_def
        canonical_def MaxManualRetryIdentifierLength_def trim_defs)
      (simp add: validManualRetryDigest_def HasPrefix_def list_all_iff less_char_def)
  moreover have "gget (mmByAdmission ?r) (mqReviewedAdmissionID ?q) = None"
    unfolding x_admissions by (simp add: x_digest_def)
  moreover have "mqSourceJobID ?q = mqSourceJobID x_retry" "mqExpectedSourceVersion ?q = mqExpectedSourceVersion x_retry"
    "mqSourceJobID x_retry = ''job-1''"
    by (simp_all add: x_retry_def)
  ultimately show ?thesis
    using manual_retry_once[OF x_repo_reachable c rtranclp.rtrancl_refl] x_repo_reachable x_source
    unfolding Let_def by (metis option.inject)
qed

text \<open>
  An accepted retry is idempotent under its reviewed admission. In every later state, a valid
  request for the same admission changes nothing; if it repeats the reviewed values it returns the
  lineage recorded at first and the child as it is by then, with \<^verbatim>\<open>created\<close> false, whatever its request
  time and revalidation; otherwise it is refused as a conflict, or the two value lists are a
  collision of SHA-256.
\<close>

lemma manual_retry_replay:
  assumes "retry_reachable r" "CreateManualRetry ctx q r = (r', Inr (retry, l, True))" "retry_step\<^sup>*\<^sup>* r' r''"
    and "ValidateManualRetryRequest q' = Inr ()" "mqReviewedAdmissionID q' = mqReviewedAdmissionID q"
  shows "\<exists>j. gget (mrJobs (mmJobs r'')) (jID retry) = Some j \<and> job_identity j = job_identity retry
    \<and> (if nul_terminated (retry_fingerprint_values q') = nul_terminated (retry_fingerprint_values q)
       then CreateManualRetry None q' r'' = (r'', Inr (j, l, False))
       else CreateManualRetry None q' r'' = (r'', Inl ErrManualRetryAdmissionConflict)
         \<or> sha256_collision (nul_terminated (retry_fingerprint_values q')) (nul_terminated (retry_fingerprint_values q)))"
proof -
  have inv: "manual_inv r" using retry_reachable_inv[OF assms(1)] .
  have inv': "manual_inv r'" using CreateManualRetry_inv[OF inv, of ctx q] assms(2) by simp
  let ?rec = "\<lparr>rrFingerprint = sha256_hex (nul_terminated (retry_fingerprint_values q)), rrLineage = l\<rparr>"
  have d: "gget (mmByAdmission r') (mqReviewedAdmissionID q) = Some ?rec" "jID retry = mqRetryJobID q"
      "mlRetryJobID l = mqRetryJobID q" "gget (mrJobs (mmJobs r')) (mqRetryJobID q) = Some retry"
    using CreateManualRetry_True[OF inv assms(2)] by auto
  have rec: "gget (mmByAdmission r'') (mqReviewedAdmissionID q) = Some ?rec"
    using recorded_admission.frozen_steps[OF assms(3) inv' d(1)] .
  obtain j where j: "gget (mrJobs (mmJobs r'')) (mqRetryJobID q) = Some j" "job_identity j = job_identity retry"
    using retry_child.frozen_steps[OF assms(3) inv', of "mqRetryJobID q" "job_identity retry"] d(4) by blast
  show ?thesis
    using rec j d(2,3) assms(4,5)
    by (auto simp: CreateManualRetry_def ManualRetryRequestFingerprint_def sha256_collision_def)
qed

text \<open>
  C26: The history of a retry chain can always be proved. For every job with a canonical id, read
  from any reachable state of the memory repository at a time not before its last update, the
  evidence builder meets no fork, no cycle and no disconnected entry: it fails only when the chain has
  more than 64 records or holds a time that JSON cannot express, and otherwise reports the root,
  the exact number of retries of the chain and whether the job itself has been retried.
\<close>

theorem retry_history_evidence:
  assumes "retry_reachable r" "valid_identifier (jID source)" "jVersion source \<noteq> 0" "jUpdatedAt source \<noteq> 0"
    and "observedAt \<noteq> 0" "jUpdatedAt source \<le> observedAt"
    and "chain = retry_chain r (retry_root r (jID source))"
  shows "\<exists>entries. set entries = history_entry ` chain \<and> length entries = card chain
    \<and> BuildManualRetryHistoryEvidence None (Some (memory_reader r)) source observedAt =
      (if card chain > MaxManualRetryHistoryEntries
         then Inl (ErrInvalidManualRetryHistory ''retry history exceeds bounded evidence size'')
       else case history_payload (retry_root r (jID source)) entries of
         None \<Rightarrow> Inl (ErrInvalidManualRetryHistory ''encode retry history'')
       | Some encoded \<Rightarrow> Inr
          \<lparr>heContractVersion = ManualRetryHistoryContractVersion, heRootJobID = retry_root r (jID source),
           heSourceJobID = jID source, heSourceJobVersion = jVersion source,
           heUsedManualRetries = of_nat (card chain),
           heSourceAlreadyRetried = (jID source \<in> mlSourceJobID ` retry_records r),
           heDigest = ''sha256:'' @ sha256_hex encoded, heObservedAt = observedAt\<rparr>)"
  using mem.build_evidence[OF retry_reachable_inv[OF assms(1)] assms(2-6) refl]
  unfolding mem_root[OF retry_reachable_inv[OF assms(1)]] mem_reader mem_chain assms(7) .

theorem retry_history_evidence_witness:
  "retry_reachable x_repo
   \<and> (\<exists>d. BuildManualRetryHistoryEvidence None (Some (memory_reader x_repo)) x_failed 60 = Inr
        \<lparr>heContractVersion = ManualRetryHistoryContractVersion, heRootJobID = ''job-1'', heSourceJobID = ''job-1'',
         heSourceJobVersion = 3, heUsedManualRetries = 0, heSourceAlreadyRetried = False, heDigest = d, heObservedAt = 60\<rparr>)"
proof -
  have none: "retry_records x_repo = {}"
    by (simp add: retry_records_def x_repo_def NewMemoryManualRetryRepository_def)
  have root: "retry_root x_repo ''job-1'' = ''job-1''"
    by (simp add: retry_root_def x_repo_def NewMemoryManualRetryRepository_def)
  have f: "valid_identifier (jID x_failed)" "jVersion x_failed \<noteq> 0" "jUpdatedAt x_failed \<noteq> 0" "jID x_failed = ''job-1''"
    "jVersion x_failed = 3" "jUpdatedAt x_failed \<le> 60"
    by (simp_all add: x_failed_def valid_identifier_def canonical_def MaxManualRetryIdentifierLength_def trim_defs)
  from retry_history_evidence[OF x_repo_reachable f(1-3) _ f(6) refl] show ?thesis
    using x_repo_reachable
    by (auto simp: f retry_chain_def none root history_payload_def MaxManualRetryHistoryEntries_def)
qed

end
