(* ===== verification/Policy.thy ===== *)
theory Policy
  imports Go_Strings
begin

text \<open>
  Package \<^verbatim>\<open>internal/orchestration/policy\<close>: risk classes, policy decisions, the threshold
  evaluator and the approval check behind every change. \<^verbatim>\<open>Risk\<close> and \<^verbatim>\<open>Effect\<close> are string types
  in the source: the last constructor of each datatype stands for any other string.
\<close>

datatype Risk = RiskLow | RiskMedium | RiskHigh | RiskCritical | RiskOther string

definition Risk_Valid :: "Risk \<Rightarrow> bool" where
  "Risk_Valid r = (case r of RiskLow \<Rightarrow> True | RiskMedium \<Rightarrow> True | RiskHigh \<Rightarrow> True
     | RiskCritical \<Rightarrow> True | RiskOther _ \<Rightarrow> False)"

datatype Effect = EffectAllow | EffectDeny | EffectOther string

record ApprovalRequirement =
  rMinimum :: int
  rPermission :: string
  rDistinctActors :: bool
  rProhibitRequester :: bool

datatype policy_error =
    PolicyMsg string
  | InsufficientApprovals int int  \<comment> \<open>have, require\<close>

definition ApprovalRequirement_Validate :: "ApprovalRequirement \<Rightarrow> policy_error + unit" where
  "ApprovalRequirement_Validate r =
     (if rMinimum r < 0 then Inl (PolicyMsg ''minimum approvals cannot be negative'')
      else if rPermission r \<noteq> TrimSpace (rPermission r)
        then Inl (PolicyMsg ''approval permission must be canonical'')
      else if rMinimum r > 0 \<and> rPermission r = []
        then Inl (PolicyMsg ''approval permission is required'')
      else Inr ())"

record Decision =
  dEffect :: Effect
  dRisk :: Risk
  dReason :: string
  dRequirement :: ApprovalRequirement
  dPolicyID :: string

definition Decision_Validate :: "Decision \<Rightarrow> policy_error + unit" where
  "Decision_Validate d =
     (if dEffect d \<noteq> EffectAllow \<and> dEffect d \<noteq> EffectDeny
        then Inl (PolicyMsg ''invalid policy effect'')
      else if \<not> Risk_Valid (dRisk d) then Inl (PolicyMsg ''invalid risk'')
      else if dPolicyID d = [] \<or> dReason d = []
        then Inl (PolicyMsg ''policy id and reason are required'')
      else ApprovalRequirement_Validate (dRequirement d))"

record EvaluationInput =
  eiAction :: string
  eiRequester :: string
  eiRisk :: Risk
  eiPermissions :: "string list"

record ThresholdEvaluator =
  tePolicyID :: string
  teApprovalPermission :: string
  teDeniedActions :: "(string \<times> string) list"

definition zero_requirement :: ApprovalRequirement where
  "zero_requirement = \<lparr>rMinimum = 0, rPermission = [], rDistinctActors = False, rProhibitRequester = False\<rparr>"

definition zero_decision :: Decision where
  "zero_decision = \<lparr>dEffect = EffectOther [], dRisk = RiskOther [], dReason = [],
     dRequirement = zero_requirement, dPolicyID = []\<rparr>"

definition required_approvals :: "Risk \<Rightarrow> int" where
  "required_approvals r = (case r of RiskHigh \<Rightarrow> 1 | RiskCritical \<Rightarrow> 2 | _ \<Rightarrow> 0)"

text \<open>
  The evaluator returns its decision together with the error of validating it, so the result is
  a pair, as in the source: a decision is handed back also when the error is set.
\<close>

definition Threshold_Evaluate ::
    "ThresholdEvaluator \<Rightarrow> EvaluationInput \<Rightarrow> Decision \<times> policy_error option" where
  "Threshold_Evaluate e i =
     (if eiAction i = [] \<or> eiRequester i = [] \<or> \<not> Risk_Valid (eiRisk i)
      then (zero_decision, Some (PolicyMsg ''action, requester, and valid risk are required''))
      else case gget (teDeniedActions e) (eiAction i) of
        Some reason \<Rightarrow>
          (\<lparr>dEffect = EffectDeny, dRisk = eiRisk i, dReason = reason,
            dRequirement = zero_requirement, dPolicyID = tePolicyID e\<rparr>, None)
      | None \<Rightarrow>
          let required = required_approvals (eiRisk i);
              decision = \<lparr>dEffect = EffectAllow, dRisk = eiRisk i,
                dReason = ''risk threshold policy satisfied'',
                dRequirement = \<lparr>rMinimum = required, rPermission = teApprovalPermission e,
                  rDistinctActors = True, rProhibitRequester = required > 0\<rparr>,
                dPolicyID = tePolicyID e\<rparr>
          in (decision, case Decision_Validate decision of Inl err \<Rightarrow> Some err | Inr _ \<Rightarrow> None))"

subsection \<open>Approvals\<close>

record Approval =
  aActor :: string
  aPermissions :: "string list"
  aApprovedAt :: "time"

definition sortedCopy :: "string list \<Rightarrow> string list" where
  "sortedCopy values = sort values"

definition contains :: "string list \<Rightarrow> string \<Rightarrow> bool" where
  "contains values wanted =
     (let copy = sortedCopy values; i = SearchStrings copy wanted
      in i < length copy \<and> copy ! i = wanted)"

fun approvals_loop ::
    "string \<Rightarrow> ApprovalRequirement \<Rightarrow> string list \<Rightarrow> int \<Rightarrow> Approval list \<Rightarrow> int" where
  "approvals_loop requester req seen valid [] = valid"
| "approvals_loop requester req seen valid (a # as) =
     (if TrimSpace (aActor a) = [] \<or> aActor a \<noteq> TrimSpace (aActor a) \<or> IsZero (aApprovedAt a)
        then approvals_loop requester req seen valid as
      else if rProhibitRequester req \<and> aActor a = requester
        then approvals_loop requester req seen valid as
      else if rDistinctActors req \<and> aActor a \<in> set seen
        then approvals_loop requester req seen valid as
      else
        let seen' = (if rDistinctActors req then aActor a # seen else seen) in
        if rPermission req \<noteq> [] \<and> \<not> contains (aPermissions a) (rPermission req)
          then approvals_loop requester req seen' valid as
        else approvals_loop requester req seen' (valid + 1) as)"

definition CheckApprovals ::
    "string \<Rightarrow> ApprovalRequirement \<Rightarrow> Approval list \<Rightarrow> policy_error + unit" where
  "CheckApprovals requester req approvals =
     (case ApprovalRequirement_Validate req of
        Inl e \<Rightarrow> Inl e
      | Inr _ \<Rightarrow>
          if rProhibitRequester req \<and> (TrimSpace requester = [] \<or> requester \<noteq> TrimSpace requester)
          then Inl (PolicyMsg ''canonical requester is required for requester-prohibited approval policy'')
          else
            let valid = approvals_loop requester req [] 0 approvals in
            if valid < rMinimum req then Inl (InsufficientApprovals valid (rMinimum req))
            else Inr ())"

lemma approvals_loop_Cons:
  "approvals_loop requester req seen valid (a # as) =
     (if \<not> canonical (aActor a) \<or> IsZero (aApprovedAt a)
          \<or> rProhibitRequester req \<and> aActor a = requester
          \<or> rDistinctActors req \<and> aActor a \<in> set seen
        then approvals_loop requester req seen valid as
      else approvals_loop requester req (if rDistinctActors req then aActor a # seen else seen)
             (if rPermission req \<noteq> [] \<and> \<not> contains (aPermissions a) (rPermission req)
              then valid else valid + 1) as)"
proof (cases "canonical (aActor a)")
  case True
  then have "TrimSpace (aActor a) = aActor a" "aActor a \<noteq> []"
    using canonical_nonempty by (auto simp: canonical_def)
  then show ?thesis using True by (simp add: Let_def)
next
  case False
  then have "TrimSpace (aActor a) = [] \<or> aActor a \<noteq> TrimSpace (aActor a)"
    using not_canonical_iff(1) by blast
  then have "approvals_loop requester req seen valid (a # as) = approvals_loop requester req seen valid as"
    by (subst approvals_loop.simps) (metis (no_types))
  then show ?thesis using False by simp
qed

declare approvals_loop.simps(2) [simp del]

subsection \<open>Membership by sorted search\<close>

lemma contains_iff [simp]: "contains values wanted \<longleftrightarrow> wanted \<in> set values"
  using SearchStrings_member[of "sort values" wanted] by (simp add: contains_def sortedCopy_def Let_def)

subsection \<open>What a satisfied requirement guarantees\<close>

definition approval_counts :: "string \<Rightarrow> ApprovalRequirement \<Rightarrow> Approval \<Rightarrow> bool" where
  "approval_counts requester req a \<longleftrightarrow>
     canonical (aActor a) \<and> \<not> IsZero (aApprovedAt a)
   \<and> (rProhibitRequester req \<longrightarrow> aActor a \<noteq> requester)
   \<and> (rPermission req = [] \<or> rPermission req \<in> set (aPermissions a))"

definition approving_actors :: "string \<Rightarrow> ApprovalRequirement \<Rightarrow> Approval list \<Rightarrow> string set" where
  "approving_actors requester req as = aActor ` {a \<in> set as. approval_counts requester req a}"

lemma finite_approving_actors [simp]: "finite (approving_actors requester req as)"
  by (simp add: approving_actors_def)

lemma approving_actors_Cons:
  "approving_actors requester req (a # as) =
     (if approval_counts requester req a then insert (aActor a) (approving_actors requester req as)
      else approving_actors requester req as)"
  by (auto simp: approving_actors_def)

lemma approvals_loop_distinct:
  assumes "rDistinctActors req"
  shows "approvals_loop requester req seen valid as
         \<le> valid + int (card (approving_actors requester req as - set seen))"
proof (induction as arbitrary: seen valid)
  case Nil
  then show ?case by simp
next
  case (Cons a as)
  let ?A = "approving_actors requester req"
  have mono: "card (?A as - set s) \<le> card (?A (a # as) - set s)" for s
    by (rule card_mono) (auto simp: approving_actors_Cons)
  show ?case
  proof (cases "\<not> canonical (aActor a) \<or> IsZero (aApprovedAt a)
      \<or> rProhibitRequester req \<and> aActor a = requester \<or> aActor a \<in> set seen")
    case True
    then have "approvals_loop requester req seen valid (a # as) = approvals_loop requester req seen valid as"
      using assms by (auto simp: approvals_loop_Cons)
    then show ?thesis using Cons.IH[of seen valid] mono[of seen] by simp
  next
    case ok: False
    have sub: "card (?A as - set (aActor a # seen)) \<le> card (?A as - set seen)"
      by (rule card_mono) auto
    show ?thesis
    proof (cases "rPermission req \<noteq> [] \<and> rPermission req \<notin> set (aPermissions a)")
      case True
      then have "approvals_loop requester req seen valid (a # as)
          = approvals_loop requester req (aActor a # seen) valid as"
        using ok assms by (auto simp: approvals_loop_Cons)
      then show ?thesis using Cons.IH[of "aActor a # seen" valid] sub mono[of seen] by simp
    next
      case False
      have cnt: "approval_counts requester req a"
        using ok False by (auto simp: approval_counts_def)
      have "?A (a # as) - set seen = insert (aActor a) (?A as - set (aActor a # seen))"
        using cnt ok by (auto simp: approving_actors_Cons)
      then have "card (?A (a # as) - set seen) = Suc (card (?A as - set (aActor a # seen)))" by simp
      moreover have "approvals_loop requester req seen valid (a # as)
          = approvals_loop requester req (aActor a # seen) (valid + 1) as"
        using ok False assms by (auto simp: approvals_loop_Cons)
      ultimately show ?thesis using Cons.IH[of "aActor a # seen" "valid + 1"] by simp
    qed
  qed
qed

lemma approvals_loop_multi:
  assumes "\<not> rDistinctActors req"
  shows "approvals_loop requester req seen valid as
         = valid + int (length (filter (approval_counts requester req) as))"
proof (induction as arbitrary: valid)
  case (Cons a as)
  show ?case
    using assms Cons.IH[of valid] Cons.IH[of "valid + 1"]
    by (auto simp: approval_counts_def approvals_loop_Cons)
qed simp

lemma CheckApprovals_minimum:
  assumes "CheckApprovals requester req approvals = Inr ()" and "rDistinctActors req"
  shows "rMinimum req \<le> int (card (approving_actors requester req approvals))"
proof -
  have "rMinimum req \<le> approvals_loop requester req [] 0 approvals"
    using assms(1) by (auto simp: CheckApprovals_def Let_def split: sum.splits if_splits)
  then show ?thesis
    using approvals_loop_distinct[OF assms(2), of requester "[]" 0 approvals] by simp
qed

lemma requester_not_approving:
  "rProhibitRequester req \<Longrightarrow> requester \<notin> approving_actors requester req approvals"
  by (auto simp: approving_actors_def approval_counts_def)

text \<open>
  Four-eyes safety of the approval check. When \<^verbatim>\<open>CheckApprovals\<close> accepts a requirement with
  distinct actors, at least the required number of different actors approved; each of them has
  a canonical name and a recorded approval carrying the required permission, and, where the
  requirement prohibits it, none of them is the requester.
\<close>

lemma CheckApprovals_sound:
  assumes "CheckApprovals requester req approvals = Inr ()" and "rDistinctActors req"
  shows "rMinimum req \<le> int (card (approving_actors requester req approvals))
       \<and> (\<forall>actor \<in> approving_actors requester req approvals.
            canonical actor \<and> \<not> (rProhibitRequester req \<and> actor = requester)
            \<and> (\<exists>a \<in> set approvals. aActor a = actor \<and> approval_counts requester req a))"
  using CheckApprovals_minimum[OF assms] by (auto simp: approving_actors_def approval_counts_def)

text \<open>A critical change approved by two operators, neither of them its requester.\<close>

definition witness_requirement :: ApprovalRequirement where
  "witness_requirement = \<lparr>rMinimum = 2, rPermission = ''orchestration.changes.approve'',
     rDistinctActors = True, rProhibitRequester = True\<rparr>"

definition witness_approvals :: "Approval list" where
  "witness_approvals =
     [\<lparr>aActor = ''bob'', aPermissions = [''orchestration.changes.approve''], aApprovedAt = 10\<rparr>,
      \<lparr>aActor = ''alice'', aPermissions = [''orchestration.changes.approve''], aApprovedAt = 11\<rparr>,
      \<lparr>aActor = ''carol'', aPermissions = [''jobs.read'', ''orchestration.changes.approve''], aApprovedAt = 12\<rparr>]"

lemma approvals_loop_once:
  assumes "rDistinctActors req" "distinct (map aActor as)" "aActor ` set as \<inter> set seen = {}"
  shows "approvals_loop requester req seen valid as
         = valid + int (card (approving_actors requester req as))"
  using assms(2,3)
proof (induction as arbitrary: seen valid)
  case (Cons a as)
  let ?A = "approving_actors requester req"
  have new: "aActor a \<notin> ?A as" using Cons.prems(1) by (auto simp: approving_actors_def)
  have "distinct (map aActor as)" and "aActor ` set as \<inter> set seen = {}"
    and "aActor ` set as \<inter> set (aActor a # seen) = {}"
    using Cons.prems by auto
  note IH = Cons.IH[OF this(1,2)] Cons.IH[OF this(1,3)]
  have unseen: "aActor a \<notin> set seen" using Cons.prems(2) by simp
  show ?case
  proof (cases "approval_counts requester req a")
    case True
    then have "approvals_loop requester req seen valid (a # as) = valid + 1 + int (card (?A as))"
      using assms(1) unseen IH(2)[of "valid + 1"]
      by (auto simp: approval_counts_def approvals_loop_Cons)
    then show ?thesis using True new by (simp add: approving_actors_Cons)
  next
    case False
    then have "approvals_loop requester req seen valid (a # as) = valid + int (card (?A as))"
      using assms(1) unseen by (auto simp: approval_counts_def approvals_loop_Cons IH)
    then show ?thesis using False by (simp add: approving_actors_Cons)
  qed
qed (simp add: approving_actors_def)

text \<open>
  The approval check accepts whenever enough different actors approved. With one approval
  per actor on record, a valid requirement and a canonical requester, \<^verbatim>\<open>CheckApprovals\<close> succeeds
  if and only if the number of qualifying actors reaches the minimum.
\<close>

lemma CheckApprovals_exact:
  assumes "ApprovalRequirement_Validate req = Inr ()" "rDistinctActors req" "canonical requester"
    and "distinct (map aActor approvals)"
  shows "CheckApprovals requester req approvals = Inr ()
         \<longleftrightarrow> rMinimum req \<le> int (card (approving_actors requester req approvals))"
  using approvals_loop_once[OF assms(2,4), of "[]" requester 0] canonical_nonempty[OF assms(3)]
  by (simp add: CheckApprovals_def Let_def assms(1) canonical_trim[OF assms(3)])

text \<open>
  The threshold evaluator asks for approvals by risk: an error-free decision that allows an
  action of high risk demands one, of critical risk two approvals by distinct actors other than
  the requester, holding the configured permission; denied actions are never allowed.
\<close>

lemma Threshold_Evaluate_requirement:
  assumes "Threshold_Evaluate e i = (d, None)"
  shows "dRisk d = eiRisk i \<and> Risk_Valid (eiRisk i)
       \<and> (case gget (teDeniedActions e) (eiAction i) of
            Some reason \<Rightarrow> dEffect d = EffectDeny \<and> dReason d = reason
          | None \<Rightarrow> dEffect d = EffectAllow
              \<and> rMinimum (dRequirement d) = (if eiRisk i = RiskHigh then 1 else if eiRisk i = RiskCritical then 2 else 0)
              \<and> rDistinctActors (dRequirement d)
              \<and> rProhibitRequester (dRequirement d) = (eiRisk i = RiskHigh \<or> eiRisk i = RiskCritical)
              \<and> rPermission (dRequirement d) = teApprovalPermission e)"
  using assms
  by (cases "eiRisk i")
    (auto simp: Threshold_Evaluate_def Let_def required_approvals_def Risk_Valid_def
      split: option.splits if_splits sum.splits)

end
