(* ===== verification/Action_Registry.thy ===== *)
theory Action_Registry
  imports Policy Job_Repository
begin

text \<open>
  \<^verbatim>\<open>internal/orchestration/action/registry.go\<close>: the registry of executable actions. The executor and
  the verifier of a definition are Go closures the caller supplies, functions here; an executor may
  return output together with an error. Error values are their texts. The JSON decoding inside
  \<^verbatim>\<open>NewTyped\<close> is part of those closures and is not modelled.
\<close>

record Invocation =
  invJobID :: string
  invChangeID :: string
  invActionName :: string
  invIdempotencyKey :: string
  invAttempt :: int

definition DownstreamIdempotencyKey :: "Invocation \<Rightarrow> string \<Rightarrow> string + string" where
  "DownstreamIdempotencyKey i operation =
     (if invJobID i = [] \<or> invChangeID i = [] \<or> invActionName i = [] \<or> invIdempotencyKey i = [] \<or> operation = []
      then Inl ''complete invocation and downstream operation are required''
      else Inr (''cc-'' @ sha256_hex (invIdempotencyKey i @ [CHR 0x00] @ invActionName i @ [CHR 0x00] @ operation)))"

datatype action_error = ErrNotRegistered string | ErrAlreadyRegistered string | ActionMsg string

record Definition =
  adName :: string
  adPermission :: string
  adRisk :: Risk
  adInputSchema :: bytes
  adExecute :: "(Invocation \<Rightarrow> bytes \<Rightarrow> Output \<times> string option) option"
  adVerify :: "(Invocation \<Rightarrow> bytes \<Rightarrow> Output \<Rightarrow> string option) option"

definition Execute :: "Definition \<Rightarrow> Invocation \<Rightarrow> bytes \<Rightarrow> Output \<times> string option" where
  "Execute d iv input = (case adExecute d of
      None \<Rightarrow> (empty_output, Some ''action executor is not configured'')
    | Some f \<Rightarrow> f iv input)"

definition Verify :: "Definition \<Rightarrow> Invocation \<Rightarrow> bytes \<Rightarrow> Output \<Rightarrow> string option" where
  "Verify d iv input out = (case adVerify d of
      None \<Rightarrow> Some ''action verifier is not configured''
    | Some f \<Rightarrow> f iv input out)"

type_synonym Registry = "(string \<times> Definition) list"

definition NewRegistry :: Registry where
  "NewRegistry = []"

definition Register :: "Definition \<Rightarrow> Registry \<Rightarrow> Registry \<times> (action_error + unit)" where
  "Register d r =
     (if adName d = [] \<or> adPermission d = [] \<or> \<not> Risk_Valid (adRisk d)
        then (r, Inl (ActionMsg ''action name, permission, and valid risk are required''))
      else if length (adInputSchema d) = 0 \<or> \<not> json_Valid (adInputSchema d)
        then (r, Inl (ActionMsg ''action input schema must be valid JSON''))
      else if adExecute d = None \<or> adVerify d = None
        then (r, Inl (ActionMsg ''action executor and verifier are required''))
      else if gget r (adName d) \<noteq> None then (r, Inl (ErrAlreadyRegistered (adName d)))
      else (gput (adName d) (d\<lparr>adInputSchema := [] @ adInputSchema d\<rparr>) r, Inr ()))"

definition Resolve :: "string \<Rightarrow> Registry \<Rightarrow> action_error + Definition" where
  "Resolve name r = (case gget r name of
      None \<Rightarrow> Inl (ErrNotRegistered name)
    | Some d \<Rightarrow> Inr (d\<lparr>adInputSchema := [] @ adInputSchema d\<rparr>))"

definition Registry_List :: "Registry \<Rightarrow> Definition list" where
  "Registry_List r = sort_key adName (map (\<lambda>(_, d). d\<lparr>adInputSchema := [] @ adInputSchema d\<rparr>) r)"

text \<open>
  Every definition a registry holds is complete and filed under its own name, so a resolved action
  can be executed and verified, and a registration never replaces an earlier one.
\<close>

definition registry_ok :: "Registry \<Rightarrow> bool" where
  "registry_ok r \<longleftrightarrow> gmap_ok r \<and> (\<forall>n d. gget r n = Some d \<longrightarrow>
     adName d = n \<and> n \<noteq> [] \<and> adPermission d \<noteq> [] \<and> Risk_Valid (adRisk d) \<and> json_Valid (adInputSchema d)
     \<and> adExecute d \<noteq> None \<and> adVerify d \<noteq> None)"

lemma registry_ok_new [simp]: "registry_ok NewRegistry"
  by (simp add: registry_ok_def NewRegistry_def)

lemma registry_ok_Register: "registry_ok r \<Longrightarrow> registry_ok (fst (Register d r))"
  by (auto simp: registry_ok_def Register_def split: if_splits)

lemma Register_keeps: "gget r n = Some d' \<Longrightarrow> gget (fst (Register d r)) n = Some d'"
  by (auto simp: Register_def)

lemma Resolve_Inr: "Resolve n r = Inr d \<longleftrightarrow> gget r n = Some d"
  by (auto simp: Resolve_def split: option.splits)

end
