(* ===== verification/Worker.thy ===== *)
theory Worker
  imports Action_Registry Job_Correctness
begin

text \<open>
  \<^verbatim>\<open>internal/orchestration/worker/worker.go\<close>. A worker sees the job repository only through the
  interface \<^verbatim>\<open>job.Repository\<close>: a record of operations on a state, whose contract is the locale
  \<open>job_repository\<close>, interpreted on \<^verbatim>\<open>MemoryRepository\<close>.

  \<^verbatim>\<open>RunOne\<close> runs concurrently with the other users of the repository and with its own goroutine
  that renews the lease. \<open>world\<close> holds what they and the environment contribute to one run: the state
  change of the repository between the claim and the worker's next call (\<open>wiFirst\<close>) and between
  that call and the last one (\<open>wiSecond\<close>), renewals included; the error with which the renewal goroutine
  stopped, if any; the readings of the clock and the state of the context at each call; and the
  errors of the failure injector. The result lists the executor and verifier calls that were made.
\<close>

datatype FailurePoint = FailureBeforeExecute | FailureAfterExecute | FailureBeforeVerify

datatype worker_error =
    WConfig string
  | WRepository job_error
  | WRenew string
  | WResolve action_error
  | WNotAllowlisted string
  | WPermissionDenied string
  | WInjected FailurePoint string
  | WExecute string string
  | WReadCancellation job_error
  | WCancellationRequested
  | WVerify string string

record 's JobRepository =
  jrClaim :: "ctx \<Rightarrow> string \<Rightarrow> time \<Rightarrow> duration \<Rightarrow> 's \<Rightarrow> 's \<times> (job_error + Job option)"
  jrGet :: "ctx \<Rightarrow> string \<Rightarrow> 's \<Rightarrow> job_error + Job"
  jrSucceed :: "ctx \<Rightarrow> string \<Rightarrow> string \<Rightarrow> Output \<Rightarrow> time \<Rightarrow> 's \<Rightarrow> 's \<times> (job_error + Job)"
  jrFail :: "ctx \<Rightarrow> string \<Rightarrow> string \<Rightarrow> string \<Rightarrow> Output \<Rightarrow> RetryPolicy \<Rightarrow> time \<Rightarrow> 's \<Rightarrow> 's \<times> (job_error + Job)"

record 's Worker =
  wID :: string
  wRepository :: "'s JobRepository option"
  wRegistry :: "Registry option"
  wAllowlist :: "string list"
  wPermissions :: "string list"
  wLeaseTTL :: duration
  wRetryPolicy :: RetryPolicy
  wFailures :: "(FailurePoint \<Rightarrow> Job \<Rightarrow> string option) option"

record 's world =
  wiFirst :: "'s \<Rightarrow> 's"
  wiSecond :: "'s \<Rightarrow> 's"
  wiRenewal :: "string option"
  wiCtxClaim :: ctx
  wiCtxGet :: ctx
  wiCtxEnd :: ctx
  wiClock :: "time"

datatype call = Executed string bytes | Verified string bytes Output

definition worker_validate :: "'s Worker \<Rightarrow> worker_error option" where
  "worker_validate w =
     (if wID w = [] \<or> wRepository w = None \<or> wRegistry w = None \<or> wLeaseTTL w \<le> 0
        then Some (WConfig ''worker id, repository, registry, and positive lease ttl are required'')
      else if wFailures w = None
        then Some (WConfig ''failure injector must be configured; use NoFailures in production'')
      else None)"

definition failure_point_text :: "FailurePoint \<Rightarrow> string" where
  "failure_point_text p = (case p of FailureBeforeExecute \<Rightarrow> ''before_execute''
     | FailureAfterExecute \<Rightarrow> ''after_execute'' | FailureBeforeVerify \<Rightarrow> ''before_verify'')"

definition job_error_text :: "job_error \<Rightarrow> string" where
  "job_error_text e = (case e of
      CtxErr Canceled \<Rightarrow> ''context canceled'' | CtxErr DeadlineExceeded \<Rightarrow> ''context deadline exceeded''
    | ErrNotFound \<Rightarrow> ''job not found'' | ErrLeaseLost \<Rightarrow> ''job lease lost''
    | ErrIdempotencyConflict \<Rightarrow> ''idempotency key already represents different input''
    | ErrVersionConflict \<Rightarrow> ''job version conflict''
    | JobIDExists i \<Rightarrow> ''job id already exists: '' @ i | JobMsg m \<Rightarrow> m)"

text \<open>\<^verbatim>\<open>cause.Error()\<close>, the message a failed attempt stores.\<close>

definition error_text :: "worker_error \<Rightarrow> string" where
  "error_text e = (case e of
      WConfig m \<Rightarrow> m
    | WRepository j \<Rightarrow> job_error_text j
    | WRenew m \<Rightarrow> ''renew job lease: '' @ m
    | WResolve (ErrNotRegistered n) \<Rightarrow> ''action is not registered: '' @ n
    | WResolve (ErrAlreadyRegistered n) \<Rightarrow> ''action is already registered: '' @ n
    | WResolve (ActionMsg m) \<Rightarrow> m
    | WNotAllowlisted n \<Rightarrow> ''action is not worker-allowlisted: '' @ n
    | WPermissionDenied p \<Rightarrow> ''worker lacks action permission: '' @ p
    | WInjected p m \<Rightarrow> ''injected worker failure at '' @ failure_point_text p @ '': '' @ m
    | WExecute n m \<Rightarrow> ''execute '' @ n @ '': '' @ m
    | WReadCancellation j \<Rightarrow> ''read cancellation state: '' @ job_error_text j
    | WCancellationRequested \<Rightarrow> ''cancellation requested during execution''
    | WVerify n m \<Rightarrow> ''verify '' @ n @ '': '' @ m)"

definition audit_event :: "string \<Rightarrow> Job \<Rightarrow> time \<Rightarrow> string \<Rightarrow> AuditEvent" where
  "audit_event worker claimed now outcome =
     \<lparr>aeID = ''audit-'' @ jID claimed @ ''-'' @ show_int (jAttempt claimed) @ ''-'' @ outcome,
      aeOccurredAt = time_UTC now, aeActor = worker, aeAction = jActionName claimed, aeResourceID = [],
      aeOutcome = outcome, aeCorrelationID = jChangeID claimed, aeDetails = []\<rparr>"

definition add_audit :: "AuditEvent \<Rightarrow> Output \<Rightarrow> Output" where
  "add_audit e out = out\<lparr>oAuditEvents := oAuditEvents out @ [e]\<rparr>"

definition lease_token :: "Job \<Rightarrow> string" where
  "lease_token claimed = (case jLease claimed of None \<Rightarrow> [] | Some l \<Rightarrow> lToken l)"

type_synonym 's run_result = "'s \<times> Job option \<times> bool \<times> worker_error list \<times> call list"

text \<open>The closure \<^verbatim>\<open>fail\<close>; the errors returned together are the list, \<^verbatim>\<open>errors.Join\<close> in the source.\<close>

definition run_fail :: "'s Worker \<Rightarrow> 's JobRepository \<Rightarrow> 's world \<Rightarrow> time \<Rightarrow> Job \<Rightarrow> worker_error \<Rightarrow> Output
    \<Rightarrow> call list \<Rightarrow> 's \<Rightarrow> 's run_result" where
  "run_fail w repo wi now claimed cause out calls s =
     (case wiRenewal wi of
        Some renewErr \<Rightarrow>
          (case jrGet repo (wiCtxEnd wi) (jID claimed) s of
             Inl getErr \<Rightarrow> (s, None, True, [cause, WRenew renewErr, WRepository getErr], calls)
           | Inr current \<Rightarrow> (s, Some current, True, [cause, WRenew renewErr], calls))
      | None \<Rightarrow>
          (case jrFail repo (wiCtxEnd wi) (jID claimed) (lease_token claimed) (error_text cause)
              (add_audit (audit_event (wID w) claimed now ''failed'') out) (wRetryPolicy w) (wiClock wi) s of
             (s', Inl storeErr) \<Rightarrow> (s', None, True, [cause, WRepository storeErr], calls)
           | (s', Inr failed) \<Rightarrow> (s', Some failed, True, [cause], calls)))"

definition run_finish :: "'s Worker \<Rightarrow> 's JobRepository \<Rightarrow> 's world \<Rightarrow> time \<Rightarrow> Job \<Rightarrow> Output
    \<Rightarrow> call list \<Rightarrow> 's \<Rightarrow> 's run_result" where
  "run_finish w repo wi now claimed out calls s =
     (case wiRenewal wi of
        Some renewErr \<Rightarrow>
          (case jrGet repo (wiCtxEnd wi) (jID claimed) s of
             Inl getErr \<Rightarrow> (s, None, True, [WRenew renewErr, WRepository getErr], calls)
           | Inr current \<Rightarrow> (s, Some current, True, [WRenew renewErr], calls))
      | None \<Rightarrow>
          (case jrSucceed repo (wiCtxEnd wi) (jID claimed) (lease_token claimed)
              (add_audit (audit_event (wID w) claimed now ''succeeded'') out) (wiClock wi) s of
             (s', Inl e) \<Rightarrow> (s', None, True, [WRepository e], calls)
           | (s', Inr completed) \<Rightarrow> (s', Some completed, True, [], calls)))"

definition invocation_of :: "Job \<Rightarrow> Invocation" where
  "invocation_of claimed = \<lparr>invJobID = jID claimed, invChangeID = jChangeID claimed,
     invActionName = jActionName claimed, invIdempotencyKey = jIdempotencyKey claimed, invAttempt = jAttempt claimed\<rparr>"

text \<open>After the claim. The worker's next repository call meets the state \<open>wiFirst\<close> makes of \<open>s\<close>.\<close>

definition run_claimed :: "'s Worker \<Rightarrow> 's JobRepository \<Rightarrow> Registry \<Rightarrow> (FailurePoint \<Rightarrow> Job \<Rightarrow> string option)
    \<Rightarrow> 's world \<Rightarrow> time \<Rightarrow> Job \<Rightarrow> 's \<Rightarrow> 's run_result" where
  "run_claimed w repo registry inject wi now claimed s =
     (let s1 = wiFirst wi s;
          stop = run_fail w repo wi now claimed
      in case Resolve (jActionName claimed) registry of
        Inl e \<Rightarrow> stop (WResolve e) empty_output [] s1
      | Inr d \<Rightarrow>
        if adName d \<notin> set (wAllowlist w) then stop (WNotAllowlisted (adName d)) empty_output [] s1
        else if adPermission d \<notin> set (wPermissions w) then stop (WPermissionDenied (adPermission d)) empty_output [] s1
        else (case inject FailureBeforeExecute claimed of
          Some m \<Rightarrow> stop (WInjected FailureBeforeExecute m) empty_output [] s1
        | None \<Rightarrow>
        (case Execute d (invocation_of claimed) (jInput claimed) of
          (out, Some m) \<Rightarrow> stop (WExecute (adName d) m) out [Executed (adName d) (jInput claimed)] s1
        | (out, None) \<Rightarrow>
        let calls = [Executed (adName d) (jInput claimed)] in
        (case inject FailureAfterExecute claimed of
          Some m \<Rightarrow> stop (WInjected FailureAfterExecute m) out calls s1
        | None \<Rightarrow>
        (case jrGet repo (wiCtxGet wi) (jID claimed) s1 of
          Inl e \<Rightarrow> stop (WReadCancellation e) out calls (wiSecond wi s1)
        | Inr current \<Rightarrow>
        if jStatus current = StatusCancelRequested then stop WCancellationRequested out calls (wiSecond wi s1)
        else (case inject FailureBeforeVerify claimed of
          Some m \<Rightarrow> stop (WInjected FailureBeforeVerify m) out calls (wiSecond wi s1)
        | None \<Rightarrow>
        let calls = calls @ [Verified (adName d) (jInput claimed) out] in
        (case Verify d (invocation_of claimed) (jInput claimed) out of
          Some m \<Rightarrow> stop (WVerify (adName d) m) out calls (wiSecond wi s1)
        | None \<Rightarrow> run_finish w repo wi now claimed out calls (wiSecond wi s1))))))))"

definition RunOne :: "'s Worker \<Rightarrow> 's world \<Rightarrow> time \<Rightarrow> 's \<Rightarrow> 's run_result" where
  "RunOne w wi now s =
     (case worker_validate w of Some e \<Rightarrow> (s, None, False, [e], [])
      | None \<Rightarrow>
     (case (wRepository w, wRegistry w, wFailures w) of
        (Some repo, Some registry, Some inject) \<Rightarrow>
          (case jrClaim repo (wiCtxClaim wi) (wID w) now (wLeaseTTL w) s of
             (s', Inl e) \<Rightarrow> (s', None, False, [WRepository e], [])
           | (s', Inr None) \<Rightarrow> (s', None, False, [], [])
           | (s', Inr (Some claimed)) \<Rightarrow> run_claimed w repo registry inject wi now claimed s')
      | _ \<Rightarrow> (s, None, False, [], [])))"

text \<open>\<^verbatim>\<open>Set\<close> and \<^verbatim>\<open>Sorted\<close>: a set of strings as a list without repetitions, and its elements in order.\<close>

definition Set :: "string list \<Rightarrow> string list" where
  "Set vs = remdups vs"

definition Sorted :: "string list \<Rightarrow> string list" where
  "Sorted s = sort s"

subsection \<open>What a run may call\<close>

text \<open>The calls of a run, and why it may report no error.\<close>

definition calls_ok :: "'s Worker \<Rightarrow> Registry \<Rightarrow> Job \<Rightarrow> worker_error list \<Rightarrow> call list \<Rightarrow> bool" where
  "calls_ok w registry claimed errs calls \<longleftrightarrow>
     (calls = [] \<and> errs \<noteq> [])
   \<or> (\<exists>d. gget registry (jActionName claimed) = Some d \<and> adName d \<in> set (wAllowlist w)
        \<and> adPermission d \<in> set (wPermissions w)
        \<and> (let out = fst (Execute d (invocation_of claimed) (jInput claimed)) in
           (calls = [Executed (adName d) (jInput claimed)] \<and> errs \<noteq> [])
         \<or> (calls = [Executed (adName d) (jInput claimed), Verified (adName d) (jInput claimed) out]
            \<and> snd (Execute d (invocation_of claimed) (jInput claimed)) = None
            \<and> (errs = [] \<longrightarrow> Verify d (invocation_of claimed) (jInput claimed) out = None))))"

lemma run_fail_calls:
  "run_fail w repo wi now claimed cause out calls s = (s', res, ok, errs, calls') \<Longrightarrow> calls' = calls \<and> errs \<noteq> [] \<and> ok"
  by (auto simp: run_fail_def split: option.splits sum.splits prod.splits)

lemma run_finish_calls:
  "run_finish w repo wi now claimed out calls s = (s', res, ok, errs, calls') \<Longrightarrow> calls' = calls \<and> ok"
  by (auto simp: run_finish_def split: option.splits sum.splits prod.splits)

lemma run_claimed_calls:
  assumes "run_claimed w repo registry inject wi now claimed s = (s', res, ok, errs, calls)"
  shows "calls_ok w registry claimed errs calls"
  using assms unfolding run_claimed_def Let_def
  by (auto simp: calls_ok_def Resolve_Inr Let_def dest!: run_fail_calls run_finish_calls
      split: sum.splits if_splits option.splits prod.splits)

text \<open>
  C5: A worker never acts outside its authority. Whatever the repository, the other workers and the
  injected failures do, a run calls an executor at most once and only for the action of the job it has
  just claimed, with the job's own input, when that action is registered, on the worker's allowlist
  and covered by its permissions; the verifier runs only after the executor succeeded, on its output; and
  a run that claimed a job reports no error only if the executor and then the verifier accepted.
\<close>

theorem worker_authority:
  assumes "RunOne w wi now s = (s', res, ok, errs, calls)" "calls \<noteq> [] \<or> ok"
  shows "\<exists>repo registry s1 claimed. wRepository w = Some repo \<and> wRegistry w = Some registry
    \<and> jrClaim repo (wiCtxClaim wi) (wID w) now (wLeaseTTL w) s = (s1, Inr (Some claimed))
    \<and> calls_ok w registry claimed errs calls"
proof -
  obtain repo registry inject where v: "worker_validate w = None" "wRepository w = Some repo"
      "wRegistry w = Some registry" "wFailures w = Some inject"
    using assms by (auto simp: RunOne_def worker_validate_def split: option.splits if_splits)
  obtain s1 claimed where c: "jrClaim repo (wiCtxClaim wi) (wID w) now (wLeaseTTL w) s = (s1, Inr (Some claimed))"
      "run_claimed w repo registry inject wi now claimed s1 = (s', res, ok, errs, calls)"
    using assms v by (auto simp: RunOne_def split: prod.splits sum.splits option.splits)
  show ?thesis using v(2,3) c(1) run_claimed_calls[OF c(2)] by blast
qed

text \<open>A concrete worker over the memory repository.\<close>

definition w_action :: Definition where
  "w_action = \<lparr>adName = ''restart'', adPermission = ''ops.restart'', adRisk = RiskLow, adInputSchema = ''{}'',
     adExecute = Some (\<lambda>_ _. (empty_output, None)), adVerify = Some (\<lambda>_ _ _. None)\<rparr>"

definition memory_jobs :: "MemoryRepository JobRepository" where
  "memory_jobs = \<lparr>jrClaim = Claim, jrGet = Get, jrSucceed = Succeed, jrFail = Fail\<rparr>"

definition w_worker :: "MemoryRepository Worker" where
  "w_worker = \<lparr>wID = ''worker-1'', wRepository = Some memory_jobs, wRegistry = Some [(''restart'', w_action)],
     wAllowlist = [''restart''], wPermissions = [''ops.restart''], wLeaseTTL = 100,
     wRetryPolicy = \<lparr>rpBaseDelay = 0, rpMaxDelay = 0\<rparr>, wFailures = Some (\<lambda>_ _. None)\<rparr>"

definition w_world :: "MemoryRepository world" where
  "w_world = \<lparr>wiFirst = run_ops [], wiSecond = run_ops [(None, OpClaim ''worker-2'' 40 100)],
     wiRenewal = None, wiCtxClaim = None, wiCtxGet = None, wiCtxEnd = None, wiClock = 50\<rparr>"

lemma w_claimed_fields: "jActionName w_claimed = ''restart''" "jInput w_claimed = ''{}''"
  by (simp_all add: w_claimed_def claim_job_def new_job_def w_request_def Let_def)

theorem worker_authority_witness:
  "snd (snd (snd (snd (RunOne (w_worker\<lparr>wPermissions := []\<rparr>) w_world 20 w_repo)))) = []
   \<and> (\<exists>errs. calls_ok (w_worker\<lparr>wPermissions := []\<rparr>) [(''restart'', w_action)] w_claimed errs [])"
proof -
  let ?w = "w_worker\<lparr>wPermissions := []\<rparr>"
  obtain s' res ok errs calls where run: "RunOne ?w w_world 20 w_repo = (s', res, ok, errs, calls)"
    by (metis surj_pair)
  have c: "jrClaim memory_jobs (wiCtxClaim w_world) (wID ?w) 20 (wLeaseTTL ?w) w_repo
      = (w_repo\<lparr>mrJobs := [(''job-1'', w_claimed)]\<rparr>, Inr (Some w_claimed))"
    by (simp add: memory_jobs_def w_world_def w_worker_def w_claim)
  have "run_claimed ?w memory_jobs [(''restart'', w_action)] (\<lambda>_ _. None) w_world 20 w_claimed
      (w_repo\<lparr>mrJobs := [(''job-1'', w_claimed)]\<rparr>) = (s', res, ok, errs, calls)"
    using run c by (simp add: RunOne_def worker_validate_def) (simp add: w_worker_def)
  then have "ok \<and> calls = []"
    by (auto simp: run_claimed_def Resolve_def w_claimed_fields w_action_def w_worker_def Let_def dest!: run_fail_calls)
  then show ?thesis
    using worker_authority[OF run] c run by (auto simp: w_worker_def)
qed

subsection \<open>The contract of a job repository\<close>

text \<open>
  What a worker relies on: a claim leases a running job to it, reads show the stored job, and while
  it holds the lease its report is stored. \<open>held i \<tau> e s\<close> says that job \<open>i\<close> is leased under token \<open>\<tau>\<close>
  until \<open>e\<close> at least and is running.
\<close>

locale job_repository =
  fixes repo :: "'s JobRepository" and good :: "'s \<Rightarrow> bool"
    and held :: "string \<Rightarrow> string \<Rightarrow> time \<Rightarrow> 's \<Rightarrow> bool" and job_at :: "'s \<Rightarrow> string \<Rightarrow> Job option"
  assumes claim_leases: "good s \<Longrightarrow> jrClaim repo ctx w now ttl s = (s', Inr (Some j))
      \<Longrightarrow> held (jID j) (lease_token j) (now + ttl) s'"
    and held_running: "held i \<tau> e s \<Longrightarrow> \<exists>j. job_at s i = Some j \<and> jStatus j = StatusRunning"
    and get_reads: "jrGet repo None i s = (case job_at s i of None \<Rightarrow> Inl ErrNotFound | Some j \<Rightarrow> Inr j)"
    and succeed_stores: "held i \<tau> e s \<Longrightarrow> now < e \<Longrightarrow> now \<noteq> 0 \<Longrightarrow>
      \<exists>s' j. jrSucceed repo None i \<tau> out now s = (s', Inr j) \<and> job_at s' i = Some j
        \<and> jStatus j = StatusSucceeded \<and> jOutput j = Some out"
    and fail_stores: "held i \<tau> e s \<Longrightarrow> now < e \<Longrightarrow> now \<noteq> 0 \<Longrightarrow> msg \<noteq> [] \<Longrightarrow>
      \<exists>s' j. jrFail repo None i \<tau> msg out policy now s = (s', Inr j) \<and> job_at s' i = Some j
        \<and> (jStatus j = StatusRetryWait \<or> jStatus j = StatusFailed) \<and> jLastError j = msg \<and> jOutput j = Some out"
begin

text \<open>A run that keeps its lease to the end stores the verdict of executor and verifier.\<close>

lemma run_claimed_stores:
  assumes held: "held (jID claimed) (lease_token claimed) e (wiFirst wi s)"
      "held (jID claimed) (lease_token claimed) e (wiSecond wi (wiFirst wi s))"
    and live: "wiRenewal wi = None" "wiCtxGet wi = None" "wiCtxEnd wi = None" "wiClock wi < e" "wiClock wi \<noteq> 0"
    and act: "gget registry (jActionName claimed) = Some d" "adName d \<in> set (wAllowlist w)"
      "adPermission d \<in> set (wPermissions w)" "\<forall>p. inject p claimed = None"
      "Execute d (invocation_of claimed) (jInput claimed) = (out, None)"
    and run: "run_claimed w repo registry inject wi now claimed s = (s', res, ok, errs, calls)"
  shows "\<exists>j. res = Some j \<and> ok \<and> job_at s' (jID claimed) = Some j
    \<and> (case Verify d (invocation_of claimed) (jInput claimed) out of
         None \<Rightarrow> errs = [] \<and> jStatus j = StatusSucceeded
           \<and> jOutput j = Some (add_audit (audit_event (wID w) claimed now ''succeeded'') out)
       | Some m \<Rightarrow> errs = [WVerify (adName d) m] \<and> (jStatus j = StatusRetryWait \<or> jStatus j = StatusFailed)
           \<and> jLastError j = error_text (WVerify (adName d) m)
           \<and> jOutput j = Some (add_audit (audit_event (wID w) claimed now ''failed'') out))"
proof -
  obtain j0 where j0: "job_at (wiFirst wi s) (jID claimed) = Some j0" "jStatus j0 = StatusRunning"
    using held_running[OF held(1)] by blast
  show ?thesis
  proof (cases "Verify d (invocation_of claimed) (jInput claimed) out")
    case None
    obtain s2 j where j: "jrSucceed repo None (jID claimed) (lease_token claimed)
          (add_audit (audit_event (wID w) claimed now ''succeeded'') out) (wiClock wi) (wiSecond wi (wiFirst wi s)) = (s2, Inr j)"
        "job_at s2 (jID claimed) = Some j" "jStatus j = StatusSucceeded"
        "jOutput j = Some (add_audit (audit_event (wID w) claimed now ''succeeded'') out)"
      using succeed_stores[OF held(2) live(4,5)] by blast
    have "run_claimed w repo registry inject wi now claimed s = (s2, Some j, True, [],
        [Executed (adName d) (jInput claimed), Verified (adName d) (jInput claimed) out])"
      using j(1) None live act j0 by (simp add: run_claimed_def Resolve_def get_reads run_finish_def Let_def)
    then show ?thesis using run None j(2-) by simp
  next
    case (Some m)
    have "error_text (WVerify (adName d) m) \<noteq> []" by (simp add: error_text_def)
    then obtain s2 j where j: "jrFail repo None (jID claimed) (lease_token claimed) (error_text (WVerify (adName d) m))
          (add_audit (audit_event (wID w) claimed now ''failed'') out) (wRetryPolicy w) (wiClock wi)
          (wiSecond wi (wiFirst wi s)) = (s2, Inr j)"
        "job_at s2 (jID claimed) = Some j" "jStatus j = StatusRetryWait \<or> jStatus j = StatusFailed"
        "jLastError j = error_text (WVerify (adName d) m)"
        "jOutput j = Some (add_audit (audit_event (wID w) claimed now ''failed'') out)"
      using fail_stores[OF held(2) live(4,5)] by blast
    have "run_claimed w repo registry inject wi now claimed s = (s2, Some j, True, [WVerify (adName d) m],
        [Executed (adName d) (jInput claimed), Verified (adName d) (jInput claimed) out])"
      using j(1) Some live act j0 by (simp add: run_claimed_def Resolve_def get_reads run_fail_def Let_def)
    then show ?thesis using run Some j(2-) by simp
  qed
qed

end

subsection \<open>The memory repository keeps the contract\<close>

definition running_held :: "string \<Rightarrow> string \<Rightarrow> time \<Rightarrow> MemoryRepository \<Rightarrow> bool" where
  "running_held i \<tau> e r \<longleftrightarrow> holds i \<tau> e r
     \<and> (case gget (mrJobs r) i of None \<Rightarrow> False | Some j \<Rightarrow> jStatus j = StatusRunning)"

lemma running_held_leased:
  assumes "running_held i \<tau> e r" "now < e"
  shows "\<exists>j. leased i \<tau> now r = Inr j \<and> gget (mrJobs r) i = Some j \<and> jStatus j = StatusRunning"
  using assms holds_leased(2)[of i \<tau> e r now] leased_Inr(1)[of i \<tau> now r]
  by (auto simp: running_held_def split: option.splits)

interpretation memory: job_repository memory_jobs repo_inv running_held "\<lambda>r. gget (mrJobs r)"
proof unfold_locales
  fix s ctx w now ttl s' j i \<tau> e out msg policy
  show "running_held (jID j) (lease_token j) (now + ttl) s'"
    if inv: "repo_inv s" and claim: "jrClaim memory_jobs ctx w now ttl s = (s', Inr (Some j))"
  proof -
    have c: "Claim ctx w now ttl s = (s', Inr (Some j))" using claim by (simp add: memory_jobs_def)
    obtain j0 where "j = claim_job w now ttl j0" "gget (mrJobs s') (jID j) = Some j"
      using Claim_picks[OF inv, of ctx w now ttl j] c by auto
    then show ?thesis by (auto simp: running_held_def holds_def lease_token_def)
  qed
  show "running_held i \<tau> e s \<Longrightarrow> \<exists>j. gget (mrJobs s) i = Some j \<and> jStatus j = StatusRunning"
    by (auto simp: running_held_def split: option.splits)
  show "jrGet memory_jobs None i s = (case gget (mrJobs s) i of None \<Rightarrow> Inl ErrNotFound | Some j \<Rightarrow> Inr j)"
    by (simp add: memory_jobs_def Get_def split: option.split)
  show "\<exists>s' j. jrSucceed memory_jobs None i \<tau> out now s = (s', Inr j) \<and> gget (mrJobs s') i = Some j
      \<and> jStatus j = StatusSucceeded \<and> jOutput j = Some out"
    if "running_held i \<tau> e s" "now < e" "now \<noteq> 0"
    using running_held_leased[OF that(1,2)] that(3)
    by (auto simp: memory_jobs_def Succeed_def store_job_def Let_def)
  show "\<exists>s' j. jrFail memory_jobs None i \<tau> msg out policy now s = (s', Inr j) \<and> gget (mrJobs s') i = Some j
      \<and> (jStatus j = StatusRetryWait \<or> jStatus j = StatusFailed) \<and> jLastError j = msg \<and> jOutput j = Some out"
    if "running_held i \<tau> e s" "now < e" "now \<noteq> 0" "msg \<noteq> []"
    using running_held_leased[OF that(1,2)] that(3,4)
    by (auto simp: memory_jobs_def Fail_def store_job_def Let_def)
qed

text \<open>Operations of the others that neither break the lease nor cancel the job keep it held and running.\<close>

fun leaves_running :: "string \<Rightarrow> string \<Rightarrow> time \<Rightarrow> repo_op \<Rightarrow> bool" where
  "leaves_running i \<tau> e (OpCancel k now) = (k \<noteq> i)"
| "leaves_running i \<tau> e (OpCancelIf k v now) = (k \<noteq> i)"
| "leaves_running i \<tau> e op = lets_run i \<tau> e op"

lemma apply_op_status:
  assumes h: "holds i \<tau> e r" and op: "leaves_running i \<tau> e op"
  shows "map_option jStatus (gget (mrJobs (apply_op ctx op r)) i) = map_option jStatus (gget (mrJobs r) i)"
proof (cases op)
  case (OpCreate q)
  have "gget (mrJobs (fst (Create ctx q r))) i = gget (mrJobs r) i"
    using h Create_effect[of ctx q r] unfolding holds_def by (cases "i = crID q") auto
  then show ?thesis by (simp add: OpCreate apply_op_def)
next
  case (OpClaim w now ttl)
  obtain j where j: "gget (mrJobs r) i = Some j" "\<not> cancel_expired now j" "\<not> eligible now j"
    using holds_not_claimed[OF h, of now] op OpClaim by auto
  show ?thesis
    using claim_loop_skips[OF j, of w ttl "claim_ids (mrJobs r)"] j(1)
    by (auto simp: OpClaim apply_op_def Claim_def split: option.splits prod.splits)
next
  case (OpRenew k token now ttl)
  show ?thesis
  proof (cases "k \<noteq> i \<or> (\<forall>f. leased k token now r \<noteq> Inr f)")
    case True
    then show ?thesis using leased_frame(1)[OF True] by (simp add: OpRenew apply_op_def)
  next
    case False
    then obtain f where "k = i" "leased i token now r = Inr f" by auto
    then show ?thesis using leased_Inr(1)[of i token now r f]
      by (auto simp: OpRenew apply_op_def RenewLease_def store_job_def Let_def split: option.splits)
  qed
next
  case (OpSucceed k token out now)
  then have "\<not> (k = i \<and> token = \<tau>)" using op by simp
  from leased_frame(2)[OF holds_frame[OF h this]] show ?thesis by (simp add: OpSucceed apply_op_def)
next
  case (OpFail k token msg out policy now)
  then have "\<not> (k = i \<and> token = \<tau>)" using op by simp
  from leased_frame(3)[OF holds_frame[OF h this]] show ?thesis by (simp add: OpFail apply_op_def)
next
  case (OpCancel k now)
  then show ?thesis using op by (auto simp: apply_op_def RequestCancel_def split: option.splits)
next
  case (OpCancelIf k v now)
  then show ?thesis using op by (auto simp: apply_op_def RequestCancelIfVersion_def split: option.splits)
qed

lemma apply_op_running:
  assumes r: "running_held i \<tau> e r" and op: "leaves_running i \<tau> e op"
  shows "running_held i \<tau> e (apply_op ctx op r)"
proof -
  have h: "holds i \<tau> e r" using r by (simp add: running_held_def)
  have "lets_run i \<tau> e op" using op by (cases op) auto
  then have "holds i \<tau> e (apply_op ctx op r) \<or> cancelled i (apply_op ctx op r)" using apply_op_holds[OF h] by blast
  then show ?thesis
    using r apply_op_status[OF h op, of ctx] by (auto simp: running_held_def cancelled_def split: option.splits)
qed

lemma run_ops_running:
  "running_held i \<tau> e r \<Longrightarrow> \<forall>(ctx, op) \<in> set ops. leaves_running i \<tau> e op \<Longrightarrow> running_held i \<tau> e (run_ops ops r)"
  by (induction ops r rule: run_ops.induct) (auto intro: apply_op_running)

text \<open>
  C27: A worker's verdict is stored. Take a worker over the memory repository in a reachable state
  whose claim returns a job with a registered, allowlisted and permitted action, and any operations of
  others in between that do not cancel the job, with clocks before the end of the lease. If the
  executor accepts, the job ends as the verifier decides: succeeded with the executor's output
  and an audit event, or retrying or failed with the verifier's message, and the same job is returned.
\<close>

theorem worker_stores_verdict:
  assumes "repo_reachable r" "worker_validate w = None" "wRepository w = Some memory_jobs" "wRegistry w = Some registry"
    and "wFailures w = Some (\<lambda>_ _. None)"
    and claim: "Claim (wiCtxClaim wi) (wID w) now (wLeaseTTL w) r = (r1, Inr (Some claimed))"
    and others: "wiFirst wi = run_ops ops1" "wiSecond wi = run_ops ops2" "e \<le> now + wLeaseTTL w"
      "\<forall>(ctx, op) \<in> set (ops1 @ ops2). leaves_running (jID claimed) (lease_token claimed) e op"
    and live: "wiRenewal wi = None" "wiCtxGet wi = None" "wiCtxEnd wi = None" "wiClock wi < e" "wiClock wi \<noteq> 0"
    and act: "gget registry (jActionName claimed) = Some d" "adName d \<in> set (wAllowlist w)"
      "adPermission d \<in> set (wPermissions w)" "Execute d (invocation_of claimed) (jInput claimed) = (out, None)"
    and run: "RunOne w wi now r = (r', res, ok, errs, calls)"
  shows "\<exists>j. res = Some j \<and> ok \<and> gget (mrJobs r') (jID claimed) = Some j
    \<and> (case Verify d (invocation_of claimed) (jInput claimed) out of
         None \<Rightarrow> errs = [] \<and> jStatus j = StatusSucceeded
           \<and> jOutput j = Some (add_audit (audit_event (wID w) claimed now ''succeeded'') out)
       | Some m \<Rightarrow> errs = [WVerify (adName d) m] \<and> (jStatus j = StatusRetryWait \<or> jStatus j = StatusFailed)
           \<and> jLastError j = error_text (WVerify (adName d) m)
           \<and> jOutput j = Some (add_audit (audit_event (wID w) claimed now ''failed'') out))"
proof -
  let ?i = "jID claimed" let ?\<tau> = "lease_token claimed"
  have "running_held ?i ?\<tau> (now + wLeaseTTL w) r1"
    using memory.claim_leases[OF repo_reachable_inv[OF assms(1)]] claim by (simp add: memory_jobs_def)
  then have r1: "running_held ?i ?\<tau> e r1"
    using others(3) by (auto simp: running_held_def holds_def split: option.splits)
  have h1: "running_held ?i ?\<tau> e (wiFirst wi r1)" using run_ops_running[OF r1] others(1,4) by auto
  have h2: "running_held ?i ?\<tau> e (wiSecond wi (wiFirst wi r1))" using run_ops_running[OF h1] others(2,4) by auto
  have "run_claimed w memory_jobs registry (\<lambda>_ _. None) wi now claimed r1 = (r', res, ok, errs, calls)"
    using run claim assms(2-5) by (simp add: RunOne_def memory_jobs_def)
  from memory.run_claimed_stores[OF h1 h2 live act(1-3) _ act(4) this] show ?thesis by simp
qed

theorem worker_stores_verdict_witness:
  "repo_reachable w_repo \<and> (\<exists>r' j calls. RunOne w_worker w_world 20 w_repo = (r', Some j, True, [], calls)
     \<and> jStatus j = StatusSucceeded \<and> gget (mrJobs r') ''job-1'' = Some j)"
proof -
  obtain r' res ok errs calls where run: "RunOne w_worker w_world 20 w_repo = (r', res, ok, errs, calls)"
    by (metis surj_pair)
  have "Claim (wiCtxClaim w_world) (wID w_worker) 20 (wLeaseTTL w_worker) w_repo
      = (w_repo\<lparr>mrJobs := [(''job-1'', w_claimed)]\<rparr>, Inr (Some w_claimed))"
    by (simp add: w_worker_def w_world_def w_claim)
  from worker_stores_verdict[OF w_repo_reachable _ _ _ _ this, of "[(''restart'', w_action)]" "[]"
      "[(None, OpClaim ''worker-2'' 40 100)]" 60 w_action empty_output, OF _ _ _ _ _ _ _ _ _ _ _ _ _ _ _ _ _ run]
  show ?thesis
    using w_repo_reachable run
    by (auto simp: w_worker_def w_world_def worker_validate_def w_claimed_fields w_action_def Execute_def Verify_def)
qed

end
