(* ===== verification/Change.thy ===== *)
theory Change
  imports Policy
begin

text \<open>
  Package \<^verbatim>\<open>internal/orchestration/change\<close>: the change state machine with optimistic versions,
  and the parts of \<^verbatim>\<open>internal/orchestration/config\<close> it uses (the immutable revision and the
  revision precondition). A \<^verbatim>\<open>Machine\<close> is its snapshot: the mutex makes every method atomic, so a
  method is one function from snapshot to snapshot, and an error leaves the snapshot as it was
  because no field is written before the last guard.
\<close>

subsection \<open>Revisions\<close>

record Revision =
  revID :: string
  revSequence :: uint64
  revCreatedAt :: "time"
  revContent :: bytes
  revDigest :: string

record Precondition =
  pcExpectedRevisionID :: string
  pcExpectedDigest :: string

datatype revision_error = ErrPreconditionRequired | ErrPreconditionFailed string

definition Precondition_ValidateAgainst :: "Precondition \<Rightarrow> Revision \<Rightarrow> revision_error + unit" where
  "Precondition_ValidateAgainst p current =
     (if pcExpectedRevisionID p = [] then Inl ErrPreconditionRequired
      else if pcExpectedRevisionID p \<noteq> revID current then Inl (ErrPreconditionFailed ''revision'')
      else if pcExpectedDigest p \<noteq> [] \<and> pcExpectedDigest p \<noteq> revDigest current
        then Inl (ErrPreconditionFailed ''digest'')
      else Inr ())"

subsection \<open>The machine\<close>

datatype change_state =
    StatePendingApproval | StateApproved | StateQueued | StateExecuting | StateVerifying
  | StateSucceeded | StateFailed | StateCancelled | StateRejected | StateOther string

record Snapshot =
  csID :: string
  csAction :: string
  csRequester :: string
  csRevisionID :: string
  csRisk :: Risk
  csState :: change_state
  csDecision :: Decision
  csApprovals :: "Approval list"
  csVersion :: uint64
  csUpdatedAt :: "time"

datatype change_error =
    ChangeMsg string
  | ChangePolicyDecision policy_error
  | ChangeVersionConflict uint64 uint64   \<comment> \<open>expected, current\<close>
  | ErrInvalidTransition change_state change_state
  | ErrCannotApprove change_state

definition New ::
    "string \<Rightarrow> string \<Rightarrow> string \<Rightarrow> Revision \<Rightarrow> Decision \<Rightarrow> time \<Rightarrow> change_error + Snapshot" where
  "New cid action requester revision decision now =
     (if cid = [] \<or> action = [] \<or> requester = []
        then Inl (ChangeMsg ''change id, action, and requester are required'')
      else if IsZero now then Inl (ChangeMsg ''change time is required'')
      else case Decision_Validate decision of
        Inl e \<Rightarrow> Inl (ChangePolicyDecision e)
      | Inr _ \<Rightarrow>
          let state =
            (if dEffect decision = EffectAllow then
               (if rMinimum (dRequirement decision) > 0 then StatePendingApproval else StateApproved)
             else StateRejected)
          in Inr \<lparr>csID = cid, csAction = action, csRequester = requester, csRevisionID = revID revision,
               csRisk = dRisk decision, csState = state, csDecision = decision, csApprovals = [],
               csVersion = 1, csUpdatedAt = time_UTC now\<rparr>)"

definition Approve :: "Approval \<Rightarrow> uint64 \<Rightarrow> time \<Rightarrow> Snapshot \<Rightarrow> change_error + Snapshot" where
  "Approve approval expectedVersion now m =
     (if csVersion m \<noteq> expectedVersion then Inl (ChangeVersionConflict expectedVersion (csVersion m))
      else if csState m \<noteq> StatePendingApproval then Inl (ErrCannotApprove (csState m))
      else
        let m1 = m\<lparr>csApprovals := csApprovals m @ [approval]\<rparr>;
            m2 = (if CheckApprovals (csRequester m1) (dRequirement (csDecision m1)) (csApprovals m1) = Inr ()
                  then m1\<lparr>csState := StateApproved\<rparr> else m1)
        in Inr (m2\<lparr>csVersion := csVersion m2 + 1, csUpdatedAt := time_UTC now\<rparr>))"

definition allowed :: "change_state \<Rightarrow> change_state \<Rightarrow> bool" where
  "allowed from to =
     (case from of
        StatePendingApproval \<Rightarrow> to = StateCancelled \<or> to = StateRejected
      | StateApproved \<Rightarrow> to = StateQueued \<or> to = StateCancelled
      | StateQueued \<Rightarrow> to = StateExecuting \<or> to = StateCancelled \<or> to = StateFailed
      | StateExecuting \<Rightarrow> to = StateVerifying \<or> to = StateFailed \<or> to = StateCancelled
      | StateVerifying \<Rightarrow> to = StateSucceeded \<or> to = StateFailed
      | _ \<Rightarrow> False)"

definition Transition :: "change_state \<Rightarrow> uint64 \<Rightarrow> time \<Rightarrow> Snapshot \<Rightarrow> change_error + Snapshot" where
  "Transition to expectedVersion now m =
     (if csVersion m \<noteq> expectedVersion then Inl (ChangeVersionConflict expectedVersion (csVersion m))
      else if \<not> allowed (csState m) to then Inl (ErrInvalidTransition (csState m) to)
      else Inr (m\<lparr>csState := to, csVersion := csVersion m + 1, csUpdatedAt := time_UTC now\<rparr>))"

text \<open>The two mutating methods as one command type, for the versioned-object interface.\<close>

datatype change_command = CmdApprove Approval "time" | CmdTransition change_state "time"

definition change_accept :: "Snapshot \<Rightarrow> change_command \<Rightarrow> uint64 \<Rightarrow> Snapshot option" where
  "change_accept m c v =
     (case (case c of CmdApprove a now \<Rightarrow> Approve a v now m | CmdTransition to now \<Rightarrow> Transition to v now m) of
        Inl _ \<Rightarrow> None | Inr m' \<Rightarrow> Some m')"

inductive change_step :: "Snapshot \<Rightarrow> Snapshot \<Rightarrow> bool" where
  approve: "Approve a v now m = Inr m' \<Longrightarrow> change_step m m'"
| transition: "Transition to v now m = Inr m' \<Longrightarrow> change_step m m'"

inductive_cases change_stepE: "change_step m m'"

definition change_init :: "Snapshot \<Rightarrow> bool" where
  "change_init m \<longleftrightarrow> (\<exists>cid action requester revision decision now.
     New cid action requester revision decision now = Inr m)"

subsection \<open>Effect of the two methods\<close>

lemma Approve_Inr:
  assumes "Approve a v now m = Inr m'"
  shows "csVersion m = v" "csState m = StatePendingApproval" "csVersion m' = v + 1"
    "csApprovals m' = csApprovals m @ [a]" "csDecision m' = csDecision m"
    "csRequester m' = csRequester m" "csID m' = csID m" "csRevisionID m' = csRevisionID m"
    "csState m' = (if CheckApprovals (csRequester m) (dRequirement (csDecision m)) (csApprovals m') = Inr ()
                   then StateApproved else StatePendingApproval)"
  using assms by (auto simp: Approve_def Let_def split: if_splits)

lemma Transition_Inr:
  assumes "Transition to v now m = Inr m'"
  shows "csVersion m = v" "allowed (csState m) to" "csState m' = to" "csVersion m' = v + 1"
    "csApprovals m' = csApprovals m" "csDecision m' = csDecision m"
    "csRequester m' = csRequester m" "csID m' = csID m" "csRevisionID m' = csRevisionID m"
  using assms by (auto simp: Transition_def split: if_splits)

lemmas change_method_facts = Approve_Inr Transition_Inr

lemma change_accept_step:
  "change_accept m c v = Some m' \<Longrightarrow> change_step m m'"
  by (cases c) (auto simp: change_accept_def split: sum.splits intro: change_step.intros)

interpretation change_cas: versioned_object csVersion change_accept
proof unfold_locales
  fix m c v m' assume a: "change_accept m c v = Some m'"
  show "csVersion m = v" and "csVersion m' = v + 1"
    using a Approve_Inr(1,3) Transition_Inr(1,4)
    by (force simp: change_accept_def split: change_command.splits sum.splits)+
qed

subsection \<open>Nothing runs unapproved\<close>

text \<open>
  The invariant behind it: a change past approval has an allowing decision, and, where the
  decision asks for approvals, the approvals on record satisfy the check.
\<close>

definition past_approval :: "change_state \<Rightarrow> bool" where
  "past_approval s \<longleftrightarrow> s \<in> {StateApproved, StateQueued, StateExecuting, StateVerifying, StateSucceeded, StateFailed}"

definition change_inv :: "Snapshot \<Rightarrow> bool" where
  "change_inv m \<longleftrightarrow>
     (past_approval (csState m) \<or> csState m = StatePendingApproval \<longrightarrow> dEffect (csDecision m) = EffectAllow)
   \<and> (past_approval (csState m) \<and> rMinimum (dRequirement (csDecision m)) > 0 \<longrightarrow>
        CheckApprovals (csRequester m) (dRequirement (csDecision m)) (csApprovals m) = Inr ())"

lemma change_init_inv: "change_init m \<Longrightarrow> change_inv m"
  by (auto simp: change_init_def New_def change_inv_def past_approval_def Let_def
      split: if_splits sum.splits)

lemma Approve_inv:
  assumes "change_inv m" "Approve a v now m = Inr m'" shows "change_inv m'"
  using assms(1) Approve_Inr[OF assms(2)] by (auto simp: change_inv_def past_approval_def)

lemma allowed_past_approval:
  "allowed from to \<Longrightarrow> past_approval to \<Longrightarrow> past_approval from"
  by (auto simp: allowed_def past_approval_def split: change_state.splits)

lemma allowed_not_pending: "allowed from to \<Longrightarrow> to \<noteq> StatePendingApproval"
  by (auto simp: allowed_def split: change_state.splits)

lemma Transition_inv:
  assumes "change_inv m" "Transition to v now m = Inr m'" shows "change_inv m'"
  using assms(1) Transition_Inr[OF assms(2)]
    allowed_past_approval[of "csState m" to] allowed_not_pending[of "csState m" to]
  by (simp add: change_inv_def)

interpretation change_sys: step_system change_init change_step change_inv
  by unfold_locales (auto intro: change_init_inv Approve_inv Transition_inv elim!: change_stepE)

text \<open>
  C2: no change is executed without its approvals. In every state a change machine can reach, if
  the change is approved, queued, executing, verifying, succeeded or failed, then the policy
  decision allowed it, and a decision demanding approvals by distinct actors has at least that
  many different approving actors on record, the requester not among them where prohibited.
\<close>

theorem executed_only_if_approved:
  assumes "change_init m0" and "change_step\<^sup>*\<^sup>* m0 m" and "past_approval (csState m)"
  shows "dEffect (csDecision m) = EffectAllow
       \<and> (rMinimum (dRequirement (csDecision m)) > 0 \<and> rDistinctActors (dRequirement (csDecision m)) \<longrightarrow>
            rMinimum (dRequirement (csDecision m))
              \<le> int (card (approving_actors (csRequester m) (dRequirement (csDecision m)) (csApprovals m)))
          \<and> (rProhibitRequester (dRequirement (csDecision m)) \<longrightarrow>
               csRequester m \<notin> approving_actors (csRequester m) (dRequirement (csDecision m)) (csApprovals m)))"
proof -
  have inv: "change_inv m" using change_sys.reach_inv assms(1,2) .
  then show ?thesis
    using assms(3) CheckApprovals_minimum[of "csRequester m" "dRequirement (csDecision m)" "csApprovals m"]
    by (auto simp: change_inv_def requester_not_approving)
qed

text \<open>A critical change, approved by two operators and queued.\<close>

definition witness_revision :: Revision where
  "witness_revision = \<lparr>revID = ''rev-1'', revSequence = 1, revCreatedAt = 1, revContent = ''{}'', revDigest = ''sha256:x''\<rparr>"

definition witness_decision :: Decision where
  "witness_decision = \<lparr>dEffect = EffectAllow, dRisk = RiskCritical, dReason = ''risk threshold policy satisfied'',
     dRequirement = witness_requirement, dPolicyID = ''risk-v1''\<rparr>"

definition witness_change0 :: Snapshot where
  "witness_change0 = \<lparr>csID = ''chg-1'', csAction = ''service.restart'', csRequester = ''alice'',
     csRevisionID = ''rev-1'', csRisk = RiskCritical, csState = StatePendingApproval,
     csDecision = witness_decision, csApprovals = [], csVersion = 1, csUpdatedAt = 5\<rparr>"

definition witness_change1 :: Snapshot where
  "witness_change1 = witness_change0\<lparr>csApprovals := [witness_approvals ! 0], csVersion := 2, csUpdatedAt := 10\<rparr>"

definition witness_change2 :: Snapshot where
  "witness_change2 = witness_change1\<lparr>csApprovals := [witness_approvals ! 0, witness_approvals ! 2],
     csState := StateApproved, csVersion := 3, csUpdatedAt := 12\<rparr>"

definition witness_change3 :: Snapshot where
  "witness_change3 = witness_change2\<lparr>csState := StateQueued, csVersion := 4, csUpdatedAt := 13\<rparr>"

lemmas witness_change_defs = witness_change3_def witness_change2_def witness_change1_def
  witness_change0_def witness_decision_def witness_revision_def witness_requirement_def
  witness_approvals_def

lemma witness_change_new:
  "New ''chg-1'' ''service.restart'' ''alice'' witness_revision witness_decision 5 = Inr witness_change0"
  by (simp add: New_def Let_def Decision_Validate_def ApprovalRequirement_Validate_def Risk_Valid_def
      witness_change_defs trim_defs)

lemma witness_change_approve1:
  "Approve (witness_approvals ! 0) 1 10 witness_change0 = Inr witness_change1"
  by (simp add: Approve_def Let_def CheckApprovals_def ApprovalRequirement_Validate_def
      approvals_loop.simps witness_change_defs trim_defs)

lemma witness_change_approve2:
  "Approve (witness_approvals ! 2) 2 12 witness_change1 = Inr witness_change2"
  by (simp add: Approve_def Let_def CheckApprovals_def ApprovalRequirement_Validate_def
      approvals_loop.simps witness_change_defs trim_defs)

lemma witness_change_queue: "Transition StateQueued 3 13 witness_change2 = Inr witness_change3"
  by (simp add: Transition_def allowed_def witness_change_defs)

lemma witness_change_run: "change_init witness_change0" "change_step\<^sup>*\<^sup>* witness_change0 witness_change3"
proof -
  show "change_init witness_change0" unfolding change_init_def using witness_change_new by blast
  have "change_step witness_change0 witness_change1" "change_step witness_change1 witness_change2"
    "change_step witness_change2 witness_change3"
    by (rule approve[OF witness_change_approve1] approve[OF witness_change_approve2]
        transition[OF witness_change_queue])+
  then show "change_step\<^sup>*\<^sup>* witness_change0 witness_change3"
    by (meson converse_rtranclp_into_rtranclp rtranclp.rtrancl_refl)
qed

theorem executed_only_if_approved_witness:
  "past_approval (csState witness_change3)
   \<and> 2 \<le> int (card (approving_actors ''alice'' witness_requirement (csApprovals witness_change3)))"
proof -
  have "past_approval (csState witness_change3)" by (simp add: past_approval_def witness_change3_def)
  from executed_only_if_approved[OF witness_change_run this] this
  show ?thesis by (simp add: witness_change_defs)
qed

subsection \<open>Optimistic concurrency and progress\<close>

text \<open>
  No lost updates on a change. Once one command issued against version v of a change has been
  accepted, every other command issued against the same version v is rejected with a version
  conflict that names both versions, whatever command it is.
\<close>

lemma change_no_lost_update:
  assumes "change_accept m c v = Some m'"
  shows "Approve a v now m' = Inl (ChangeVersionConflict v (v + 1))
       \<and> Transition to v now m' = Inl (ChangeVersionConflict v (v + 1))
       \<and> change_accept m' c' v = None"
  using change_cas.accept_version[OF assms] change_cas.no_lost_update[OF assms]
  by (auto simp: Approve_def Transition_def)

definition change_rank :: "change_state \<Rightarrow> nat" where
  "change_rank s = (case s of StatePendingApproval \<Rightarrow> 5 | StateApproved \<Rightarrow> 4 | StateQueued \<Rightarrow> 3
     | StateExecuting \<Rightarrow> 2 | StateVerifying \<Rightarrow> 1 | _ \<Rightarrow> 0)"

lemma allowed_rank: "allowed from to \<Longrightarrow> change_rank to < change_rank from"
  by (auto simp: allowed_def change_rank_def split: change_state.splits)

lemma change_step_rank:
  assumes "change_step m m'" "csState m \<noteq> StatePendingApproval"
  shows "change_rank (csState m') < change_rank (csState m) \<and> csState m' \<noteq> StatePendingApproval"
  using assms(1)
proof cases
  case (approve a v now)
  then show ?thesis using assms(2) Approve_Inr(2) by blast
next
  case (transition to v now)
  then show ?thesis
    using Transition_Inr(2,3)[OF transition] allowed_rank allowed_not_pending by metis
qed

text \<open>
  A change that has left the approval phase finishes: it makes at most four further steps, in
  any interleaving of commands, and a succeeded, failed, cancelled or rejected change makes none.
\<close>

lemma change_steps_bounded:
  assumes "(change_step ^^ n) m m'" and "csState m \<noteq> StatePendingApproval"
  shows "n + change_rank (csState m') \<le> change_rank (csState m) \<and> change_rank (csState m) \<le> 4"
proof -
  have "n + change_rank (csState m') \<le> change_rank (csState m) \<and> csState m' \<noteq> StatePendingApproval"
    using assms(1)
  proof (induction n arbitrary: m')
    case 0
    then show ?case using assms(2) by simp
  next
    case (Suc n)
    then obtain k where k: "(change_step ^^ n) m k" "change_step k m'" by auto
    then show ?case using Suc.IH[OF k(1)] change_step_rank[OF k(2)] by linarith
  qed
  then show ?thesis using assms(2) by (auto simp: change_rank_def split: change_state.splits)
qed

end
