(* ===== verification/Execution_Guard.thy ===== *)
theory Execution_Guard
  imports Change
begin

text \<open>
  \<^verbatim>\<open>internal/orchestration/executionguard/preflight.go\<close>: the last check without side effects before a
  job is admitted. Errors carry their message; the blockers are the strings of the source.
\<close>

record MaintenanceWindow =
  mwStartsAt :: "time"
  mwEndsAt :: "time"

record Input =
  inChange :: Snapshot
  inRevision :: Revision
  inCurrentRevisionID :: string
  inRequireMaintenanceWindow :: bool
  inMaintenanceWindow :: "MaintenanceWindow option"
  inNow :: "time"

record preflight_decision =
  pdContractVersion :: string
  pdEligible :: bool
  pdExecutionAuthorized :: bool
  pdChangeID :: string
  pdChangeVersion :: uint64
  pdRevisionID :: string
  pdRevisionDigest :: string
  pdEvaluatedAt :: "time"
  pdMaintenanceWindow :: "MaintenanceWindow option"
  pdBlockers :: "string list"

datatype preflight_error = ErrInvalidInput string

definition ContractVersion :: string where
  "ContractVersion = ''orchestration.execution-preflight/v1''"

definition validateChange :: "Snapshot \<Rightarrow> preflight_error + unit" where
  "validateChange c =
     (if TrimSpace (csID c) = [] \<or> TrimSpace (csAction c) = [] \<or> TrimSpace (csRequester c) = [] \<or> TrimSpace (csRevisionID c) = []
        then Inl (ErrInvalidInput ''change identity, action, requester and revision are required'')
      else if csID c \<noteq> TrimSpace (csID c) \<or> csAction c \<noteq> TrimSpace (csAction c)
           \<or> csRequester c \<noteq> TrimSpace (csRequester c) \<or> csRevisionID c \<noteq> TrimSpace (csRevisionID c)
        then Inl (ErrInvalidInput ''change identifiers must be canonical'')
      else if csVersion c = 0 \<or> IsZero (csUpdatedAt c)
        then Inl (ErrInvalidInput ''change version and timestamp are required'')
      else if \<not> Risk_Valid (csRisk c) then Inl (ErrInvalidInput ''change risk is invalid'')
      else Inr ())"

definition normalizeWindow :: "MaintenanceWindow \<Rightarrow> preflight_error + MaintenanceWindow" where
  "normalizeWindow w =
     (if IsZero (mwStartsAt w) \<or> IsZero (mwEndsAt w) \<or> \<not> mwEndsAt w > mwStartsAt w
        then Inl (ErrInvalidInput ''maintenance window is invalid'')
      else let d = time_Sub (mwEndsAt w) (mwStartsAt w) in
        if d < minute \<or> d > 7 * 24 * hour
          then Inl (ErrInvalidInput ''maintenance window must be between one minute and seven days'')
        else Inr \<lparr>mwStartsAt = time_UTC (mwStartsAt w), mwEndsAt = time_UTC (mwEndsAt w)\<rparr>)"

definition block_if :: "bool \<Rightarrow> string \<Rightarrow> string list" where
  "block_if b s = (if b then [s] else [])"

definition change_blockers :: "Input \<Rightarrow> string list" where
  "change_blockers i =
     block_if (csState (inChange i) \<noteq> StateApproved) ''change_not_approved''
   @ block_if (dEffect (csDecision (inChange i)) \<noteq> EffectAllow) ''policy_denied''
   @ block_if (csRevisionID (inChange i) \<noteq> revID (inRevision i)) ''revision_binding_mismatch''
   @ block_if (inCurrentRevisionID i \<noteq> csRevisionID (inChange i)) ''revision_is_no_longer_current''
   @ block_if (CheckApprovals (csRequester (inChange i)) (dRequirement (csDecision (inChange i)))
                 (csApprovals (inChange i)) \<noteq> Inr ()) ''approval_requirement_not_satisfied''"

definition Evaluate :: "Input \<Rightarrow> preflight_error + preflight_decision" where
  "Evaluate i =
     (if IsZero (inNow i) then Inl (ErrInvalidInput ''evaluation time is required'')
      else if TrimSpace (inCurrentRevisionID i) = [] \<or> inCurrentRevisionID i \<noteq> TrimSpace (inCurrentRevisionID i)
        then Inl (ErrInvalidInput ''current revision id must be canonical'')
      else case validateChange (inChange i) of Inl e \<Rightarrow> Inl e
      | Inr _ \<Rightarrow>
        if revID (inRevision i) = [] \<or> revDigest (inRevision i) = []
          then Inl (ErrInvalidInput ''exact immutable revision is required'')
        else if csUpdatedAt (inChange i) > inNow i
          then Inl (ErrInvalidInput ''change evidence is newer than evaluation time'')
        else case Decision_Validate (csDecision (inChange i)) of
          Inl _ \<Rightarrow> Inl (ErrInvalidInput ''policy decision is invalid'')
        | Inr _ \<Rightarrow>
          if csRisk (inChange i) \<noteq> dRisk (csDecision (inChange i))
            then Inl (ErrInvalidInput ''change risk does not match policy risk'')
          else
            let now = time_UTC (inNow i);
                result = (\<lambda>window blockers.
                  \<lparr>pdContractVersion = ContractVersion, pdEligible = (length blockers = 0),
                   pdExecutionAuthorized = False, pdChangeID = csID (inChange i),
                   pdChangeVersion = csVersion (inChange i), pdRevisionID = revID (inRevision i),
                   pdRevisionDigest = revDigest (inRevision i), pdEvaluatedAt = now,
                   pdMaintenanceWindow = window, pdBlockers = blockers\<rparr>)
            in case inMaintenanceWindow i of
                 Some w \<Rightarrow> (case normalizeWindow w of Inl e \<Rightarrow> Inl e
                   | Inr window \<Rightarrow> Inr (result (Some window) (change_blockers i
                       @ block_if (now < mwStartsAt window) ''maintenance_window_not_started''
                       @ block_if (\<not> now < mwEndsAt window) ''maintenance_window_closed'')))
               | None \<Rightarrow> Inr (result None (change_blockers i
                       @ block_if (inRequireMaintenanceWindow i) ''maintenance_window_required'')))"

subsection \<open>What eligibility means\<close>

lemma block_if_Nil [simp]: "block_if b s = [] \<longleftrightarrow> \<not> b"
  by (simp add: block_if_def)

definition in_window :: "Input \<Rightarrow> bool" where
  "in_window i \<longleftrightarrow> (case inMaintenanceWindow i of None \<Rightarrow> \<not> inRequireMaintenanceWindow i
     | Some w \<Rightarrow> mwStartsAt w \<le> inNow i \<and> inNow i < mwEndsAt w)"

definition admissible :: "Input \<Rightarrow> bool" where
  "admissible i \<longleftrightarrow> csState (inChange i) = StateApproved \<and> dEffect (csDecision (inChange i)) = EffectAllow
     \<and> csRevisionID (inChange i) = revID (inRevision i) \<and> inCurrentRevisionID i = csRevisionID (inChange i)
     \<and> CheckApprovals (csRequester (inChange i)) (dRequirement (csDecision (inChange i))) (csApprovals (inChange i)) = Inr ()"

lemma change_blockers_Nil: "change_blockers i = [] \<longleftrightarrow> admissible i"
  by (auto simp: change_blockers_def admissible_def)

lemma normalizeWindow_id: "normalizeWindow w = Inr w' \<Longrightarrow> w' = w"
  by (auto simp: normalizeWindow_def Let_def split: if_splits)

lemma preflight_exact_iff:
  assumes "Evaluate i = Inr d"
  shows "\<not> pdExecutionAuthorized d" "pdEligible d \<longleftrightarrow> admissible i \<and> in_window i"
    "pdEligible d \<longleftrightarrow> pdBlockers d = []" "pdChangeVersion d = csVersion (inChange i)"
  using assms
  by (auto simp: Evaluate_def Let_def in_window_def change_blockers_Nil dest!: normalizeWindow_id
      split: if_splits sum.splits option.splits)

text \<open>The approved change of the concrete run, with an hour as its window.\<close>

definition w_input :: Input where
  "w_input = \<lparr>inChange = witness_change2, inRevision = witness_revision, inCurrentRevisionID = ''rev-1'',
     inRequireMaintenanceWindow = True,
     inMaintenanceWindow = Some \<lparr>mwStartsAt = 15, mwEndsAt = 15 + hour\<rparr>, inNow = 16\<rparr>"

lemma w_valid: "validateChange (inChange w_input) = Inr ()"
  by (simp add: w_input_def validateChange_def witness_change_defs trim_defs Risk_Valid_def)

lemma w_admissible: "admissible w_input" "in_window w_input"
  by (simp_all add: w_input_def admissible_def in_window_def duration_units CheckApprovals_def
      ApprovalRequirement_Validate_def approvals_loop.simps witness_change_defs trim_defs Let_def)

lemma w_evaluates: "\<exists>d. Evaluate w_input = Inr d"
  by (simp add: Evaluate_def w_valid) (simp add: w_input_def normalizeWindow_def time_Sub_def max_duration_def
      min_duration_def duration_units Decision_Validate_def ApprovalRequirement_Validate_def Risk_Valid_def
      witness_change_defs trim_defs Let_def)

text \<open>
  C23: The preflight never authorizes execution, and eligibility is exact: a change is eligible just when it
  is approved, allowed by policy, bound to the given revision, the revision is current, the recorded
  approvals satisfy the requirement, and the time lies in the maintenance window (or none is given and
  none is required). An eligible change can be queued: the change machine accepts that transition at
  the version the decision names.
\<close>

theorem preflight_exact:
  assumes "Evaluate i = Inr d"
  shows "\<not> pdExecutionAuthorized d \<and> (pdEligible d \<longleftrightarrow> admissible i \<and> in_window i)
    \<and> (pdEligible d \<longleftrightarrow> pdBlockers d = [])
    \<and> (pdEligible d \<longrightarrow> (\<exists>m. Transition StateQueued (pdChangeVersion d) t (inChange i) = Inr m \<and> csState m = StateQueued))"
  using preflight_exact_iff[OF assms] by (auto simp: Transition_def allowed_def admissible_def)

subsection \<open>Approved changes pass\<close>

definition decision_inv :: "Snapshot \<Rightarrow> bool" where
  "decision_inv m \<longleftrightarrow> change_inv m \<and> Decision_Validate (csDecision m) = Inr () \<and> csRisk m = dRisk (csDecision m)"

interpretation decision_sys: step_system change_init change_step decision_inv
proof unfold_locales
  show "change_init m \<Longrightarrow> decision_inv m" for m
    using change_init_inv[of m]
    by (auto simp: decision_inv_def change_init_def New_def Let_def split: if_splits sum.splits)
  show "decision_inv m \<Longrightarrow> change_step m m' \<Longrightarrow> decision_inv m'" for m m'
    using change_sys.step_inv[of m m']
    by (auto simp: decision_inv_def Approve_def Transition_def Let_def elim!: change_stepE split: if_splits)
qed

lemma approvals_loop_ge: "valid \<le> approvals_loop requester req seen valid as"
proof (induction as arbitrary: seen valid)
  case (Cons a as)
  have "valid \<le> approvals_loop requester req seen' (valid + 1) as" for seen'
    using Cons.IH[of "valid + 1" seen'] by simp
  then show ?case using Cons.IH by (simp add: approvals_loop_Cons)
qed simp

lemma CheckApprovals_none_needed:
  assumes "ApprovalRequirement_Validate req = Inr ()" "canonical requester" "rMinimum req \<le> 0"
  shows "CheckApprovals requester req as = Inr ()"
  using assms approvals_loop_ge[of 0 requester req "[]" as] canonical_nonempty[OF assms(2)]
  by (simp add: CheckApprovals_def canonical_trim Let_def)

text \<open>
  Approval is enough. Every change the state machine can bring to the approved state, with
  canonical identifiers, is eligible in the preflight as soon as its revision is current and the
  window is open; no policy or approval blocker can be left.
\<close>

lemma approved_passes_preflight:
  assumes "change_init m0" "change_step\<^sup>*\<^sup>* m0 (inChange i)" "csState (inChange i) = StateApproved"
    and "validateChange (inChange i) = Inr ()" "csUpdatedAt (inChange i) \<le> inNow i" "inNow i \<noteq> 0"
    and "revID (inRevision i) = csRevisionID (inChange i)" "revDigest (inRevision i) \<noteq> []"
    and "inCurrentRevisionID i = csRevisionID (inChange i)"
    and "in_window i" "\<And>w. inMaintenanceWindow i = Some w \<Longrightarrow> normalizeWindow w = Inr w"
  shows "\<exists>d. Evaluate i = Inr d \<and> pdEligible d \<and> pdBlockers d = []"
proof -
  let ?c = "inChange i"
  have inv: "decision_inv ?c" using decision_sys.reach_inv assms(1,2) .
  have can: "canonical (csRequester ?c)" "canonical (csRevisionID ?c)"
    using assms(4) by (auto simp: validateChange_def canonical_def split: if_splits)
  have req: "ApprovalRequirement_Validate (dRequirement (csDecision ?c)) = Inr ()"
    using inv by (auto simp: decision_inv_def Decision_Validate_def split: if_splits)
  have "CheckApprovals (csRequester ?c) (dRequirement (csDecision ?c)) (csApprovals ?c) = Inr ()"
    using inv assms(3) CheckApprovals_none_needed[OF req can(1)]
    by (cases "rMinimum (dRequirement (csDecision ?c)) > 0") (auto simp: decision_inv_def change_inv_def past_approval_def)
  then have adm: "admissible i"
    using inv assms(3,7,9) by (auto simp: admissible_def decision_inv_def change_inv_def past_approval_def)
  have ev: "\<exists>d. Evaluate i = Inr d"
    using assms inv canonical_trim[OF can(2)] canonical_nonempty[OF can(2)]
    by (auto simp: Evaluate_def decision_inv_def Let_def split: option.splits)
  then obtain d where d: "Evaluate i = Inr d" by blast
  then show ?thesis using preflight_exact_iff[OF d] adm assms(10) by auto
qed

theorem preflight_exact_witness:
  "\<exists>d. Evaluate w_input = Inr d \<and> pdEligible d
    \<and> (\<exists>m. Transition StateQueued (pdChangeVersion d) 20 witness_change2 = Inr m \<and> csState m = StateQueued)"
proof -
  obtain d where d: "Evaluate w_input = Inr d"
    using w_evaluates by blast
  have "admissible w_input" "in_window w_input" by (rule w_admissible)+
  with preflight_exact[OF d, of 20] d show ?thesis by (auto simp: w_input_def)
qed

end
