(* ===== verification/Rbac.thy ===== *)
theory Rbac
  imports Go_Strings
begin

text \<open>
  \<^verbatim>\<open>internal/identity/rbac/rbac.go\<close>: roles, scoped bindings and the authorization check. The set
  \<^verbatim>\<open>map[Permission]struct{}\<close> of a role is the list of its permissions. The mutex makes every
  method atomic.
\<close>

type_synonym Permission = string

definition PermissionAll :: Permission where "PermissionAll = ''*''"
definition PermissionOverviewRead :: Permission where "PermissionOverviewRead = ''system.overview.read''"
definition PermissionUsersRead :: Permission where "PermissionUsersRead = ''identity.users.read''"
definition PermissionUsersWrite :: Permission where "PermissionUsersWrite = ''identity.users.write''"
definition PermissionRolesRead :: Permission where "PermissionRolesRead = ''identity.roles.read''"
definition PermissionRolesWrite :: Permission where "PermissionRolesWrite = ''identity.roles.write''"
definition PermissionAuditRead :: Permission where "PermissionAuditRead = ''audit.events.read''"
definition PermissionResourcesRead :: Permission where "PermissionResourcesRead = ''resources.read''"
definition PermissionRevisionsWrite :: Permission where "PermissionRevisionsWrite = ''config.revisions.write''"
definition PermissionActionsRead :: Permission where "PermissionActionsRead = ''orchestration.actions.read''"
definition PermissionChangesWrite :: Permission where "PermissionChangesWrite = ''orchestration.changes.write''"
definition PermissionChangesApprove :: Permission where "PermissionChangesApprove = ''orchestration.changes.approve''"
definition PermissionJobsRead :: Permission where "PermissionJobsRead = ''orchestration.jobs.read''"
definition PermissionJobsCancel :: Permission where "PermissionJobsCancel = ''orchestration.jobs.cancel''"
definition PermissionActionsExecute :: Permission where "PermissionActionsExecute = ''orchestration.actions.execute''"
definition PermissionNodeEnrollmentPlan :: Permission where "PermissionNodeEnrollmentPlan = ''nodes.enrollment.plan''"
definition PermissionNodeLifecycleRead :: Permission where "PermissionNodeLifecycleRead = ''nodes.lifecycle.read''"
definition PermissionNodeLifecyclePlan :: Permission where "PermissionNodeLifecyclePlan = ''nodes.lifecycle.plan''"
definition PermissionAutomationPlan :: Permission where "PermissionAutomationPlan = ''automation.plan''"
definition PermissionPXEPlan :: Permission where "PermissionPXEPlan = ''pxe.plan''"
definition PermissionMarketRead :: Permission where "PermissionMarketRead = ''market.manifests.read''"
definition PermissionDomainProviderResolve :: Permission where "PermissionDomainProviderResolve = ''domain.provider.resolve''"
definition PermissionDomainLifecyclePlan :: Permission where "PermissionDomainLifecyclePlan = ''domain.lifecycle.plan''"
definition PermissionInventoryNormalize :: Permission where "PermissionInventoryNormalize = ''inventory.normalize''"
definition PermissionAgentEnrollmentNormalize :: Permission where "PermissionAgentEnrollmentNormalize = ''agent.enrollment.normalize''"
definition PermissionInventoryReconcile :: Permission where "PermissionInventoryReconcile = ''inventory.reconcile''"
definition PermissionInventoryFreshness :: Permission where "PermissionInventoryFreshness = ''inventory.freshness.evaluate''"
definition PermissionAgentHeartbeatEvaluate :: Permission where "PermissionAgentHeartbeatEvaluate = ''agent.heartbeat.evaluate''"
definition PermissionAgentLeaseEvaluate :: Permission where "PermissionAgentLeaseEvaluate = ''agent.lease.evaluate''"
definition PermissionCoreObjectsRead :: Permission where "PermissionCoreObjectsRead = ''core.objects.read''"
definition PermissionCoreObjectsWrite :: Permission where "PermissionCoreObjectsWrite = ''core.objects.write''"

lemmas permission_defs = PermissionAll_def PermissionOverviewRead_def PermissionUsersRead_def PermissionUsersWrite_def
  PermissionRolesRead_def PermissionRolesWrite_def PermissionAuditRead_def PermissionResourcesRead_def
  PermissionRevisionsWrite_def PermissionActionsRead_def PermissionChangesWrite_def PermissionChangesApprove_def
  PermissionJobsRead_def PermissionJobsCancel_def PermissionActionsExecute_def PermissionNodeEnrollmentPlan_def
  PermissionNodeLifecycleRead_def PermissionNodeLifecyclePlan_def PermissionAutomationPlan_def PermissionPXEPlan_def
  PermissionMarketRead_def PermissionDomainProviderResolve_def PermissionDomainLifecyclePlan_def PermissionInventoryNormalize_def
  PermissionAgentEnrollmentNormalize_def PermissionInventoryReconcile_def PermissionInventoryFreshness_def PermissionAgentHeartbeatEvaluate_def
  PermissionAgentLeaseEvaluate_def PermissionCoreObjectsRead_def PermissionCoreObjectsWrite_def

datatype ScopeKind = ScopeGlobal | ScopeTenant | ScopeSite | ScopeResource | ScopeOther string

definition scope_kind_text :: "ScopeKind \<Rightarrow> string" where
  "scope_kind_text k = (case k of ScopeGlobal \<Rightarrow> ''global'' | ScopeTenant \<Rightarrow> ''tenant'' | ScopeSite \<Rightarrow> ''site''
     | ScopeResource \<Rightarrow> ''resource'' | ScopeOther s \<Rightarrow> s)"

record Scope =
  scKind :: ScopeKind
  scID :: string

definition GlobalScope :: Scope where
  "GlobalScope = \<lparr>scKind = ScopeGlobal, scID = []\<rparr>"

definition Scope_Valid :: "Scope \<Rightarrow> bool" where
  "Scope_Valid s = (case scKind s of
      ScopeGlobal \<Rightarrow> scID s = []
    | ScopeTenant \<Rightarrow> TrimSpace (scID s) \<noteq> []
    | ScopeSite \<Rightarrow> TrimSpace (scID s) \<noteq> []
    | ScopeResource \<Rightarrow> TrimSpace (scID s) \<noteq> []
    | ScopeOther _ \<Rightarrow> False)"

record Role =
  rlName :: string
  rlDescription :: string
  rlPermissions :: "Permission list"

record PermissionDefinition =
  pdName :: Permission
  pdDescription :: string

definition BuiltinPermissions :: "PermissionDefinition list" where
  "BuiltinPermissions =
    [\<lparr>pdName = PermissionAll, pdDescription = ''All permissions; valid only through an explicit role binding''\<rparr>,
     \<lparr>pdName = PermissionOverviewRead, pdDescription = ''Read system overview''\<rparr>,
     \<lparr>pdName = PermissionUsersRead, pdDescription = ''Read local identities''\<rparr>,
     \<lparr>pdName = PermissionUsersWrite, pdDescription = ''Manage local identities''\<rparr>,
     \<lparr>pdName = PermissionRolesRead, pdDescription = ''Read roles and bindings''\<rparr>,
     \<lparr>pdName = PermissionRolesWrite, pdDescription = ''Manage roles and bindings''\<rparr>,
     \<lparr>pdName = PermissionAuditRead, pdDescription = ''Read security audit events''\<rparr>,
     \<lparr>pdName = PermissionResourcesRead, pdDescription = ''Read resource inventory and observed state''\<rparr>,
     \<lparr>pdName = PermissionRevisionsWrite, pdDescription = ''Create immutable configuration revisions''\<rparr>,
     \<lparr>pdName = PermissionActionsRead, pdDescription = ''Read executable action descriptors''\<rparr>,
     \<lparr>pdName = PermissionChangesWrite, pdDescription = ''Create changes''\<rparr>,
     \<lparr>pdName = PermissionChangesApprove, pdDescription = ''Approve high-risk changes''\<rparr>,
     \<lparr>pdName = PermissionJobsRead, pdDescription = ''Read job execution state and outputs''\<rparr>,
     \<lparr>pdName = PermissionJobsCancel, pdDescription = ''Request job cancellation''\<rparr>,
     \<lparr>pdName = PermissionActionsExecute, pdDescription = ''Execute allowlisted orchestration actions''\<rparr>,
     \<lparr>pdName = PermissionNodeEnrollmentPlan, pdDescription = ''Plan node enrollment''\<rparr>,
     \<lparr>pdName = PermissionNodeLifecycleRead, pdDescription = ''Read node lifecycle state''\<rparr>,
     \<lparr>pdName = PermissionNodeLifecyclePlan, pdDescription = ''Plan guarded node lifecycle transitions''\<rparr>,
     \<lparr>pdName = PermissionAutomationPlan, pdDescription = ''Plan software automation without host mutation''\<rparr>,
     \<lparr>pdName = PermissionPXEPlan, pdDescription = ''Plan PXE deployment without host mutation''\<rparr>,
     \<lparr>pdName = PermissionMarketRead, pdDescription = ''Read Market manifests''\<rparr>,
     \<lparr>pdName = PermissionDomainProviderResolve, pdDescription = ''Resolve compatible directory-service providers''\<rparr>,
     \<lparr>pdName = PermissionDomainLifecyclePlan, pdDescription = ''Plan directory-service lifecycle operations''\<rparr>,
     \<lparr>pdName = PermissionInventoryNormalize, pdDescription = ''Normalize inventory observations''\<rparr>,
     \<lparr>pdName = PermissionAgentEnrollmentNormalize, pdDescription = ''Normalize agent enrollment contracts''\<rparr>,
     \<lparr>pdName = PermissionInventoryReconcile, pdDescription = ''Reconcile inventory observations''\<rparr>,
     \<lparr>pdName = PermissionInventoryFreshness, pdDescription = ''Evaluate inventory freshness''\<rparr>,
     \<lparr>pdName = PermissionAgentHeartbeatEvaluate, pdDescription = ''Evaluate agent heartbeat health''\<rparr>,
     \<lparr>pdName = PermissionAgentLeaseEvaluate, pdDescription = ''Evaluate agent lease state''\<rparr>,
     \<lparr>pdName = PermissionCoreObjectsRead, pdDescription = ''Read distributed core topology and state objects''\<rparr>,
     \<lparr>pdName = PermissionCoreObjectsWrite, pdDescription = ''Apply typed distributed core object changes through Change and Job''\<rparr>]"

record Binding =
  bnSubjectID :: string
  bnRoleName :: string
  bnScope :: Scope

record EffectiveGrant =
  egRoleName :: string
  egScope :: Scope
  egPermissions :: "Permission list"

record Authorizer =
  auRoles :: "(string \<times> Permission list) list"
  auBindings :: "Binding list"

datatype rbac_error = RbacMsg string | RbacCtx ctx_error

definition NewAuthorizer :: Authorizer where
  "NewAuthorizer = \<lparr>auRoles = [], auBindings = []\<rparr>"

definition RegisterRole :: "Role \<Rightarrow> Authorizer \<Rightarrow> Authorizer \<times> (rbac_error + unit)" where
  "RegisterRole role a =
     (let name = TrimSpace (rlName role) in
      if name = [] \<or> length (rlPermissions role) = 0
        then (a, Inl (RbacMsg ''role name and permissions are required''))
      else if list_ex (\<lambda>p. TrimSpace p = []) (rlPermissions role)
        then (a, Inl (RbacMsg ''empty permission is not allowed''))
      else (a\<lparr>auRoles := gput name (remdups (rlPermissions role)) (auRoles a)\<rparr>, Inr ()))"

definition Bind :: "Binding \<Rightarrow> Authorizer \<Rightarrow> Authorizer \<times> (rbac_error + unit)" where
  "Bind b a =
     (if TrimSpace (bnSubjectID b) = [] \<or> \<not> Scope_Valid (bnScope b)
        then (a, Inl (RbacMsg ''subject and valid scope are required''))
      else if gget (auRoles a) (bnRoleName b) = None then (a, Inl (RbacMsg ''unknown role''))
      else (a\<lparr>auBindings := auBindings a @ [b]\<rparr>, Inr ()))"

definition scopeContains :: "Scope \<Rightarrow> Scope \<Rightarrow> bool" where
  "scopeContains binding target \<longleftrightarrow>
     (scKind binding = ScopeGlobal \<and> scID binding = [])
   \<or> (scKind binding = scKind target \<and> scID binding = scID target)"

fun allowed_loop :: "(string \<times> Permission list) list \<Rightarrow> string \<Rightarrow> Permission \<Rightarrow> Scope \<Rightarrow> Binding list \<Rightarrow> bool" where
  "allowed_loop roles subjectID permission target [] = False"
| "allowed_loop roles subjectID permission target (b # bs) =
     (if bnSubjectID b \<noteq> subjectID \<or> \<not> scopeContains (bnScope b) target
        then allowed_loop roles subjectID permission target bs
      else case gget roles (bnRoleName b) of
        None \<Rightarrow> allowed_loop roles subjectID permission target bs
      | Some permissions \<Rightarrow>
          if PermissionAll \<in> set permissions then True
          else if permission \<in> set permissions then True
          else allowed_loop roles subjectID permission target bs)"

definition Allowed :: "string \<Rightarrow> Permission \<Rightarrow> Scope \<Rightarrow> Authorizer \<Rightarrow> bool" where
  "Allowed subjectID permission target a =
     (if TrimSpace subjectID = [] \<or> TrimSpace permission = [] \<or> \<not> Scope_Valid target then False
      else allowed_loop (auRoles a) subjectID permission target (auBindings a))"

fun grants_loop :: "(string \<times> Permission list) list \<Rightarrow> string \<Rightarrow> Binding list \<Rightarrow> EffectiveGrant list" where
  "grants_loop roles subjectID [] = []"
| "grants_loop roles subjectID (b # bs) =
     (if bnSubjectID b \<noteq> subjectID then grants_loop roles subjectID bs
      else case gget roles (bnRoleName b) of
        None \<Rightarrow> grants_loop roles subjectID bs
      | Some permissions \<Rightarrow>
          \<lparr>egRoleName = bnRoleName b, egScope = bnScope b, egPermissions = sort permissions\<rparr>
          # grants_loop roles subjectID bs)"

definition grant_order :: "EffectiveGrant \<Rightarrow> string \<times> string \<times> string" where
  "grant_order g = (scope_kind_text (scKind (egScope g)), scID (egScope g), egRoleName g)"

text \<open>The context is read again in every round; \<open>ctx\<close> is its state throughout the call.\<close>

definition EffectiveGrants :: "ctx \<Rightarrow> string \<Rightarrow> Authorizer option \<Rightarrow> rbac_error + EffectiveGrant list" where
  "EffectiveGrants ctx subjectID a =
     (case a of None \<Rightarrow> Inl (RbacMsg ''subject is required'')
      | Some au \<Rightarrow>
          if TrimSpace subjectID = [] then Inl (RbacMsg ''subject is required'')
          else case ctx of Some e \<Rightarrow> Inl (RbacCtx e)
          | None \<Rightarrow> Inr (sort_key grant_order (grants_loop (auRoles au) subjectID (auBindings au))))"

definition BuiltinRoles :: "Role list" where
  "BuiltinRoles =
    [\<lparr>rlName = ''administrator'', rlDescription = ''Full Control Center administration'',
      rlPermissions = [PermissionAll]\<rparr>,
     \<lparr>rlName = ''operator'', rlDescription = ''Routine identity and system operations'',
      rlPermissions = [PermissionOverviewRead, PermissionUsersRead, PermissionUsersWrite, PermissionRolesRead,
        PermissionResourcesRead, PermissionRevisionsWrite, PermissionActionsRead, PermissionChangesWrite,
        PermissionJobsRead, PermissionJobsCancel, PermissionNodeEnrollmentPlan, PermissionNodeLifecycleRead,
        PermissionNodeLifecyclePlan, PermissionAutomationPlan, PermissionPXEPlan, PermissionMarketRead,
        PermissionDomainProviderResolve, PermissionDomainLifecyclePlan, PermissionInventoryNormalize, PermissionAgentEnrollmentNormalize,
        PermissionInventoryReconcile, PermissionInventoryFreshness, PermissionAgentHeartbeatEvaluate, PermissionAgentLeaseEvaluate,
        PermissionCoreObjectsRead, PermissionCoreObjectsWrite]\<rparr>,
     \<lparr>rlName = ''auditor'', rlDescription = ''Read-only security and audit access'',
      rlPermissions = [PermissionOverviewRead, PermissionAuditRead, PermissionUsersRead, PermissionRolesRead,
        PermissionResourcesRead, PermissionActionsRead, PermissionJobsRead, PermissionMarketRead,
        PermissionNodeLifecycleRead, PermissionCoreObjectsRead]\<rparr>,
     \<lparr>rlName = ''viewer'', rlDescription = ''Read-only overview access'',
      rlPermissions = [PermissionOverviewRead, PermissionResourcesRead, PermissionActionsRead, PermissionMarketRead,
        PermissionNodeLifecycleRead, PermissionCoreObjectsRead]\<rparr>]"

subsection \<open>The check against the grants\<close>

definition grant_covers :: "Permission \<Rightarrow> Scope \<Rightarrow> EffectiveGrant \<Rightarrow> bool" where
  "grant_covers p t g \<longleftrightarrow> scopeContains (egScope g) t \<and> (PermissionAll \<in> set (egPermissions g) \<or> p \<in> set (egPermissions g))"

lemma allowed_loop_grants:
  "allowed_loop roles s p t bs \<longleftrightarrow> (\<exists>g \<in> set (grants_loop roles s bs). grant_covers p t g)"
  by (induction bs) (auto simp: grant_covers_def split: option.splits)

text \<open>Commands to an authorizer, and the grants a list of accepted commands amounts to.\<close>

datatype rbac_op = OpRole Role | OpBind Binding

fun apply_rbac :: "rbac_op \<Rightarrow> Authorizer \<Rightarrow> Authorizer" where
  "apply_rbac (OpRole r) a = fst (RegisterRole r a)"
| "apply_rbac (OpBind b) a = fst (Bind b a)"

definition run_rbac :: "rbac_op list \<Rightarrow> Authorizer" where
  "run_rbac ops = foldl (\<lambda>a op. apply_rbac op a) NewAuthorizer ops"

definition role_ok :: "Role \<Rightarrow> bool" where
  "role_ok r \<longleftrightarrow> TrimSpace (rlName r) \<noteq> [] \<and> rlPermissions r \<noteq> [] \<and> (\<forall>p \<in> set (rlPermissions r). TrimSpace p \<noteq> [])"

text \<open>The permissions of a role name after a list of commands: those of its last valid registration.\<close>

fun role_permissions :: "rbac_op list \<Rightarrow> string \<Rightarrow> Permission set option" where
  "role_permissions [] n = None"
| "role_permissions (OpRole r # ops) n =
     (if role_ok r \<and> TrimSpace (rlName r) = n then Some (set (rlPermissions r)) else role_permissions ops n)"
| "role_permissions (OpBind b # ops) n = role_permissions ops n"

lemma run_rbac_snoc: "run_rbac (ops @ [op]) = apply_rbac op (run_rbac ops)"
  by (simp add: run_rbac_def)

lemma run_rbac_roles: "map_option set (gget (auRoles (run_rbac ops)) n) = role_permissions (rev ops) n"
proof (induction ops rule: rev_induct)
  case Nil
  then show ?case by (simp add: run_rbac_def NewAuthorizer_def)
next
  case (snoc op ops)
  then show ?case
    by (cases op) (auto simp: run_rbac_snoc RegisterRole_def Bind_def role_ok_def Let_def list_ex_iff)
qed

lemma run_rbac_bindings:
  "b \<in> set (auBindings (run_rbac ops)) \<longleftrightarrow>
     (\<exists>pre post. ops = pre @ OpBind b # post \<and> TrimSpace (bnSubjectID b) \<noteq> [] \<and> Scope_Valid (bnScope b)
        \<and> role_permissions (rev pre) (bnRoleName b) \<noteq> None)"
proof (induction ops rule: rev_induct)
  case Nil
  then show ?case by (simp add: run_rbac_def NewAuthorizer_def)
next
  case (snoc op ops)
  have known: "gget (auRoles (run_rbac ops)) n = None \<longleftrightarrow> role_permissions (rev ops) n = None" for n
    using run_rbac_roles[of ops n] by (metis option.map_disc_iff)
  have split: "ops @ [op] = pre @ OpBind b # post \<longleftrightarrow>
      (post = [] \<and> pre = ops \<and> op = OpBind b) \<or> (\<exists>post'. post = post' @ [op] \<and> ops = pre @ OpBind b # post')"
    for pre post
    by (cases post rule: rev_cases) auto
  have "b \<in> set (auBindings (run_rbac (ops @ [op]))) \<longleftrightarrow> b \<in> set (auBindings (run_rbac ops))
      \<or> op = OpBind b \<and> TrimSpace (bnSubjectID b) \<noteq> [] \<and> Scope_Valid (bnScope b)
         \<and> role_permissions (rev ops) (bnRoleName b) \<noteq> None"
    by (cases op) (auto simp: run_rbac_snoc RegisterRole_def Bind_def known Let_def)
  then show ?case unfolding snoc.IH split by blast
qed

lemma grants_cover:
  "(\<exists>g \<in> set (grants_loop roles s bs). grant_covers p t g) \<longleftrightarrow>
     (\<exists>b \<in> set bs. \<exists>l. bnSubjectID b = s \<and> scopeContains (bnScope b) t \<and> gget roles (bnRoleName b) = Some l
        \<and> (PermissionAll \<in> set l \<or> p \<in> set l))"
  by (induction bs) (auto simp: grant_covers_def split: option.splits)

lemma Allowed_run:
  "Allowed s p t (run_rbac ops) \<longleftrightarrow> TrimSpace s \<noteq> [] \<and> TrimSpace p \<noteq> [] \<and> Scope_Valid t
     \<and> (\<exists>b \<in> set (auBindings (run_rbac ops)). \<exists>ps. bnSubjectID b = s \<and> scopeContains (bnScope b) t
        \<and> role_permissions (rev ops) (bnRoleName b) = Some ps \<and> (PermissionAll \<in> ps \<or> p \<in> ps))"
proof -
  have roles: "role_permissions (rev ops) n = Some ps \<longleftrightarrow> (\<exists>l. gget (auRoles (run_rbac ops)) n = Some l \<and> ps = set l)" for n ps
    using run_rbac_roles[of ops n] by (metis map_option_eq_Some)
  show ?thesis
  proof (cases "TrimSpace s = [] \<or> TrimSpace p = [] \<or> \<not> Scope_Valid t")
    case False
    then show ?thesis unfolding Allowed_def allowed_loop_grants grants_cover roles by (simp only: if_False) blast
  qed (auto simp: Allowed_def)
qed

text \<open>
  C22: Authorization is deny by default and exact. After any sequence of commands a permission is
  allowed on a target just when the request is well-formed and some binding of that subject was
  accepted, made for a role known at that time, whose scope is global or is the target itself, and
  whose role, as last registered, carries the permission or the wildcard. The introspection of
  a subject shows the same authority: the check agrees with the effective grants.
\<close>

theorem Allowed_exact:
  "(Allowed s p t (run_rbac ops) \<longleftrightarrow> TrimSpace s \<noteq> [] \<and> TrimSpace p \<noteq> [] \<and> Scope_Valid t
     \<and> (\<exists>pre b post ps. ops = pre @ OpBind b # post \<and> bnSubjectID b = s \<and> Scope_Valid (bnScope b)
        \<and> role_permissions (rev pre) (bnRoleName b) \<noteq> None \<and> scopeContains (bnScope b) t
        \<and> role_permissions (rev ops) (bnRoleName b) = Some ps \<and> (PermissionAll \<in> ps \<or> p \<in> ps)))
   \<and> (Allowed s p t (run_rbac ops) \<longleftrightarrow> TrimSpace p \<noteq> [] \<and> Scope_Valid t
     \<and> (\<exists>gs. EffectiveGrants None s (Some (run_rbac ops)) = Inr gs \<and> (\<exists>g \<in> set gs. grant_covers p t g)))"
proof
  show "Allowed s p t (run_rbac ops) \<longleftrightarrow> TrimSpace s \<noteq> [] \<and> TrimSpace p \<noteq> [] \<and> Scope_Valid t
     \<and> (\<exists>pre b post ps. ops = pre @ OpBind b # post \<and> bnSubjectID b = s \<and> Scope_Valid (bnScope b)
        \<and> role_permissions (rev pre) (bnRoleName b) \<noteq> None \<and> scopeContains (bnScope b) t
        \<and> role_permissions (rev ops) (bnRoleName b) = Some ps \<and> (PermissionAll \<in> ps \<or> p \<in> ps))"
    unfolding Allowed_run Bex_def run_rbac_bindings by blast
  show "Allowed s p t (run_rbac ops) \<longleftrightarrow> TrimSpace p \<noteq> [] \<and> Scope_Valid t
     \<and> (\<exists>gs. EffectiveGrants None s (Some (run_rbac ops)) = Inr gs \<and> (\<exists>g \<in> set gs. grant_covers p t g))"
    by (auto simp: EffectiveGrants_def Allowed_def allowed_loop_grants)
qed

subsection \<open>The built-in roles\<close>

definition builtin_setup :: "Binding list \<Rightarrow> rbac_op list" where
  "builtin_setup bs = map OpRole BuiltinRoles @ map OpBind bs"

lemma role_permissions_binds: "role_permissions (map OpBind bs @ ops) n = role_permissions ops n"
  by (induction bs) auto

lemma role_permissions_member:
  "role_permissions (map OpRole rs) n = Some ps \<Longrightarrow>
     \<exists>r \<in> set rs. TrimSpace (rlName r) = n \<and> ps = set (rlPermissions r)"
  by (induction rs) (auto split: if_splits)

lemma builtin_role_of:
  assumes "role_permissions (rev (builtin_setup bs)) n = Some ps"
  shows "\<exists>r \<in> set BuiltinRoles. TrimSpace (rlName r) = n \<and> ps = set (rlPermissions r)"
  using assms role_permissions_member[of "rev BuiltinRoles" n ps]
  by (simp add: builtin_setup_def role_permissions_binds rev_map)

definition reserved :: "Permission set" where
  "reserved = {PermissionAll, PermissionChangesApprove, PermissionActionsExecute, PermissionRolesWrite}"

lemma builtin_reserved:
  "\<forall>r \<in> set BuiltinRoles. TrimSpace (rlName r) \<noteq> ''administrator'' \<longrightarrow> set (rlPermissions r) \<inter> reserved = {}"
  by (simp add: BuiltinRoles_def reserved_def permission_defs trim_defs)

text \<open>
  The built-in roles separate duties. Every permission a built-in role uses is in the registry of
  built-in permissions, and with the built-in roles registered and any bindings made, nobody
  without a binding to the administrator role can approve changes, execute actions or manage
  roles, on any target.
\<close>

lemma builtin_separation:
  assumes "\<forall>b \<in> set bs. bnSubjectID b = s \<longrightarrow> bnRoleName b \<noteq> ''administrator''"
    and "p \<in> {PermissionChangesApprove, PermissionActionsExecute, PermissionRolesWrite}"
  shows "\<not> Allowed s p t (run_rbac (builtin_setup bs))
    \<and> (\<forall>r \<in> set BuiltinRoles. set (rlPermissions r) \<subseteq> pdName ` set BuiltinPermissions)"
proof
  show "\<forall>r \<in> set BuiltinRoles. set (rlPermissions r) \<subseteq> pdName ` set BuiltinPermissions"
    by (simp add: BuiltinRoles_def BuiltinPermissions_def)
  show "\<not> Allowed s p t (run_rbac (builtin_setup bs))"
  proof
    assume "Allowed s p t (run_rbac (builtin_setup bs))"
    then obtain b ps where b: "b \<in> set (auBindings (run_rbac (builtin_setup bs)))" "bnSubjectID b = s"
        "role_permissions (rev (builtin_setup bs)) (bnRoleName b) = Some ps" "PermissionAll \<in> ps \<or> p \<in> ps"
      unfolding Allowed_run by blast
    have "OpBind b \<in> set (builtin_setup bs)" using b(1) unfolding run_rbac_bindings by auto
    then have "bnRoleName b \<noteq> ''administrator''" using assms(1) b(2) by (auto simp: builtin_setup_def)
    then have "ps \<inter> reserved = {}" using builtin_role_of[OF b(3)] builtin_reserved by metis
    then show False using b(4) assms(2) by (auto simp: reserved_def)
  qed
qed

end
