(* ===== verification/Go_Text.thy ===== *)
theory Go_Text
  imports Go_Strings
begin

text \<open>
  Text helpers of the distributed contracts: the identifier patterns the validators compile with
  \<^verbatim>\<open>regexp.MustCompile\<close>, \<^verbatim>\<open>strings.ToUpper\<close>, the wrapping of an error in another, and the order in which a loop over a map sees its fields.
\<close>

subsection \<open>Wrapped errors\<close>

definition map_error :: "('a \<Rightarrow> 'b) \<Rightarrow> 'a + 'c \<Rightarrow> 'b + 'c" where
  "map_error f x = (case x of Inl e \<Rightarrow> Inl (f e) | Inr v \<Rightarrow> Inr v)"

lemma map_error_Inr [simp]: "map_error f x = Inr v \<longleftrightarrow> x = Inr v"
  by (auto simp: map_error_def split: sum.splits)

lemma map_error_Inl [simp]: "map_error f x = Inl e \<longleftrightarrow> (\<exists>e'. x = Inl e' \<and> e = f e')"
  by (auto simp: map_error_def split: sum.splits)

text \<open>An early return followed by the rest of the function.\<close>

lemma early_return_Inr:
  "(case x of Inl e \<Rightarrow> Inl e | Inr u \<Rightarrow> k u) = Inr v \<longleftrightarrow> (\<exists>u. x = Inr u \<and> k u = Inr v)"
  by (cases x) auto

subsection \<open>Identifier patterns\<close>

definition ascii_digit :: "char \<Rightarrow> bool" where
  "ascii_digit c \<longleftrightarrow> CHR ''0'' \<le> c \<and> c \<le> CHR ''9''"

definition ascii_lower :: "char \<Rightarrow> bool" where
  "ascii_lower c \<longleftrightarrow> CHR ''a'' \<le> c \<and> c \<le> CHR ''z''"

definition ascii_upper :: "char \<Rightarrow> bool" where
  "ascii_upper c \<longleftrightarrow> CHR ''A'' \<le> c \<and> c \<le> CHR ''Z''"

definition alnum :: "char \<Rightarrow> bool" where
  "alnum c \<longleftrightarrow> ascii_lower c \<or> ascii_upper c \<or> ascii_digit c"

text \<open>
  The expression \<^verbatim>\<open>^[A-Za-z0-9](?:[A-Za-z0-9x]{0,n}[A-Za-z0-9])?$\<close>, with \<open>punct\<close> for the
  characters \<^verbatim>\<open>x\<close>: one alphanumeric character, or two with at most \<open>n\<close> permitted ones between.
\<close>

definition match_identifier :: "char list \<Rightarrow> nat \<Rightarrow> string \<Rightarrow> bool" where
  "match_identifier punct n s \<longleftrightarrow>
     (case s of [] \<Rightarrow> False
      | c # r \<Rightarrow> alnum c \<and> (r = []
          \<or> alnum (last r) \<and> length (butlast r) \<le> n \<and> list_all (\<lambda>d. alnum d \<or> d \<in> set punct) (butlast r)))"

definition lower_char :: "char \<Rightarrow> char" where
  "lower_char c = (if ascii_upper c then char_of (of_char c + 32 :: nat) else c)"

lemmas char_class_defs = alnum_def ascii_lower_def ascii_upper_def ascii_digit_def

lemma match_identifier_chars:
  assumes "match_identifier punct n s"
  shows "s \<noteq> [] \<and> length s \<le> n + 2 \<and> list_all (\<lambda>d. alnum d \<or> d \<in> set punct) s"
proof (cases s)
  case (Cons c r)
  show ?thesis
  proof (cases "r = []")
    case False
    have "list_all (\<lambda>d. alnum d \<or> d \<in> set punct) (butlast r) \<and> alnum (last r)"
      using assms Cons False by (simp add: match_identifier_def)
    then have "list_all (\<lambda>d. alnum d \<or> d \<in> set punct) r"
      by (metis (no_types, lifting) append_butlast_last_id False list_all_append list.pred_inject)
    then show ?thesis using assms Cons False by (auto simp: match_identifier_def)
  qed (use assms Cons in \<open>simp add: match_identifier_def\<close>)
qed (use assms in \<open>simp add: match_identifier_def\<close>)

subsection \<open>Upper case\<close>

text \<open>
  \<^verbatim>\<open>strings.ToUpper\<close> as far as its result can be an ASCII string: the ASCII letters, and the two
  other runes whose upper case is ASCII, U+0131 (bytes C4 B1) and U+017F (bytes C5 BF). Any further
  rune is mapped by Go to a rune outside ASCII and is left alone here.
\<close>

definition upper_char :: "char \<Rightarrow> char" where
  "upper_char c = (if ascii_lower c then char_of (of_char c - 32 :: nat) else c)"

fun ToUpper :: "string \<Rightarrow> string" where
  "ToUpper (a # b # s) =
     (if a = CHR 0xC4 \<and> b = CHR 0xB1 then CHR ''I'' # ToUpper s
      else if a = CHR 0xC5 \<and> b = CHR 0xBF then CHR ''S'' # ToUpper s
      else upper_char a # ToUpper (b # s))"
| "ToUpper [a] = [upper_char a]"
| "ToUpper [] = []"

lemma ToUpper_fixed:
  assumes "list_all ascii_upper s" shows "ToUpper s = s"
proof -
  have "upper_char c = c" "c \<noteq> CHR 0xC4" "c \<noteq> CHR 0xC5" if "ascii_upper c" for c
    using that by (auto simp: upper_char_def char_class_defs less_eq_char_def)
  then show ?thesis using assms by (induction s rule: ToUpper.induct) auto
qed


subsection \<open>Printable ASCII\<close>

text \<open>Strings of printable ASCII characters without the blank: nothing to trim, one rune per byte.\<close>

definition graphic :: "char \<Rightarrow> bool" where
  "graphic c \<longleftrightarrow> 0x21 \<le> (of_char c :: nat) \<and> (of_char c :: nat) \<le> 0x7E"

lemma strip_graphic:
  assumes "list_all graphic s" "\<And>a b. p2 a b \<Longrightarrow> \<not> graphic a" "\<And>a b c. p3 a b c \<Longrightarrow> \<not> graphic a"
  shows "strip p2 p3 s = s"
proof (cases s)
  case (Cons a r)
  then have a: "graphic a" using assms(1) by simp
  have "\<not> space1 a" using a by (auto simp: space1_def graphic_def)
  moreover have "p2 a b = False" "p3 a b c = False" for b c using assms(2,3) a by blast+
  ultimately show ?thesis by (simp add: Cons split: list.split)
qed simp

lemma TrimSpace_graphic: "list_all graphic s \<Longrightarrow> TrimSpace s = s"
proof -
  assume s: "list_all graphic s"
  have "trim_left s = s" unfolding trim_left_def
    by (rule strip_graphic[OF s]) (auto simp: space2_def space3_def graphic_def)
  moreover have "strip (\<lambda>b a. space2 a b) (\<lambda>c b a. space3 a b c) (rev s) = rev s"
  proof (rule strip_graphic)
    show "list_all graphic (rev s)" using s by simp
    show "\<not> graphic b" if "space2 a b" for b a using that by (auto simp: space2_def graphic_def)
    show "\<not> graphic c" if "space3 a b c" for c b a
    proof
      assume g: "graphic c"
      have "(of_char (CHR 0x80) :: nat) \<le> of_char c" if "CHR 0x80 \<le> c" using that by (simp add: less_eq_char_def)
      then show False using that g by (auto simp: space3_def graphic_def)
    qed
  qed
  ultimately show ?thesis by (simp add: TrimSpace_def trim_right_def)
qed

lemma rune_list_graphic:
  assumes "list_all graphic s" shows "rune_list s = map of_char s"
proof -
  have "runes_of 0 (map of_char s) = map (\<lambda>c. (of_char c, True)) s"
    using assms by (induction s) (auto simp: decode_rune_def graphic_def)
  then show ?thesis by (simp add: rune_list_def bytes_of_def)
qed

lemma graphic_not_control:
  "graphic c \<Longrightarrow> \<not> unicode_IsControl (of_char c) \<and> \<not> unicode_IsSpace (of_char c)"
  by (auto simp: graphic_def unicode_IsControl_def unicode_IsSpace_def)

lemma alnum_graphic: "alnum c \<Longrightarrow> graphic c"
  by (auto simp: char_class_defs graphic_def less_eq_char_def)

subsection \<open>Loops over a map of fields\<close>

text \<open>
  Validators range over a Go map literal from field names to values. The iteration order of such a
  loop is a permutation of the fields; it decides which of several errors is returned.
\<close>

type_synonym field_order = "(string \<times> string) list \<Rightarrow> (string \<times> string) list"

definition order_ok :: "('a list \<Rightarrow> 'a list) \<Rightarrow> bool" where
  "order_ok ord \<longleftrightarrow> (\<forall>xs. mset (ord xs) = mset xs)"

lemma order_ok_set: "order_ok ord \<Longrightarrow> set (ord xs) = set xs"
  unfolding order_ok_def by (metis mset_eq_setD)

end
