(* ===== verification/Core_Metadata.thy ===== *)
theory Core_Metadata
  imports Go_Text
begin

text \<open>
  Package \<^verbatim>\<open>internal/corecontracts\<close>, file \<^verbatim>\<open>metadata.go\<close>: the envelope every synchronized object
  carries, the compare-and-swap precondition of an update and the rules a stored successor obeys.
  The functions are pure; an error is the sentinel of the source with the rest of its text.
\<close>

subsection \<open>Envelope\<close>

definition maxIdentifierLength :: nat where
  "maxIdentifierLength = 255"

definition identifierPattern :: "string \<Rightarrow> bool" where
  "identifierPattern = match_identifier ''._:-'' 253"

datatype core_error =
    ErrInvalidMetadata string
  | ErrPreconditionRequired
  | ErrInvalidPrecondition string
  | ErrPreconditionFailed string
  | ErrInvalidTransition string

record ObjectMetadata =
  omObjectID :: string
  omScopeID :: string
  omOwnerScope :: string
  omGeneration :: uint64
  omResourceVersion :: string
  omCreatedAt :: "time"
  omUpdatedAt :: "time"

record ObjectPrecondition =
  opObjectID :: string
  opResourceVersion :: string
  opGeneration :: "uint64 option"

definition core_error_text :: "core_error \<Rightarrow> string" where
  "core_error_text e =
     (case e of
        ErrInvalidMetadata m \<Rightarrow> ''invalid distributed object metadata: '' @ m
      | ErrPreconditionRequired \<Rightarrow> ''object precondition is required''
      | ErrInvalidPrecondition m \<Rightarrow> ''invalid object precondition: '' @ m
      | ErrPreconditionFailed m \<Rightarrow> ''object precondition failed: '' @ m
      | ErrInvalidTransition m \<Rightarrow> ''invalid distributed object transition: '' @ m)"

subsection \<open>Validation\<close>

definition validateIdentifier :: "string \<Rightarrow> string \<Rightarrow> string + unit" where
  "validateIdentifier field v =
     (if v = [] \<or> TrimSpace v \<noteq> v then Inl (field @ '' is required and must not have surrounding whitespace'')
      else if length v > maxIdentifierLength then Inl (field @ '' exceeds 255 bytes'')
      else if \<not> identifierPattern v
        then Inl (field @ '' must use letters, digits, dot, underscore, colon or hyphen and have alphanumeric ends'')
      else Inr ())"

definition validateOpaqueVersion :: "string \<Rightarrow> string + unit" where
  "validateOpaqueVersion v =
     (if v = [] \<or> TrimSpace v \<noteq> v
        then Inl ''resource_version is required and must not have surrounding whitespace''
      else if length v > maxIdentifierLength then Inl ''resource_version exceeds 255 bytes''
      else if list_ex (\<lambda>r. unicode_IsControl r \<or> unicode_IsSpace r) (rune_list v)
        then Inl ''resource_version contains whitespace or control characters''
      else Inr ())"

definition ObjectMetadata_Validate :: "ObjectMetadata \<Rightarrow> core_error + unit" where
  "ObjectMetadata_Validate m = first_error
     [map_error ErrInvalidMetadata (validateIdentifier ''object_id'' (omObjectID m)),
      map_error ErrInvalidMetadata (validateIdentifier ''scope_id'' (omScopeID m)),
      map_error ErrInvalidMetadata (validateIdentifier ''owner_scope'' (omOwnerScope m)),
      require (omGeneration m \<noteq> 0) (ErrInvalidMetadata ''generation must be positive''),
      map_error ErrInvalidMetadata (validateOpaqueVersion (omResourceVersion m)),
      require (\<not> (IsZero (omCreatedAt m) \<or> IsZero (omUpdatedAt m)))
        (ErrInvalidMetadata ''created_at and updated_at are required''),
      require (\<not> omUpdatedAt m < omCreatedAt m) (ErrInvalidMetadata ''updated_at precedes created_at'')]"

definition ObjectPrecondition_ValidateAgainst :: "ObjectPrecondition \<Rightarrow> ObjectMetadata \<Rightarrow> core_error + unit" where
  "ObjectPrecondition_ValidateAgainst p current = first_error
     [require (\<not> (opObjectID p = [] \<or> opResourceVersion p = [])) ErrPreconditionRequired,
      map_error ErrInvalidPrecondition (validateIdentifier ''object_id'' (opObjectID p)),
      map_error ErrInvalidPrecondition (validateOpaqueVersion (opResourceVersion p)),
      require (opGeneration p \<noteq> Some 0) (ErrInvalidPrecondition ''generation must be positive when supplied''),
      ObjectMetadata_Validate current,
      require (opObjectID p = omObjectID current) (ErrPreconditionFailed ''object''),
      require (opResourceVersion p = omResourceVersion current) (ErrPreconditionFailed ''resource version''),
      require (case opGeneration p of None \<Rightarrow> True | Some g \<Rightarrow> g = omGeneration current)
        (ErrPreconditionFailed ''generation'')]"

text \<open>The generation a successor must have; \<open>None\<close> when it would overflow (\<^verbatim>\<open>math.MaxUint64\<close> is \<open>- 1\<close>).\<close>

definition wantGeneration :: "uint64 \<Rightarrow> bool \<Rightarrow> uint64 option" where
  "wantGeneration g desiredChanged =
     (if desiredChanged then (if g = - 1 then None else Some (g + 1)) else Some g)"

definition ValidateSuccessor :: "ObjectMetadata \<Rightarrow> ObjectMetadata \<Rightarrow> bool \<Rightarrow> core_error + unit" where
  "ValidateSuccessor current nxt desiredChanged = first_error
     [map_error (\<lambda>e. ErrInvalidTransition (''current: '' @ core_error_text e)) (ObjectMetadata_Validate current),
      map_error (\<lambda>e. ErrInvalidTransition (''next: '' @ core_error_text e)) (ObjectMetadata_Validate nxt),
      require (omObjectID nxt = omObjectID current) (ErrInvalidTransition ''object_id is immutable''),
      require (omCreatedAt nxt = omCreatedAt current) (ErrInvalidTransition ''created_at is immutable''),
      require (\<not> omUpdatedAt nxt < omUpdatedAt current) (ErrInvalidTransition ''updated_at moved backwards''),
      require (omResourceVersion nxt \<noteq> omResourceVersion current)
        (ErrInvalidTransition ''resource_version must change on every stored update''),
      require (desiredChanged \<or> omScopeID nxt = omScopeID current \<and> omOwnerScope nxt = omOwnerScope current)
        (ErrInvalidTransition ''scope ownership changes require a desired generation change''),
      (case wantGeneration (omGeneration current) desiredChanged of
         None \<Rightarrow> Inl (ErrInvalidTransition ''generation overflow'')
       | Some want \<Rightarrow> require (omGeneration nxt = want)
           (ErrInvalidTransition (''generation is '' @ show_uint64 (omGeneration nxt) @ '', want '' @ show_uint64 want)))]"

subsection \<open>What acceptance means\<close>

definition metadata_ok :: "ObjectMetadata \<Rightarrow> bool" where
  "metadata_ok m \<longleftrightarrow> ObjectMetadata_Validate m = Inr ()"

lemma metadata_times: "metadata_ok m \<Longrightarrow> omCreatedAt m \<noteq> 0 \<and> omUpdatedAt m \<noteq> 0 \<and> omCreatedAt m \<le> omUpdatedAt m"
  by (auto simp: metadata_ok_def ObjectMetadata_Validate_def)

lemma metadata_generation: "metadata_ok m \<Longrightarrow> omGeneration m \<noteq> 0"
  by (simp add: metadata_ok_def ObjectMetadata_Validate_def)

lemma ValidateAgainst_current:
  "ObjectPrecondition_ValidateAgainst p m = Inr () \<Longrightarrow>
   metadata_ok m \<and> opObjectID p = omObjectID m \<and> opResourceVersion p = omResourceVersion m"
  by (simp add: ObjectPrecondition_ValidateAgainst_def metadata_ok_def)

lemma ValidateAgainst_cong:
  assumes "ObjectPrecondition_ValidateAgainst p m = Inr ()" "metadata_ok m'"
    and "omObjectID m' = omObjectID m" "omResourceVersion m' = omResourceVersion m" "omGeneration m' = omGeneration m"
  shows "ObjectPrecondition_ValidateAgainst p m' = Inr ()"
  using assms by (auto simp: ObjectPrecondition_ValidateAgainst_def metadata_ok_def split: option.splits)

lemma ValidateSuccessor_iff:
  "ValidateSuccessor c n d = Inr () \<longleftrightarrow>
     metadata_ok c \<and> metadata_ok n \<and> omObjectID n = omObjectID c \<and> omCreatedAt n = omCreatedAt c
   \<and> omUpdatedAt c \<le> omUpdatedAt n \<and> omResourceVersion n \<noteq> omResourceVersion c
   \<and> (d \<or> omScopeID n = omScopeID c \<and> omOwnerScope n = omOwnerScope c)
   \<and> wantGeneration (omGeneration c) d = Some (omGeneration n)"
  by (auto simp: ValidateSuccessor_def metadata_ok_def split: option.splits)

lemma wantGeneration_unat:
  "wantGeneration g d = Some g' \<Longrightarrow> unat g' = unat g + (if d then 1 else 0)"
  by (auto simp: wantGeneration_def unatSuc split: if_splits)
     (metis add.commute add.right_inverse add_left_imp_eq unatSuc Suc_eq_plus1)

lemma graphic_version:
  assumes "v \<noteq> []" "list_all graphic v" "length v \<le> 255"
  shows "validateOpaqueVersion v = Inr ()"
proof -
  have "\<not> list_ex (\<lambda>r. unicode_IsControl r \<or> unicode_IsSpace r) (rune_list v)"
    using assms(2) graphic_not_control unfolding rune_list_graphic[OF assms(2)]
    by (auto simp: list_ex_iff list_all_iff)
  then show ?thesis using assms by (simp add: validateOpaqueVersion_def TrimSpace_graphic maxIdentifierLength_def)
qed

text \<open>A precondition that admitted one update admits no other: the successor has another resource version.\<close>

lemma precondition_used_up:
  assumes "ObjectPrecondition_ValidateAgainst p c = Inr ()" "ValidateSuccessor c n d = Inr ()"
  shows "ObjectPrecondition_ValidateAgainst p n = Inl (ErrPreconditionFailed ''resource version'')"
proof -
  have "validateIdentifier ''object_id'' (opObjectID p) = Inr ()" "validateOpaqueVersion (opResourceVersion p) = Inr ()"
      "opObjectID p \<noteq> []" "opResourceVersion p \<noteq> []" "opGeneration p \<noteq> Some 0"
    using assms(1) by (auto simp: ObjectPrecondition_ValidateAgainst_def)
  moreover have "opObjectID p = omObjectID n" "opResourceVersion p \<noteq> omResourceVersion n"
      "ObjectMetadata_Validate n = Inr ()"
    using ValidateAgainst_current[OF assms(1)] assms(2) by (auto simp: ValidateSuccessor_iff metadata_ok_def)
  ultimately show ?thesis
    by (simp add: ObjectPrecondition_ValidateAgainst_def require_def map_error_def)
qed

end
