(* ===== verification/Node_Lifecycle.thy ===== *)
theory Node_Lifecycle
  imports Core_Metadata
begin

text \<open>
  Package \<^verbatim>\<open>internal/nodelifecycle\<close>, file \<^verbatim>\<open>lifecycle.go\<close>: the states of a node, the table of
  transitions with the evidence each needs, and the validation of a lifecycle object and of a
  transition. A string type with named constants is a datatype with one constructor per constant and
  one for every other string.
\<close>

subsection \<open>States, evidence, objects\<close>

datatype State =
    StateDiscovered | StateEnrolling | StateReady | StateDegraded
  | StateDraining | StateMaintenance | StateUpdating | StateReplacing
  | StateRemoving | StateOffline | StateRecovering | StateRetired
  | StateUnsupported string

definition state_text :: "State \<Rightarrow> string" where
  "state_text s =
     (case s of
        StateDiscovered \<Rightarrow> ''discovered''
      | StateEnrolling \<Rightarrow> ''enrolling''
      | StateReady \<Rightarrow> ''ready''
      | StateDegraded \<Rightarrow> ''degraded''
      | StateDraining \<Rightarrow> ''draining''
      | StateMaintenance \<Rightarrow> ''maintenance''
      | StateUpdating \<Rightarrow> ''updating''
      | StateReplacing \<Rightarrow> ''replacing''
      | StateRemoving \<Rightarrow> ''removing''
      | StateOffline \<Rightarrow> ''offline''
      | StateRecovering \<Rightarrow> ''recovering''
      | StateRetired \<Rightarrow> ''retired''
      | StateUnsupported t \<Rightarrow> t)"

definition State_Valid :: "State \<Rightarrow> bool" where
  "State_Valid s \<longleftrightarrow> s \<in> set [StateDiscovered, StateEnrolling, StateReady, StateDegraded, StateDraining, StateMaintenance, StateUpdating, StateReplacing, StateRemoving, StateOffline, StateRecovering, StateRetired]"

definition State_Terminal :: "State \<Rightarrow> bool" where
  "State_Terminal s \<longleftrightarrow> s = StateRetired"

datatype TransitionType = TransitionDesired | TransitionObservation | TransitionUnsupported string

definition transition_type_text :: "TransitionType \<Rightarrow> string" where
  "transition_type_text t = (case t of TransitionDesired \<Rightarrow> ''desired'' | TransitionObservation \<Rightarrow> ''observation''
     | TransitionUnsupported s \<Rightarrow> s)"

definition TransitionType_valid :: "TransitionType \<Rightarrow> bool" where
  "TransitionType_valid t \<longleftrightarrow> t = TransitionDesired \<or> t = TransitionObservation"

datatype EvidenceCheck =
    CheckEnrollmentAuthorized | CheckIdentityVerified | CheckReadinessPassed | CheckMaintenancePreflightPassed
  | CheckSchedulingDisabled | CheckSchedulingEnabled | CheckDrainComplete | CheckNoActiveJobs
  | CheckNoActivePlacements | CheckStatefulWorkloadsSafe | CheckOperationApproved | CheckOperationCancelled
  | CheckRollbackVerified | CheckUpdateVerified | CheckReplacementNodeReady | CheckStateSynchronized
  | CheckSwitchoverVerified | CheckReplacementHealthVerified | CheckRemovalApproved | CheckRemovalVerified
  | CheckRecoveryStarted | CheckRecoveryVerified | CheckRetirementApproved | CheckNoManagedState
  | CheckUnsupported string

definition check_text :: "EvidenceCheck \<Rightarrow> string" where
  "check_text c =
     (case c of
        CheckEnrollmentAuthorized \<Rightarrow> ''enrollment-authorized''
      | CheckIdentityVerified \<Rightarrow> ''identity-verified''
      | CheckReadinessPassed \<Rightarrow> ''readiness-passed''
      | CheckMaintenancePreflightPassed \<Rightarrow> ''maintenance-preflight-passed''
      | CheckSchedulingDisabled \<Rightarrow> ''scheduling-disabled''
      | CheckSchedulingEnabled \<Rightarrow> ''scheduling-enabled''
      | CheckDrainComplete \<Rightarrow> ''drain-complete''
      | CheckNoActiveJobs \<Rightarrow> ''no-active-jobs''
      | CheckNoActivePlacements \<Rightarrow> ''no-active-placements''
      | CheckStatefulWorkloadsSafe \<Rightarrow> ''stateful-workloads-safe''
      | CheckOperationApproved \<Rightarrow> ''operation-approved''
      | CheckOperationCancelled \<Rightarrow> ''operation-cancelled''
      | CheckRollbackVerified \<Rightarrow> ''rollback-verified''
      | CheckUpdateVerified \<Rightarrow> ''update-verified''
      | CheckReplacementNodeReady \<Rightarrow> ''replacement-node-ready''
      | CheckStateSynchronized \<Rightarrow> ''state-synchronized''
      | CheckSwitchoverVerified \<Rightarrow> ''switchover-verified''
      | CheckReplacementHealthVerified \<Rightarrow> ''replacement-health-verified''
      | CheckRemovalApproved \<Rightarrow> ''removal-approved''
      | CheckRemovalVerified \<Rightarrow> ''removal-verified''
      | CheckRecoveryStarted \<Rightarrow> ''recovery-started''
      | CheckRecoveryVerified \<Rightarrow> ''recovery-verified''
      | CheckRetirementApproved \<Rightarrow> ''retirement-approved''
      | CheckNoManagedState \<Rightarrow> ''no-managed-state''
      | CheckUnsupported s \<Rightarrow> s)"

definition EvidenceCheck_valid :: "EvidenceCheck \<Rightarrow> bool" where
  "EvidenceCheck_valid c \<longleftrightarrow> c \<in> set
     [CheckEnrollmentAuthorized, CheckIdentityVerified, CheckReadinessPassed, CheckMaintenancePreflightPassed,
      CheckSchedulingDisabled, CheckSchedulingEnabled, CheckDrainComplete, CheckNoActiveJobs,
      CheckNoActivePlacements, CheckStatefulWorkloadsSafe, CheckOperationApproved, CheckOperationCancelled,
      CheckRollbackVerified, CheckUpdateVerified, CheckReplacementNodeReady, CheckStateSynchronized,
      CheckSwitchoverVerified, CheckReplacementHealthVerified, CheckRemovalApproved, CheckRemovalVerified,
      CheckRecoveryStarted, CheckRecoveryVerified, CheckRetirementApproved, CheckNoManagedState]"

record NodeLifecycle =
  nlMetadata :: ObjectMetadata
  nlState :: State
  nlStateChangedAt :: "time"
  nlReason :: string

record TransitionRequest =
  trTo :: State
  trType :: TransitionType
  trReason :: string
  trPrecondition :: ObjectPrecondition
  trPassedChecks :: "EvidenceCheck list"

record transitionRule =
  ruType :: TransitionType
  ruRequiredChecks :: "EvidenceCheck list"

datatype lifecycle_error =
    ErrInvalidLifecycle string
  | ErrInvalidEvidence string
  | LifecycleCore core_error
  | LifecycleWrapped string lifecycle_error

subsection \<open>The transition table\<close>

definition drainChecks :: "EvidenceCheck list" where
  "drainChecks = [CheckMaintenancePreflightPassed, CheckSchedulingDisabled, CheckDrainComplete,
     CheckNoActiveJobs, CheckNoActivePlacements, CheckStatefulWorkloadsSafe]"

definition rule :: "TransitionType \<Rightarrow> EvidenceCheck list \<Rightarrow> transitionRule" where
  "rule t cs = \<lparr>ruType = t, ruRequiredChecks = cs\<rparr>"

definition transitionRules :: "(State \<times> (State \<times> transitionRule) list) list" where
  "transitionRules =
   [(StateDiscovered, [(StateEnrolling, rule TransitionDesired [CheckEnrollmentAuthorized]),
      (StateRetired, rule TransitionDesired [CheckRetirementApproved, CheckNoManagedState])]),
    (StateEnrolling, [(StateReady, rule TransitionObservation [CheckIdentityVerified, CheckReadinessPassed]),
      (StateDegraded, rule TransitionObservation []),
      (StateOffline, rule TransitionObservation []),
      (StateRetired, rule TransitionDesired [CheckRetirementApproved, CheckNoManagedState])]),
    (StateReady, [(StateDegraded, rule TransitionObservation []),
      (StateDraining, rule TransitionDesired [CheckMaintenancePreflightPassed, CheckSchedulingDisabled]),
      (StateOffline, rule TransitionObservation [])]),
    (StateDegraded, [(StateReady, rule TransitionObservation [CheckReadinessPassed]),
      (StateDraining, rule TransitionDesired [CheckMaintenancePreflightPassed, CheckSchedulingDisabled]),
      (StateOffline, rule TransitionObservation []),
      (StateRecovering, rule TransitionObservation [CheckRecoveryStarted])]),
    (StateDraining, [(StateMaintenance, rule TransitionObservation drainChecks),
      (StateReady, rule TransitionDesired [CheckOperationCancelled, CheckSchedulingEnabled, CheckReadinessPassed]),
      (StateDegraded, rule TransitionObservation []),
      (StateOffline, rule TransitionObservation [])]),
    (StateMaintenance, [(StateReady, rule TransitionDesired [CheckSchedulingEnabled, CheckReadinessPassed]),
      (StateUpdating, rule TransitionDesired [CheckOperationApproved, CheckMaintenancePreflightPassed]),
      (StateReplacing, rule TransitionDesired [CheckOperationApproved, CheckReplacementNodeReady, CheckStateSynchronized]),
      (StateRemoving, rule TransitionDesired ([CheckOperationApproved, CheckRemovalApproved] @ drainChecks)),
      (StateDegraded, rule TransitionObservation []),
      (StateOffline, rule TransitionObservation [])]),
    (StateUpdating, [(StateReady, rule TransitionObservation [CheckUpdateVerified, CheckSchedulingEnabled, CheckReadinessPassed]),
      (StateMaintenance, rule TransitionObservation [CheckUpdateVerified]),
      (StateDegraded, rule TransitionObservation []),
      (StateOffline, rule TransitionObservation [])]),
    (StateReplacing, [(StateRetired, rule TransitionObservation [CheckReplacementNodeReady, CheckStateSynchronized, CheckSwitchoverVerified, CheckReplacementHealthVerified]),
      (StateMaintenance, rule TransitionDesired [CheckOperationCancelled, CheckRollbackVerified]),
      (StateDegraded, rule TransitionObservation []),
      (StateOffline, rule TransitionObservation [])]),
    (StateRemoving, [(StateRetired, rule TransitionObservation [CheckRemovalVerified, CheckRetirementApproved]),
      (StateMaintenance, rule TransitionDesired [CheckOperationCancelled, CheckRollbackVerified]),
      (StateDegraded, rule TransitionObservation []),
      (StateOffline, rule TransitionObservation [])]),
    (StateOffline, [(StateRecovering, rule TransitionObservation [CheckIdentityVerified, CheckRecoveryStarted]),
      (StateRetired, rule TransitionDesired [CheckRetirementApproved, CheckNoManagedState, CheckStatefulWorkloadsSafe])]),
    (StateRecovering, [(StateReady, rule TransitionObservation [CheckRecoveryVerified, CheckReadinessPassed]),
      (StateDegraded, rule TransitionObservation []),
      (StateOffline, rule TransitionObservation []),
      (StateDraining, rule TransitionDesired [CheckMaintenancePreflightPassed, CheckSchedulingDisabled])]),
    (StateRetired, [])]"

definition transitionRuleFor :: "State \<Rightarrow> State \<Rightarrow> transitionRule option" where
  "transitionRuleFor from to =
     (case gget transitionRules from of None \<Rightarrow> None | Some toRules \<Rightarrow> gget toRules to)"

subsection \<open>Validation\<close>

definition maxReasonLength :: nat where
  "maxReasonLength = 512"

definition reasonRequired :: "State \<Rightarrow> bool" where
  "reasonRequired s \<longleftrightarrow> s = StateDegraded \<or> s = StateOffline \<or> s = StateRecovering \<or> s = StateRetired"

definition validateReason :: "State \<Rightarrow> string \<Rightarrow> lifecycle_error + unit" where
  "validateReason s reason = first_error
     [require (TrimSpace reason = reason) (ErrInvalidLifecycle ''reason must not have surrounding whitespace''),
      require (utf8_ValidString reason) (ErrInvalidLifecycle ''reason is not valid UTF-8''),
      require (\<not> RuneCountInString reason > maxReasonLength) (ErrInvalidLifecycle ''reason exceeds 512 characters''),
      require (\<not> list_ex unicode_IsControl (rune_list reason)) (ErrInvalidLifecycle ''reason contains control characters''),
      require (\<not> (reasonRequired s \<and> reason = [])) (ErrInvalidLifecycle (''state '' @ state_text s @ '' requires a reason'')),
      require (\<not> (\<not> reasonRequired s \<and> reason \<noteq> []))
        (ErrInvalidLifecycle (''state '' @ state_text s @ '' must clear the incident reason''))]"

definition Validate :: "NodeLifecycle \<Rightarrow> lifecycle_error + unit" where
  "Validate l = first_error
     [map_error (\<lambda>e. ErrInvalidLifecycle (core_error_text e)) (ObjectMetadata_Validate (nlMetadata l)),
      require (State_Valid (nlState l)) (ErrInvalidLifecycle (''unsupported state '' @ state_text (nlState l))),
      require (\<not> IsZero (nlStateChangedAt l)) (ErrInvalidLifecycle ''state_changed_at is required''),
      require (\<not> nlStateChangedAt l < omCreatedAt (nlMetadata l)) (ErrInvalidLifecycle ''state_changed_at precedes created_at''),
      require (\<not> nlStateChangedAt l > omUpdatedAt (nlMetadata l)) (ErrInvalidLifecycle ''state_changed_at follows updated_at''),
      validateReason (nlState l) (nlReason l)]"

definition ValidateInitial :: "NodeLifecycle \<Rightarrow> lifecycle_error + unit" where
  "ValidateInitial l = first_error
     [Validate l,
      require (nlState l = StateDiscovered) (ErrInvalidLifecycle ''initial state must be discovered''),
      require (omGeneration (nlMetadata l) = 1) (ErrInvalidLifecycle ''initial generation must be 1''),
      require (\<not> (omCreatedAt (nlMetadata l) \<noteq> omUpdatedAt (nlMetadata l)
                \<or> nlStateChangedAt l \<noteq> omCreatedAt (nlMetadata l)))
        (ErrInvalidLifecycle ''initial timestamps must be equal'')]"

text \<open>\<^verbatim>\<open>TransitionEvidence.validate\<close>: the loop that fills the set \<^verbatim>\<open>passed\<close>, then the one over the required checks.\<close>

fun evidence_loop :: "EvidenceCheck list \<Rightarrow> EvidenceCheck list \<Rightarrow> lifecycle_error + EvidenceCheck list" where
  "evidence_loop passed [] = Inr passed"
| "evidence_loop passed (check # cs) =
     (if \<not> EvidenceCheck_valid check then Inl (ErrInvalidEvidence (''unsupported check '' @ check_text check))
      else if check \<in> set passed then Inl (ErrInvalidEvidence (''duplicate check '' @ check_text check))
      else evidence_loop (check # passed) cs)"

fun required_loop :: "EvidenceCheck list \<Rightarrow> EvidenceCheck list \<Rightarrow> lifecycle_error + unit" where
  "required_loop passed [] = Inr ()"
| "required_loop passed (check # cs) =
     (if check \<notin> set passed
      then Inl (ErrInvalidEvidence (''required check '' @ check_text check @ '' did not pass''))
      else required_loop passed cs)"

definition TransitionEvidence_validate :: "EvidenceCheck list \<Rightarrow> EvidenceCheck list \<Rightarrow> lifecycle_error + unit" where
  "TransitionEvidence_validate passedChecks required =
     (case evidence_loop [] passedChecks of Inl e \<Rightarrow> Inl e | Inr passed \<Rightarrow> required_loop passed required)"

text \<open>\<^verbatim>\<open>ValidateTransition\<close>: the guards before the lookup of the rule, and those after it.\<close>

definition transition_guards :: "NodeLifecycle \<Rightarrow> NodeLifecycle \<Rightarrow> TransitionRequest \<Rightarrow> lifecycle_error + unit" where
  "transition_guards current nxt request =
     (let bad = (\<lambda>m. LifecycleCore (ErrInvalidTransition m)) in first_error
       [map_error (LifecycleWrapped ''current'') (Validate current),
        map_error (LifecycleWrapped ''next'') (Validate nxt),
        require (State_Valid (trTo request)) (bad (''unsupported target state '' @ state_text (trTo request))),
        require (TransitionType_valid (trType request))
          (bad (''unsupported transition type '' @ transition_type_text (trType request))),
        require (trTo request = nlState nxt) (bad ''request target differs from next state''),
        require (trReason request = nlReason nxt) (bad ''request reason differs from the stored successor''),
        map_error (\<lambda>e. LifecycleWrapped ''node lifecycle precondition'' (LifecycleCore e))
          (ObjectPrecondition_ValidateAgainst (trPrecondition request) (nlMetadata current))])"

definition rule_guards :: "NodeLifecycle \<Rightarrow> NodeLifecycle \<Rightarrow> TransitionRequest \<Rightarrow> transitionRule \<Rightarrow> lifecycle_error + unit" where
  "rule_guards current nxt request ru =
     (let bad = (\<lambda>m. LifecycleCore (ErrInvalidTransition m)) in first_error
       [require (trType request = ruType ru)
          (bad (state_text (nlState current) @ '' -> '' @ state_text (nlState nxt)
             @ '' requires transition type '' @ transition_type_text (ruType ru))),
        require (omScopeID (nlMetadata current) = omScopeID (nlMetadata nxt)
                 \<and> omOwnerScope (nlMetadata current) = omOwnerScope (nlMetadata nxt))
          (bad ''lifecycle transition cannot change scope ownership''),
        require (nlStateChangedAt nxt = omUpdatedAt (nlMetadata nxt))
          (bad ''successor state_changed_at must equal updated_at''),
        require (nlStateChangedAt nxt > nlStateChangedAt current)
          (bad ''successor state_changed_at must advance''),
        TransitionEvidence_validate (trPassedChecks request) (ruRequiredChecks ru),
        map_error LifecycleCore
          (ValidateSuccessor (nlMetadata current) (nlMetadata nxt) (trType request = TransitionDesired))])"

definition ValidateTransition :: "NodeLifecycle \<Rightarrow> NodeLifecycle \<Rightarrow> TransitionRequest \<Rightarrow> lifecycle_error + unit" where
  "ValidateTransition current nxt request =
     (case transition_guards current nxt request of
        Inl e \<Rightarrow> Inl e
      | Inr _ \<Rightarrow>
        (case transitionRuleFor (nlState current) (nlState nxt) of
           None \<Rightarrow> Inl (LifecycleCore (ErrInvalidTransition
             (''node lifecycle '' @ state_text (nlState current) @ '' -> '' @ state_text (nlState nxt))))
         | Some ru \<Rightarrow> rule_guards current nxt request ru))"

subsection \<open>What an accepted transition says\<close>

lemma evidence_loop_iff:
  "evidence_loop passed cs = Inr ps \<longleftrightarrow>
     ps = rev cs @ passed \<and> list_all EvidenceCheck_valid cs \<and> distinct cs \<and> set cs \<inter> set passed = {}"
  by (induction passed cs rule: evidence_loop.induct) auto

lemma required_loop_iff: "required_loop passed cs = Inr () \<longleftrightarrow> set cs \<subseteq> set passed"
  by (induction passed cs rule: required_loop.induct) auto

lemma TransitionEvidence_validate_iff:
  "TransitionEvidence_validate ps req = Inr () \<longleftrightarrow>
     list_all EvidenceCheck_valid ps \<and> distinct ps \<and> set req \<subseteq> set ps"
proof -
  have "TransitionEvidence_validate ps req = Inr () \<longleftrightarrow>
      (\<exists>qs. evidence_loop [] ps = Inr qs \<and> required_loop qs req = Inr ())"
    by (auto simp: TransitionEvidence_validate_def split: sum.splits)
  then show ?thesis by (auto simp: evidence_loop_iff required_loop_iff)
qed

definition edge_ok :: "NodeLifecycle \<Rightarrow> NodeLifecycle \<Rightarrow> TransitionRequest \<Rightarrow> transitionRule \<Rightarrow> bool" where
  "edge_ok c n r ru \<longleftrightarrow> transitionRuleFor (nlState c) (nlState n) = Some ru \<and> trType r = ruType ru
   \<and> omScopeID (nlMetadata c) = omScopeID (nlMetadata n) \<and> omOwnerScope (nlMetadata c) = omOwnerScope (nlMetadata n)
   \<and> nlStateChangedAt n = omUpdatedAt (nlMetadata n) \<and> nlStateChangedAt c < nlStateChangedAt n
   \<and> list_all EvidenceCheck_valid (trPassedChecks r) \<and> distinct (trPassedChecks r)
   \<and> set (ruRequiredChecks ru) \<subseteq> set (trPassedChecks r)
   \<and> ValidateSuccessor (nlMetadata c) (nlMetadata n) (trType r = TransitionDesired) = Inr ()"

lemma ValidateTransition_iff:
  "ValidateTransition c n r = Inr () \<longleftrightarrow>
     Validate c = Inr () \<and> Validate n = Inr () \<and> State_Valid (trTo r) \<and> TransitionType_valid (trType r)
   \<and> trTo r = nlState n \<and> trReason r = nlReason n
   \<and> ObjectPrecondition_ValidateAgainst (trPrecondition r) (nlMetadata c) = Inr ()
   \<and> (\<exists>ru. edge_ok c n r ru)"
proof -
  have "ValidateTransition c n r = Inr () \<longleftrightarrow> transition_guards c n r = Inr ()
      \<and> (\<exists>ru. transitionRuleFor (nlState c) (nlState n) = Some ru \<and> rule_guards c n r ru = Inr ())"
    by (auto simp: ValidateTransition_def split: sum.splits option.splits)
  then show ?thesis
    by (auto simp: transition_guards_def rule_guards_def edge_ok_def TransitionEvidence_validate_iff)
qed

subsection \<open>The table\<close>

lemma transitionRuleFor_Some:
  "transitionRuleFor s t = Some ru \<longleftrightarrow> (\<exists>toRules. gget transitionRules s = Some toRules \<and> gget toRules t = Some ru)"
  by (auto simp: transitionRuleFor_def split: option.splits)

lemmas table_defs = transitionRuleFor_Some transitionRules_def rule_def drainChecks_def

text \<open>The states in which a node is taken out of service for an operation.\<close>

definition isolated :: "State set" where
  "isolated = {StateMaintenance, StateUpdating, StateReplacing, StateRemoving}"

lemma isolated_entry:
  assumes "transitionRuleFor s t = Some ru" "t \<in> isolated"
  shows "s \<in> isolated \<or> s = StateDraining \<and> t = StateMaintenance \<and> ruRequiredChecks ru = drainChecks"
  using assms by (auto simp: table_defs isolated_def split: if_splits)

lemma retired_entry:
  assumes "transitionRuleFor s StateRetired = Some ru"
  shows "CheckRetirementApproved \<in> set (ruRequiredChecks ru)
    \<or> s = StateReplacing \<and> {CheckReplacementNodeReady, CheckStateSynchronized, CheckSwitchoverVerified,
          CheckReplacementHealthVerified} \<subseteq> set (ruRequiredChecks ru)"
  using assms by (auto simp: table_defs split: if_splits)

lemma retired_no_exit: "transitionRuleFor StateRetired t = None"
  by (simp add: transitionRuleFor_def transitionRules_def)

text \<open>The states a node without verified identity can be in when it was never degraded.\<close>

definition unidentified :: "State set" where
  "unidentified = {StateDiscovered, StateEnrolling, StateOffline, StateRetired}"

lemma unidentified_exit:
  assumes "transitionRuleFor s t = Some ru" "s \<in> unidentified"
  shows "t \<in> unidentified \<or> t = StateDegraded \<or> CheckIdentityVerified \<in> set (ruRequiredChecks ru)"
  using assms by (auto simp: table_defs unidentified_def split: if_splits)

lemma table_types: "transitionRuleFor s t = Some ru \<Longrightarrow> TransitionType_valid (ruType ru) \<and> distinct (ruRequiredChecks ru)
    \<and> list_all EvidenceCheck_valid (ruRequiredChecks ru)"
  by (auto simp: table_defs TransitionType_valid_def EvidenceCheck_valid_def split: if_splits)

end
