(* ===== verification/Node_History.thy ===== *)
theory Node_History
  imports Node_Lifecycle
begin

text \<open>
  Histories of one node: a lifecycle object accepted by \<^verbatim>\<open>ValidateInitial\<close>, followed by successors each
  accepted by \<^verbatim>\<open>ValidateTransition\<close> against its predecessor, which is what the storage adapter writes
  when it follows the contract. The properties are about every such history.
\<close>

inductive lifecycle_history :: "NodeLifecycle \<Rightarrow> (TransitionRequest \<times> NodeLifecycle) list \<Rightarrow> NodeLifecycle \<Rightarrow> bool" where
  created: "ValidateInitial l = Inr () \<Longrightarrow> lifecycle_history l [] l"
| moved: "lifecycle_history l h c \<Longrightarrow> ValidateTransition c n r = Inr () \<Longrightarrow> lifecycle_history l (h @ [(r, n)]) n"

definition evidence :: "(TransitionRequest \<times> NodeLifecycle) list \<Rightarrow> EvidenceCheck list" where
  "evidence h = concat (map (\<lambda>(r, n). trPassedChecks r) h)"

definition visited :: "(TransitionRequest \<times> NodeLifecycle) list \<Rightarrow> State list" where
  "visited h = map (\<lambda>(r, n). nlState n) h"

lemma history_trace_simps [simp]:
  "evidence [] = []" "evidence (h @ [(r, n)]) = evidence h @ trPassedChecks r"
  "visited [] = []" "visited (h @ [(r, n)]) = visited h @ [nlState n]"
  by (simp_all add: evidence_def visited_def)

lemma moved_edge:
  assumes "ValidateTransition c n r = Inr ()"
  obtains ru where "transitionRuleFor (nlState c) (nlState n) = Some ru" "trType r = ruType ru" "trTo r = nlState n"
    "set (ruRequiredChecks ru) \<subseteq> set (trPassedChecks r)"
    "ValidateSuccessor (nlMetadata c) (nlMetadata n) (trType r = TransitionDesired) = Inr ()"
  using assms by (auto simp: ValidateTransition_iff edge_ok_def)

subsection \<open>Concrete objects\<close>

definition w_meta :: "uint64 \<Rightarrow> char \<Rightarrow> time \<Rightarrow> ObjectMetadata" where
  "w_meta g v t = \<lparr>omObjectID = ''n'', omScopeID = ''s'', omOwnerScope = ''s'', omGeneration = g,
     omResourceVersion = [v], omCreatedAt = 1, omUpdatedAt = t\<rparr>"

definition w_node :: "State \<Rightarrow> string \<Rightarrow> uint64 \<Rightarrow> char \<Rightarrow> time \<Rightarrow> NodeLifecycle" where
  "w_node s reason g v t = \<lparr>nlMetadata = w_meta g v t, nlState = s, nlStateChangedAt = t, nlReason = reason\<rparr>"

definition w_request :: "State \<Rightarrow> TransitionType \<Rightarrow> string \<Rightarrow> char \<Rightarrow> EvidenceCheck list \<Rightarrow> TransitionRequest" where
  "w_request s ty reason v cs = \<lparr>trTo = s, trType = ty, trReason = reason,
     trPrecondition = \<lparr>opObjectID = ''n'', opResourceVersion = [v], opGeneration = None\<rparr>, trPassedChecks = cs\<rparr>"

lemma w_sels [simp]:
  "omObjectID (w_meta g v t) = ''n''" "omScopeID (w_meta g v t) = ''s''" "omOwnerScope (w_meta g v t) = ''s''"
  "omGeneration (w_meta g v t) = g" "omResourceVersion (w_meta g v t) = [v]"
  "omCreatedAt (w_meta g v t) = 1" "omUpdatedAt (w_meta g v t) = t"
  "nlMetadata (w_node s reason g v t) = w_meta g v t" "nlState (w_node s reason g v t) = s"
  "nlStateChangedAt (w_node s reason g v t) = t" "nlReason (w_node s reason g v t) = reason"
  "trTo (w_request s ty reason v cs) = s" "trType (w_request s ty reason v cs) = ty"
  "trReason (w_request s ty reason v cs) = reason" "trPassedChecks (w_request s ty reason v cs) = cs"
  "trPrecondition (w_request s ty reason v cs) = \<lparr>opObjectID = ''n'', opResourceVersion = [v], opGeneration = None\<rparr>"
  by (simp_all add: w_meta_def w_node_def w_request_def)

lemma w_identifier_text:
  "TrimSpace ''n'' = ''n'' \<and> TrimSpace ''s'' = ''s'' \<and> identifierPattern ''n'' \<and> identifierPattern ''s''"
  by code_simp

lemma w_version_text:
  "list_all (\<lambda>v. TrimSpace [v] = [v] \<and> \<not> list_ex (\<lambda>r. unicode_IsControl r \<or> unicode_IsSpace r) (rune_list [v])) ''abcde''"
  by (simp add: trim_defs rune_defs)

lemma w_identifiers:
  "validateIdentifier f ''n'' = Inr ()" "validateIdentifier f ''s'' = Inr ()"
  "v \<in> set ''abcde'' \<Longrightarrow> validateOpaqueVersion [v] = Inr ()"
  using w_identifier_text w_version_text
  by (auto simp: validateIdentifier_def validateOpaqueVersion_def maxIdentifierLength_def)

lemma w_meta_ok:
  "g \<noteq> 0 \<Longrightarrow> v \<in> set ''abcde'' \<Longrightarrow> 1 \<le> t \<Longrightarrow> ObjectMetadata_Validate (w_meta g v t) = Inr ()"
  by (auto simp: ObjectMetadata_Validate_def w_identifiers)

lemma w_reason:
  "reasonRequired s \<Longrightarrow> validateReason s ''x'' = Inr ()" "\<not> reasonRequired s \<Longrightarrow> validateReason s [] = Inr ()"
proof -
  have "TrimSpace ''x'' = ''x'' \<and> utf8_ValidString ''x'' \<and> RuneCountInString ''x'' \<le> 512
      \<and> \<not> list_ex unicode_IsControl (rune_list ''x'')"
    by (simp add: trim_defs rune_defs)
  then show "reasonRequired s \<Longrightarrow> validateReason s ''x'' = Inr ()"
    by (simp add: validateReason_def maxReasonLength_def)
  show "\<not> reasonRequired s \<Longrightarrow> validateReason s [] = Inr ()"
    by (simp add: validateReason_def maxReasonLength_def rune_defs)
qed

lemma w_node_ok:
  assumes "g \<noteq> 0" "v \<in> set ''abcde''" "1 \<le> t" "State_Valid s"
    "reason = (if reasonRequired s then ''x'' else [])"
  shows "Validate (w_node s reason g v t) = Inr ()"
  using assms w_meta_ok[OF assms(1-3)] w_reason[of s] by (simp add: Validate_def)

lemma w_step:
  assumes "Validate (w_node s reason g v t) = Inr ()" "Validate (w_node s' reason' g' v' t') = Inr ()"
    and "transitionRuleFor s s' = Some ru" "t < t'" "v' \<noteq> v"
    and "g' = (if ruType ru = TransitionDesired then g + 1 else g)" "g \<noteq> - 1"
    and "v \<in> set ''abcde''"
  shows "ValidateTransition (w_node s reason g v t) (w_node s' reason' g' v' t')
     (w_request s' (ruType ru) reason' v (ruRequiredChecks ru)) = Inr ()"
proof -
  have "ObjectMetadata_Validate (w_meta g v t) = Inr ()" "ObjectMetadata_Validate (w_meta g' v' t') = Inr ()" "State_Valid s'"
    using assms(1,2) by (simp_all add: Validate_def)
  moreover have "ValidateSuccessor (w_meta g v t) (w_meta g' v' t') (ruType ru = TransitionDesired) = Inr ()"
    using calculation assms(4-7) by (simp add: ValidateSuccessor_iff metadata_ok_def wantGeneration_def)
  moreover have "ObjectPrecondition_ValidateAgainst (trPrecondition (w_request s' (ruType ru) reason' v (ruRequiredChecks ru)))
      (w_meta g v t) = Inr ()"
    using calculation(1) assms(8)
    by (simp add: ObjectPrecondition_ValidateAgainst_def w_identifiers)
  ultimately show ?thesis
    using assms table_types[OF assms(3)]
    unfolding ValidateTransition_iff edge_ok_def
    by simp
qed


lemma w_created: "lifecycle_history (w_node StateDiscovered [] 1 (CHR ''a'') 1) [] (w_node StateDiscovered [] 1 (CHR ''a'') 1)"
proof (rule created)
  have "Validate (w_node StateDiscovered [] 1 (CHR ''a'') 1) = Inr ()"
    by (rule w_node_ok) (simp_all add: State_Valid_def reasonRequired_def)
  then show "ValidateInitial (w_node StateDiscovered [] 1 (CHR ''a'') 1) = Inr ()"
    by (simp add: ValidateInitial_def)
qed

lemma w_moved:
  assumes "lifecycle_history l h (w_node s reason g v t)" "transitionRuleFor s s' = Some (rule ty cs)" "State_Valid s'" "t < t'" "1 \<le> t"
    and "v' \<noteq> v" "v \<in> set ''abcde''" "v' \<in> set ''abcde''" "g \<noteq> - 1" "g + 1 \<noteq> 0" "g \<noteq> 0"
    and "reason = (if reasonRequired s then ''x'' else [])" "State_Valid s"
    and "g' = (if ty = TransitionDesired then g + 1 else g)" "reason' = (if reasonRequired s' then ''x'' else [])"
  shows "lifecycle_history l (h @ [(w_request s' ty reason' v cs, w_node s' reason' g' v' t')]) (w_node s' reason' g' v' t')"
proof (rule moved[OF assms(1)])
  have ty: "ruType (rule ty cs) = ty" "ruRequiredChecks (rule ty cs) = cs" by (simp_all add: rule_def)
  have "Validate (w_node s reason g v t) = Inr ()" by (rule w_node_ok) (use assms in simp_all)
  moreover have "Validate (w_node s' reason' g' v' t') = Inr ()" by (rule w_node_ok) (use assms in auto)
  moreover have "g' = (if ruType (rule ty cs) = TransitionDesired then g + 1 else g)" using assms(14) ty by simp
  ultimately show "ValidateTransition (w_node s reason g v t) (w_node s' reason' g' v' t') (w_request s' ty reason' v cs) = Inr ()"
    using w_step[OF _ _ assms(2,4,6) _ assms(9,7)] ty by metis
qed

lemmas w_eval = State_Valid_def reasonRequired_def transitionRuleFor_def transitionRules_def

lemma w_enrolling: "\<exists>h. lifecycle_history (w_node StateDiscovered [] 1 (CHR ''a'') 1) h (w_node StateEnrolling [] 2 (CHR ''b'') 2)
    \<and> evidence h = [CheckEnrollmentAuthorized] \<and> visited h = [StateEnrolling]"
proof -
  have "lifecycle_history (w_node StateDiscovered [] 1 (CHR ''a'') 1)
      ([] @ [(w_request StateEnrolling TransitionDesired [] (CHR ''a'') [CheckEnrollmentAuthorized],
        w_node StateEnrolling [] 2 (CHR ''b'') 2)]) (w_node StateEnrolling [] 2 (CHR ''b'') 2)"
    by (rule w_moved[OF w_created]) (simp_all add: w_eval)
  then show ?thesis by (intro exI conjI, assumption) (simp_all add: evidence_def visited_def)
qed

text \<open>A degraded node: enrollment ended without a verified identity.\<close>

lemma w_degraded: "\<exists>h. lifecycle_history (w_node StateDiscovered [] 1 (CHR ''a'') 1) h (w_node StateDegraded ''x'' 2 (CHR ''c'') 3)
    \<and> evidence h = [CheckEnrollmentAuthorized] \<and> visited h = [StateEnrolling, StateDegraded]"
proof -
  obtain h where h: "lifecycle_history (w_node StateDiscovered [] 1 (CHR ''a'') 1) h (w_node StateEnrolling [] 2 (CHR ''b'') 2)"
      "evidence h = [CheckEnrollmentAuthorized]" "visited h = [StateEnrolling]"
    using w_enrolling by blast
  have "lifecycle_history (w_node StateDiscovered [] 1 (CHR ''a'') 1)
      (h @ [(w_request StateDegraded TransitionObservation ''x'' (CHR ''b'') [], w_node StateDegraded ''x'' 2 (CHR ''c'') 3)])
      (w_node StateDegraded ''x'' 2 (CHR ''c'') 3)"
    by (rule w_moved[OF h(1)]) (simp_all add: w_eval)
  then show ?thesis by (intro exI conjI, assumption) (simp_all add: h(2,3))
qed

subsection \<open>Isolation, retirement, identity\<close>

text \<open>
  C4: A node in maintenance, or in an operation started from it, was drained: its history holds the
  transition into maintenance with every drain check passed (preflight, scheduling off, drain complete,
  no active jobs or placements, stateful workloads safe), and since then it left isolation never.
\<close>

theorem maintenance_means_drained:
  assumes "lifecycle_history l h c" "nlState c \<in> isolated"
  shows "\<exists>pre r n post. h = pre @ (r, n) # post \<and> trTo r = StateMaintenance \<and> nlState n = StateMaintenance
    \<and> set drainChecks \<subseteq> set (trPassedChecks r) \<and> set (visited post) \<subseteq> isolated"
  using assms
proof (induction rule: lifecycle_history.induct)
  case (created l)
  then show ?case by (auto simp: ValidateInitial_def isolated_def)
next
  case (moved l h c n r)
  obtain ru where ru: "transitionRuleFor (nlState c) (nlState n) = Some ru" "trTo r = nlState n"
      "set (ruRequiredChecks ru) \<subseteq> set (trPassedChecks r)"
    using moved_edge[OF moved(2)] by metis
  from isolated_entry[OF ru(1) moved.prems] show ?case
  proof
    assume "nlState c \<in> isolated"
    from moved.IH[OF this] obtain pre r' n' post where "h = pre @ (r', n') # post" "trTo r' = StateMaintenance"
        "nlState n' = StateMaintenance" "set drainChecks \<subseteq> set (trPassedChecks r')" "set (visited post) \<subseteq> isolated"
      by blast
    then show ?thesis using moved.prems
      by (intro exI[of _ pre] exI[of _ r'] exI[of _ n'] exI[of _ "post @ [(r, n)]"]) simp
  next
    assume "nlState c = StateDraining \<and> nlState n = StateMaintenance \<and> ruRequiredChecks ru = drainChecks"
    then show ?thesis using ru by (intro exI[of _ h] exI[of _ r] exI[of _ n] exI[of _ "[]"]) simp
  qed
qed

theorem maintenance_means_drained_witness:
  "\<exists>l h r. lifecycle_history l (h @ [r]) (w_node StateMaintenance [] 3 (CHR ''e'') 5)
     \<and> (\<exists>pre r' n post. h @ [r] = pre @ (r', n) # post \<and> set drainChecks \<subseteq> set (trPassedChecks r'))"
proof -
  obtain h where h: "lifecycle_history (w_node StateDiscovered [] 1 (CHR ''a'') 1) h (w_node StateDegraded ''x'' 2 (CHR ''c'') 3)"
    using w_degraded by blast
  have "lifecycle_history (w_node StateDiscovered [] 1 (CHR ''a'') 1)
      (h @ [(w_request StateDraining TransitionDesired [] (CHR ''c'') [CheckMaintenancePreflightPassed, CheckSchedulingDisabled],
         w_node StateDraining [] 3 (CHR ''d'') 4)]) (w_node StateDraining [] 3 (CHR ''d'') 4)"
    by (rule w_moved[OF h]) (simp_all add: w_eval)
  then obtain h' where h': "lifecycle_history (w_node StateDiscovered [] 1 (CHR ''a'') 1) h' (w_node StateDraining [] 3 (CHR ''d'') 4)"
    by blast
  have m: "lifecycle_history (w_node StateDiscovered [] 1 (CHR ''a'') 1)
      (h' @ [(w_request StateMaintenance TransitionObservation [] (CHR ''d'') drainChecks, w_node StateMaintenance [] 3 (CHR ''e'') 5)])
      (w_node StateMaintenance [] 3 (CHR ''e'') 5)"
    by (rule w_moved[OF h']) (simp_all add: w_eval)
  have "nlState (w_node StateMaintenance [] 3 (CHR ''e'') 5) \<in> isolated" by (simp add: isolated_def)
  from maintenance_means_drained[OF m this] m show ?thesis by blast
qed

text \<open>
  Retirement is justified and final. The last transition of a retired node carried the approval of
  its retirement, or the node was being replaced and its replacement was ready, synchronized, switched
  over and healthy; no request moves a retired node again.
\<close>

lemma retirement_justified:
  assumes "lifecycle_history l h c" "nlState c = StateRetired"
  shows "(\<exists>pre r. h = pre @ [(r, c)] \<and> (CheckRetirementApproved \<in> set (trPassedChecks r)
      \<or> {CheckReplacementNodeReady, CheckStateSynchronized, CheckSwitchoverVerified, CheckReplacementHealthVerified}
          \<subseteq> set (trPassedChecks r)))
    \<and> (\<nexists>n r. ValidateTransition c n r = Inr ())"
proof
  show "\<nexists>n r. ValidateTransition c n r = Inr ()"
    using assms(2) retired_no_exit by (metis moved_edge option.distinct(1))
  from assms show "\<exists>pre r. h = pre @ [(r, c)] \<and> (CheckRetirementApproved \<in> set (trPassedChecks r)
      \<or> {CheckReplacementNodeReady, CheckStateSynchronized, CheckSwitchoverVerified, CheckReplacementHealthVerified}
          \<subseteq> set (trPassedChecks r))"
  proof cases
    case created
    then show ?thesis using assms(2) by (auto simp: ValidateInitial_def)
  next
    case (moved h' c' r)
    obtain ru where "transitionRuleFor (nlState c') StateRetired = Some ru" "set (ruRequiredChecks ru) \<subseteq> set (trPassedChecks r)"
      using moved_edge[OF moved(3)] assms(2) by metis
    then show ?thesis using retired_entry moved(1) by blast
  qed
qed

text \<open>
  C33: A ready node that was never degraded has a verified identity on record. The detour over
  degraded escapes this: an enrolling node may be observed degraded without evidence and then ready
  with the readiness check alone, so some ready nodes never had their identity verified.
\<close>

theorem ready_identity:
  "(\<forall>l h c. lifecycle_history l h c \<longrightarrow> nlState c = StateReady \<longrightarrow> StateDegraded \<notin> set (visited h)
      \<longrightarrow> CheckIdentityVerified \<in> set (evidence h))
   \<and> (\<exists>l h c. lifecycle_history l h c \<and> nlState c = StateReady \<and> CheckIdentityVerified \<notin> set (evidence h))"
proof
  have "StateDegraded \<in> set (visited h) \<or> CheckIdentityVerified \<in> set (evidence h) \<or> nlState c \<in> unidentified"
    if "lifecycle_history l h c" for l h c
    using that
  proof (induction rule: lifecycle_history.induct)
    case (created l)
    then show ?case by (simp add: ValidateInitial_def unidentified_def)
  next
    case (moved l h c n r)
    then show ?case using unidentified_exit by (elim moved_edge) (auto dest: unidentified_exit)
  qed
  then show "\<forall>l h c. lifecycle_history l h c \<longrightarrow> nlState c = StateReady \<longrightarrow> StateDegraded \<notin> set (visited h)
      \<longrightarrow> CheckIdentityVerified \<in> set (evidence h)"
    by (fastforce simp: unidentified_def)
  obtain h where h: "lifecycle_history (w_node StateDiscovered [] 1 (CHR ''a'') 1) h (w_node StateDegraded ''x'' 2 (CHR ''c'') 3)"
      "evidence h = [CheckEnrollmentAuthorized]"
    using w_degraded by blast
  have "lifecycle_history (w_node StateDiscovered [] 1 (CHR ''a'') 1)
      (h @ [(w_request StateReady TransitionObservation [] (CHR ''c'') [CheckReadinessPassed], w_node StateReady [] 2 (CHR ''d'') 4)])
      (w_node StateReady [] 2 (CHR ''d'') 4)"
    by (rule w_moved[OF h(1)]) (simp_all add: w_eval)
  moreover have "CheckIdentityVerified \<notin> set (evidence (h @ [(w_request StateReady TransitionObservation [] (CHR ''c'') [CheckReadinessPassed],
      w_node StateReady [] 2 (CHR ''d'') 4)]))"
    using h(2) by simp
  moreover have "nlState (w_node StateReady [] 2 (CHR ''d'') 4) = StateReady" by simp
  ultimately show "\<exists>l h c. lifecycle_history l h c \<and> nlState c = StateReady \<and> CheckIdentityVerified \<notin> set (evidence h)"
    by blast
qed

theorem ready_identity_witness:
  "\<exists>l h. lifecycle_history l h (w_node StateReady [] 2 (CHR ''c'') 3) \<and> CheckIdentityVerified \<in> set (evidence h)"
proof -
  obtain h where h: "lifecycle_history (w_node StateDiscovered [] 1 (CHR ''a'') 1) h (w_node StateEnrolling [] 2 (CHR ''b'') 2)"
      "visited h = [StateEnrolling]"
    using w_enrolling by blast
  have "lifecycle_history (w_node StateDiscovered [] 1 (CHR ''a'') 1)
      (h @ [(w_request StateReady TransitionObservation [] (CHR ''b'') [CheckIdentityVerified, CheckReadinessPassed],
        w_node StateReady [] 2 (CHR ''c'') 3)]) (w_node StateReady [] 2 (CHR ''c'') 3)"
    by (rule w_moved[OF h(1)]) (simp_all add: w_eval)
  moreover have "nlState (w_node StateReady [] 2 (CHR ''c'') 3) = StateReady"
      "StateDegraded \<notin> set (visited (h @ [(w_request StateReady TransitionObservation [] (CHR ''b'')
         [CheckIdentityVerified, CheckReadinessPassed], w_node StateReady [] 2 (CHR ''c'') 3)]))"
    using h(2) by simp_all
  ultimately show ?thesis using ready_identity by blast
qed

subsection \<open>Versions and generations\<close>

abbreviation desired_moves :: "(TransitionRequest \<times> NodeLifecycle) list \<Rightarrow> nat" where
  "desired_moves h \<equiv> length (filter (\<lambda>(r, n). trType r = TransitionDesired) h)"

abbreviation update_times :: "NodeLifecycle \<Rightarrow> (TransitionRequest \<times> NodeLifecycle) list \<Rightarrow> time list" where
  "update_times l h \<equiv> map (\<lambda>x. omUpdatedAt (nlMetadata x)) (l # map snd h)"

text \<open>
  The envelope of a node follows its history. Its identity, creation time and scope never change, the
  generation is one more than the number of desired transitions and never wraps around, the stored
  versions have strictly increasing times, and the current object is valid.
\<close>

lemma lifecycle_metadata:
  assumes "lifecycle_history l h c"
  shows "Validate c = Inr () \<and> omObjectID (nlMetadata c) = omObjectID (nlMetadata l)
    \<and> omCreatedAt (nlMetadata c) = omCreatedAt (nlMetadata l)
    \<and> omScopeID (nlMetadata c) = omScopeID (nlMetadata l) \<and> omOwnerScope (nlMetadata c) = omOwnerScope (nlMetadata l)
    \<and> unat (omGeneration (nlMetadata c)) = 1 + desired_moves h
    \<and> sorted_wrt (<) (update_times l h) \<and> omUpdatedAt (nlMetadata c) = last (update_times l h)"
proof -
  from assms have "Validate c = Inr () \<and> omObjectID (nlMetadata c) = omObjectID (nlMetadata l)
    \<and> omCreatedAt (nlMetadata c) = omCreatedAt (nlMetadata l)
    \<and> omScopeID (nlMetadata c) = omScopeID (nlMetadata l) \<and> omOwnerScope (nlMetadata c) = omOwnerScope (nlMetadata l)
    \<and> unat (omGeneration (nlMetadata c)) = 1 + desired_moves h
    \<and> sorted_wrt (<) (update_times l h) \<and> omUpdatedAt (nlMetadata c) = last (update_times l h)
    \<and> nlStateChangedAt c = omUpdatedAt (nlMetadata c) \<and> (\<forall>t \<in> set (update_times l h). t \<le> omUpdatedAt (nlMetadata c))"
  proof (induction rule: lifecycle_history.induct)
    case (created l)
    then show ?case by (simp add: ValidateInitial_def)
  next
    case (moved l h c n r)
    obtain ru where n: "Validate n = Inr ()" "edge_ok c n r ru"
      using moved(2) by (auto simp: ValidateTransition_iff)
    have succ: "ValidateSuccessor (nlMetadata c) (nlMetadata n) (trType r = TransitionDesired) = Inr ()"
      using n(2) unfolding edge_ok_def by blast
    then have gen: "unat (omGeneration (nlMetadata n))
        = unat (omGeneration (nlMetadata c)) + (if trType r = TransitionDesired then 1 else 0)"
      by (intro wantGeneration_unat) (simp add: ValidateSuccessor_iff)
    have later: "omUpdatedAt (nlMetadata c) < omUpdatedAt (nlMetadata n)"
      using n(2) moved.IH by (simp add: edge_ok_def)
    have times: "update_times l (h @ [(r, n)]) = update_times l h @ [omUpdatedAt (nlMetadata n)]" by simp
    have "\<forall>t \<in> set (update_times l h). t < omUpdatedAt (nlMetadata n)" using moved.IH later by fastforce
    then have "sorted_wrt (<) (update_times l (h @ [(r, n)]))"
        "\<forall>t \<in> set (update_times l (h @ [(r, n)])). t \<le> omUpdatedAt (nlMetadata n)"
      using moved.IH unfolding times sorted_wrt_append by auto
    then show ?case
      using moved.IH n succ gen unfolding times by (simp add: edge_ok_def ValidateSuccessor_iff)
  qed
  then show ?thesis by blast
qed

text \<open>
  No lost update. Once a transition is stored, a second one planned against the same stored version
  is refused, whoever asks and whatever it asks for.
\<close>

lemma lifecycle_no_lost_update:
  assumes "ValidateTransition c n r = Inr ()" "opResourceVersion (trPrecondition r') = opResourceVersion (trPrecondition r)"
  shows "\<exists>e. ValidateTransition n n' r' = Inl e"
proof -
  have "opResourceVersion (trPrecondition r) = omResourceVersion (nlMetadata c)"
      "omResourceVersion (nlMetadata n) \<noteq> omResourceVersion (nlMetadata c)"
    using assms(1) by (auto simp: ValidateTransition_iff edge_ok_def ValidateSuccessor_iff dest: ValidateAgainst_current)
  then have "ObjectPrecondition_ValidateAgainst (trPrecondition r') (nlMetadata n) \<noteq> Inr ()"
    using assms(2) ValidateAgainst_current by metis
  then have "ValidateTransition n n' r' \<noteq> Inr ()" by (simp add: ValidateTransition_iff)
  then show ?thesis by (cases "ValidateTransition n n' r'") auto
qed

end
