(* ===== verification/Node_Plans.thy ===== *)
theory Node_Plans
  imports Node_History Go_Json_Encode Go_Sha256
begin

text \<open>
  The rest of package \<^verbatim>\<open>internal/nodelifecycle\<close>: the read-only projection (\<^verbatim>\<open>projection.go\<close>), the plan
  of one transition (\<^verbatim>\<open>plan.go\<close>) and the multi-step plans for drain, replacement and decommission
  (\<^verbatim>\<open>operation_plan.go\<close>, \<^verbatim>\<open>decommission_plan.go\<close>). Plans are values: none of these functions changes
  state. Plan identifiers are digests of a JSON document. In error texts the quoted values of the
  source are left out.
\<close>

subsection \<open>Projection\<close>

datatype projection_error =
    ErrProjectionNotFound
  | ErrProjectionUnavailable
  | ProjectionCtx ctx_error
  | ProjectionInvalid lifecycle_error
  | ProjectionDuplicate

type_synonym MemoryProjection = "(string \<times> NodeLifecycle) list"

fun projection_loop :: "NodeLifecycle list \<Rightarrow> MemoryProjection \<Rightarrow> projection_error + MemoryProjection" where
  "projection_loop [] items = Inr items"
| "projection_loop (l # ls) items =
     (case Validate l of
        Inl e \<Rightarrow> Inl (ProjectionInvalid e)
      | Inr _ \<Rightarrow> if gget items (omObjectID (nlMetadata l)) \<noteq> None then Inl ProjectionDuplicate
                 else projection_loop ls (gput (omObjectID (nlMetadata l)) l items))"

definition NewMemoryProjection :: "NodeLifecycle list \<Rightarrow> projection_error + MemoryProjection" where
  "NewMemoryProjection initial = projection_loop initial []"

definition NewEmptyMemoryProjection :: MemoryProjection where
  "NewEmptyMemoryProjection = []"

text \<open>A projection argument of \<open>None\<close> is a nil receiver.\<close>

definition Projection_Get :: "ctx \<Rightarrow> string \<Rightarrow> MemoryProjection option \<Rightarrow> projection_error + NodeLifecycle" where
  "Projection_Get ctx nodeID p =
     (case ctx of Some e \<Rightarrow> Inl (ProjectionCtx e)
      | None \<Rightarrow>
     (case p of None \<Rightarrow> Inl ErrProjectionUnavailable
      | Some items \<Rightarrow>
          if nodeID = [] \<or> TrimSpace nodeID \<noteq> nodeID then Inl ErrProjectionNotFound
          else (case gget items nodeID of None \<Rightarrow> Inl ErrProjectionNotFound | Some l \<Rightarrow> Inr l)))"

subsection \<open>The plan of one transition\<close>

datatype plan_error = ErrInvalidPlan string | PlanLifecycle lifecycle_error | ErrInvalidOperationPlan string

fun lifecycle_error_text :: "lifecycle_error \<Rightarrow> string" where
  "lifecycle_error_text (ErrInvalidLifecycle m) = ''invalid node lifecycle: '' @ m"
| "lifecycle_error_text (ErrInvalidEvidence m) = ''invalid node lifecycle transition evidence: '' @ m"
| "lifecycle_error_text (LifecycleCore e) = core_error_text e"
| "lifecycle_error_text (LifecycleWrapped m e) = m @ '': '' @ lifecycle_error_text e"

record TransitionPlan =
  tpPlanID :: string
  tpAccepted :: bool
  tpPlanOnly :: bool
  tpHostMutation :: bool
  tpStateMutation :: bool
  tpRequiresAuditedChangeJob :: bool
  tpNodeID :: string
  tpFrom :: State
  tpTo :: State
  tpType :: TransitionType
  tpCurrentGeneration :: uint64
  tpPlannedGeneration :: uint64
  tpBasedOnResourceVersion :: string
  tpRequiredChecks :: "EvidenceCheck list"
  tpEvaluatedAt :: "time"

text \<open>The JSON forms: a nil slice is \<^verbatim>\<open>null\<close>, a nil generation is left out.\<close>

definition precondition_json :: "ObjectPrecondition \<Rightarrow> json" where
  "precondition_json p = JObject ([(''object_id'', JString (opObjectID p)),
     (''resource_version'', JString (opResourceVersion p))]
     @ (case opGeneration p of None \<Rightarrow> [] | Some g \<Rightarrow> [(''generation'', JInt (uint g))]))"

definition checks_json :: "EvidenceCheck list \<Rightarrow> json" where
  "checks_json cs = (if cs = [] then JNull else JArray (map (\<lambda>c. JString (check_text c)) cs))"

definition transitionFingerprint :: "NodeLifecycle \<Rightarrow> TransitionRequest \<Rightarrow> string" where
  "transitionFingerprint current request = sha256_hex (json_Marshal (JObject
     [(''node_id'', JString (omObjectID (nlMetadata current))),
      (''resource_version'', JString (omResourceVersion (nlMetadata current))),
      (''generation'', JInt (uint (omGeneration (nlMetadata current)))),
      (''from'', JString (state_text (nlState current))),
      (''to'', JString (state_text (trTo request))),
      (''type'', JString (transition_type_text (trType request))),
      (''reason'', JString (trReason request)),
      (''precondition'', precondition_json (trPrecondition request)),
      (''passed_checks'', checks_json (sort_key check_text (trPassedChecks request)))]))"

text \<open>The successor a request describes, under a given resource version and time.\<close>

definition successor :: "NodeLifecycle \<Rightarrow> TransitionRequest \<Rightarrow> string \<Rightarrow> time \<Rightarrow> NodeLifecycle" where
  "successor current request version at = current\<lparr>nlState := trTo request, nlReason := trReason request,
     nlStateChangedAt := at,
     nlMetadata := (nlMetadata current)\<lparr>omUpdatedAt := at, omResourceVersion := version,
       omGeneration := omGeneration (nlMetadata current) + (if trType request = TransitionDesired then 1 else 0)\<rparr>\<rparr>"

definition BuildTransitionPlan :: "NodeLifecycle \<Rightarrow> TransitionRequest \<Rightarrow> time \<Rightarrow> plan_error + TransitionPlan" where
  "BuildTransitionPlan current request evaluatedAt =
     (case Validate current of Inl e \<Rightarrow> Inl (ErrInvalidPlan (lifecycle_error_text e))
      | Inr _ \<Rightarrow>
        if IsZero evaluatedAt then Inl (ErrInvalidPlan ''evaluated_at is required'')
        else if \<not> time_UTC evaluatedAt > omUpdatedAt (nlMetadata current)
          then Inl (ErrInvalidPlan ''evaluated_at must follow the projected object update'')
        else if trType request = TransitionDesired \<and> omGeneration (nlMetadata current) = - 1
          then Inl (PlanLifecycle (LifecycleCore (ErrInvalidTransition ''generation overflow'')))
        else
          let fingerprint = transitionFingerprint current request;
              nxt = successor current request (''plan:'' @ fingerprint) evaluatedAt
          in case ValidateTransition current nxt request of
            Inl e \<Rightarrow> Inl (PlanLifecycle e)
          | Inr _ \<Rightarrow>
            (case transitionRuleFor (nlState current) (trTo request) of
               None \<Rightarrow> Inl (ErrInvalidPlan ''missing rule after validation'')
             | Some ru \<Rightarrow> Inr
                \<lparr>tpPlanID = ''nlp-'' @ take 24 fingerprint, tpAccepted = True, tpPlanOnly = True,
                 tpHostMutation = False, tpStateMutation = False, tpRequiresAuditedChangeJob = True,
                 tpNodeID = omObjectID (nlMetadata current), tpFrom = nlState current, tpTo = trTo request,
                 tpType = trType request, tpCurrentGeneration = omGeneration (nlMetadata current),
                 tpPlannedGeneration = omGeneration (nlMetadata nxt),
                 tpBasedOnResourceVersion = omResourceVersion (nlMetadata current),
                 tpRequiredChecks = ruRequiredChecks ru, tpEvaluatedAt = evaluatedAt\<rparr>))"

subsection \<open>Plans of several steps\<close>

definition OperationPlanContractV1 :: string where
  "OperationPlanContractV1 = ''node.operation-plan/v1''"

definition DecommissionPlanContractV1 :: string where
  "DecommissionPlanContractV1 = ''node.decommission-plan/v1''"

datatype OperationKind = OperationDrain | OperationReplace | OperationUnsupported string

datatype WorkloadKind = WorkloadStateless | WorkloadStateful | WorkloadUnsupported string

record WorkloadPlacement =
  wpWorkloadID :: string
  wpKind :: WorkloadKind
  wpMigrationAdapter :: string
  wpHealthyReplicasOutside :: int

record OperationPlanRequest =
  orKind :: OperationKind
  orReplacementNodeID :: string
  orPlacements :: "WorkloadPlacement list"

record OperationPlanStep =
  osOrder :: int
  osAction :: string
  osRequiredEvidence :: "EvidenceCheck list"

record OperationPlan =
  olContractVersion :: string
  olPlanID :: string
  olKind :: OperationKind
  olNodeID :: string
  olReplacementNodeID :: string
  olBasedOnGeneration :: uint64
  olBasedOnResourceVersion :: string
  olSteps :: "OperationPlanStep list"
  olRequiresApprovedChange :: bool
  olRequiresDurableJob :: bool
  olRequiresAudit :: bool
  olPlanOnly :: bool
  olLifecycleMutation :: bool
  olPlacementMutation :: bool
  olHostMutation :: bool

record DecommissionPlan =
  dpContractVersion :: string
  dpPlanID :: string
  dpNodeID :: string
  dpScopeID :: string
  dpOwnerScope :: string
  dpBasedOnGeneration :: uint64
  dpBasedOnResourceVersion :: string
  dpSteps :: "OperationPlanStep list"
  dpRequiresApprovedChange :: bool
  dpRequiresDurableJob :: bool
  dpRequiresAudit :: bool
  dpPlanOnly :: bool
  dpLifecycleMutation :: bool
  dpPlacementMutation :: bool
  dpHostMutation :: bool

text \<open>
  \<^verbatim>\<open>validateOperationIdentifier\<close>. The loop ranges over runes; a byte above 0x7F belongs to a rune
  outside ASCII, which is refused, so up to the first refusal runes and bytes coincide.
\<close>

fun identifier_loop :: "nat \<Rightarrow> nat \<Rightarrow> string \<Rightarrow> bool" where
  "identifier_loop len index [] = True"
| "identifier_loop len index (c # cs) =
     ((alnum c \<or> c \<in> set ''._:-'') \<and> (index = 0 \<or> index = len - 1 \<longrightarrow> alnum c) \<and> identifier_loop len (index + 1) cs)"

definition validateOperationIdentifier :: "string \<Rightarrow> string \<Rightarrow> plan_error + unit" where
  "validateOperationIdentifier field v =
     (if v = [] \<or> TrimSpace v \<noteq> v \<or> length v > 128
        then Inl (ErrInvalidOperationPlan (field @ '' is required and must be canonical''))
      else if \<not> identifier_loop (length v) 0 v
        then Inl (ErrInvalidOperationPlan (field @ '' is not a canonical identifier''))
      else Inr ())"

definition placement_ok :: "WorkloadPlacement \<Rightarrow> plan_error + unit" where
  "placement_ok p =
     (case wpKind p of
        WorkloadStateless \<Rightarrow>
          if wpMigrationAdapter p \<noteq> [] then Inl (ErrInvalidOperationPlan ''stateless workload cannot declare a migration adapter'')
          else if wpHealthyReplicasOutside p < 0 then Inl (ErrInvalidOperationPlan ''workload has a negative replica count'')
          else Inr ()
      | WorkloadStateful \<Rightarrow>
          (case validateOperationIdentifier ''migration_adapter'' (wpMigrationAdapter p) of
             Inl _ \<Rightarrow> Inl (ErrInvalidOperationPlan ''stateful workload requires a migration adapter'')
           | Inr _ \<Rightarrow>
               if wpHealthyReplicasOutside p < 1
               then Inl (ErrInvalidOperationPlan ''stateful workload has no healthy replica outside the node'')
               else Inr ())
      | WorkloadUnsupported _ \<Rightarrow> Inl (ErrInvalidOperationPlan ''workload has unsupported kind''))"

fun placements_loop :: "string list \<Rightarrow> WorkloadPlacement list \<Rightarrow> plan_error + unit" where
  "placements_loop seen [] = Inr ()"
| "placements_loop seen (p # ps) =
     (case validateOperationIdentifier ''workload_id'' (wpWorkloadID p) of Inl e \<Rightarrow> Inl e
      | Inr _ \<Rightarrow>
        if wpWorkloadID p \<in> set seen then Inl (ErrInvalidOperationPlan ''duplicate workload'')
        else (case placement_ok p of Inl e \<Rightarrow> Inl e | Inr _ \<Rightarrow> placements_loop (wpWorkloadID p # seen) ps))"

definition validatePlacements :: "WorkloadPlacement list \<Rightarrow> plan_error + unit" where
  "validatePlacements ps = placements_loop [] ps"

definition plan_step :: "int \<Rightarrow> string \<Rightarrow> EvidenceCheck list \<Rightarrow> OperationPlanStep" where
  "plan_step n action cs = \<lparr>osOrder = n, osAction = action, osRequiredEvidence = cs\<rparr>"

definition drain_steps :: "OperationPlanStep list" where
  "drain_steps =
     [plan_step 1 ''scheduler.disable'' [CheckMaintenancePreflightPassed],
      plan_step 2 ''lifecycle.enter-draining'' [CheckMaintenancePreflightPassed, CheckSchedulingDisabled],
      plan_step 3 ''placements.evacuate'' [CheckSchedulingDisabled, CheckStatefulWorkloadsSafe],
      plan_step 4 ''lifecycle.enter-maintenance'' drainChecks]"

definition replace_steps :: "OperationPlanStep list" where
  "replace_steps =
     [plan_step 1 ''replacement.verify-ready'' [CheckOperationApproved],
      plan_step 2 ''state.synchronize'' [CheckReplacementNodeReady],
      plan_step 3 ''lifecycle.enter-replacing'' [CheckOperationApproved, CheckReplacementNodeReady, CheckStateSynchronized],
      plan_step 4 ''placements.switchover'' [CheckReplacementNodeReady, CheckStateSynchronized, CheckStatefulWorkloadsSafe],
      plan_step 5 ''replacement.verify-health'' [CheckSwitchoverVerified],
      plan_step 6 ''lifecycle.retire-replaced-node''
        [CheckReplacementNodeReady, CheckStateSynchronized, CheckSwitchoverVerified, CheckReplacementHealthVerified]]"

definition decommission_steps :: "OperationPlanStep list" where
  "decommission_steps =
     [plan_step 1 ''removal.verify-approved'' [CheckOperationApproved, CheckRemovalApproved],
      plan_step 2 ''removal.verify-drained'' drainChecks,
      plan_step 3 ''lifecycle.enter-removing'' ([CheckOperationApproved, CheckRemovalApproved] @ drainChecks),
      plan_step 4 ''removal.verify-complete'' [CheckRemovalVerified],
      plan_step 5 ''lifecycle.retire-removed-node'' [CheckRemovalVerified, CheckRetirementApproved]]"

text \<open>The switch over the kind: the steps and the replacement node of the plan.\<close>

definition operation_steps :: "NodeLifecycle \<Rightarrow> OperationPlanRequest \<Rightarrow> plan_error + (OperationPlanStep list \<times> string)" where
  "operation_steps current request =
     (case orKind request of
        OperationDrain \<Rightarrow>
          if nlState current \<noteq> StateReady \<and> nlState current \<noteq> StateDegraded
            then Inl (ErrInvalidOperationPlan ''drain requires ready or degraded state'')
          else if TrimSpace (orReplacementNodeID request) \<noteq> []
            then Inl (ErrInvalidOperationPlan ''drain cannot name a replacement node'')
          else Inr (drain_steps, orReplacementNodeID request)
      | OperationReplace \<Rightarrow>
          if nlState current \<noteq> StateMaintenance
            then Inl (ErrInvalidOperationPlan ''replace requires maintenance state after a completed drain'')
          else (let replacement = TrimSpace (orReplacementNodeID request) in
            case validateOperationIdentifier ''replacement_node_id'' replacement of Inl e \<Rightarrow> Inl e
            | Inr _ \<Rightarrow>
                if replacement = omObjectID (nlMetadata current)
                then Inl (ErrInvalidOperationPlan ''replacement node must differ from current node'')
                else Inr (replace_steps, replacement))
      | OperationUnsupported _ \<Rightarrow> Inl (ErrInvalidOperationPlan ''unsupported operation kind''))"

definition operation_kind_text :: "OperationKind \<Rightarrow> string" where
  "operation_kind_text k = (case k of OperationDrain \<Rightarrow> ''drain'' | OperationReplace \<Rightarrow> ''replace'' | OperationUnsupported s \<Rightarrow> s)"

definition workload_kind_text :: "WorkloadKind \<Rightarrow> string" where
  "workload_kind_text k = (case k of WorkloadStateless \<Rightarrow> ''stateless'' | WorkloadStateful \<Rightarrow> ''stateful'' | WorkloadUnsupported s \<Rightarrow> s)"

definition placement_json :: "WorkloadPlacement \<Rightarrow> json" where
  "placement_json p = JObject ([(''workload_id'', JString (wpWorkloadID p)), (''kind'', JString (workload_kind_text (wpKind p)))]
     @ (if wpMigrationAdapter p = [] then [] else [(''migration_adapter'', JString (wpMigrationAdapter p))])
     @ [(''healthy_replicas_outside'', JInt (wpHealthyReplicasOutside p))])"

definition operation_fingerprint :: "NodeLifecycle \<Rightarrow> OperationKind \<Rightarrow> string \<Rightarrow> WorkloadPlacement list \<Rightarrow> string" where
  "operation_fingerprint current kind replacement placements = sha256_hex (json_Marshal (JObject
     ([(''kind'', JString (operation_kind_text kind)),
       (''node_id'', JString (omObjectID (nlMetadata current))),
       (''scope_id'', JString (omScopeID (nlMetadata current))),
       (''owner_scope'', JString (omOwnerScope (nlMetadata current))),
       (''generation'', JInt (uint (omGeneration (nlMetadata current)))),
       (''resource_version'', JString (omResourceVersion (nlMetadata current)))]
      @ (if replacement = [] then [] else [(''replacement_node_id'', JString replacement)])
      @ (if placements = [] then [] else [(''placements'', JArray (map placement_json placements))]))))"

definition BuildOperationPlan :: "NodeLifecycle \<Rightarrow> OperationPlanRequest \<Rightarrow> plan_error + OperationPlan" where
  "BuildOperationPlan current request =
     (case Validate current of Inl e \<Rightarrow> Inl (ErrInvalidOperationPlan (''lifecycle: '' @ lifecycle_error_text e))
      | Inr _ \<Rightarrow>
     (case validatePlacements (orPlacements request) of Inl e \<Rightarrow> Inl e
      | Inr _ \<Rightarrow>
        let placements = sort_key wpWorkloadID (orPlacements request) in
     (case operation_steps current request of Inl e \<Rightarrow> Inl e
      | Inr (steps, replacement) \<Rightarrow> Inr
         \<lparr>olContractVersion = OperationPlanContractV1,
          olPlanID = ''nop-'' @ take 24 (operation_fingerprint current (orKind request) replacement placements),
          olKind = orKind request, olNodeID = omObjectID (nlMetadata current), olReplacementNodeID = replacement,
          olBasedOnGeneration = omGeneration (nlMetadata current),
          olBasedOnResourceVersion = omResourceVersion (nlMetadata current), olSteps = steps,
          olRequiresApprovedChange = True, olRequiresDurableJob = True, olRequiresAudit = True,
          olPlanOnly = True, olLifecycleMutation = False, olPlacementMutation = False, olHostMutation = False\<rparr>)))"

definition BuildDecommissionPlan :: "NodeLifecycle \<Rightarrow> plan_error + DecommissionPlan" where
  "BuildDecommissionPlan current =
     (case Validate current of Inl e \<Rightarrow> Inl (ErrInvalidOperationPlan (''lifecycle: '' @ lifecycle_error_text e))
      | Inr _ \<Rightarrow>
        if nlState current \<noteq> StateMaintenance
          then Inl (ErrInvalidOperationPlan ''decommission requires maintenance state after a completed drain'')
        else Inr
         \<lparr>dpContractVersion = DecommissionPlanContractV1,
          dpPlanID = ''ndp-'' @ take 24 (sha256_hex (json_Marshal (JObject
            [(''node_id'', JString (omObjectID (nlMetadata current))),
             (''scope_id'', JString (omScopeID (nlMetadata current))),
             (''owner_scope'', JString (omOwnerScope (nlMetadata current))),
             (''generation'', JInt (uint (omGeneration (nlMetadata current)))),
             (''resource_version'', JString (omResourceVersion (nlMetadata current)))]))),
          dpNodeID = omObjectID (nlMetadata current), dpScopeID = omScopeID (nlMetadata current),
          dpOwnerScope = omOwnerScope (nlMetadata current),
          dpBasedOnGeneration = omGeneration (nlMetadata current),
          dpBasedOnResourceVersion = omResourceVersion (nlMetadata current), dpSteps = decommission_steps,
          dpRequiresApprovedChange = True, dpRequiresDurableJob = True, dpRequiresAudit = True,
          dpPlanOnly = True, dpLifecycleMutation = False, dpPlacementMutation = False, dpHostMutation = False\<rparr>)"

subsection \<open>A transition plan is accepted exactly when the transition would be\<close>

lemma lower_hex_graphic: "lower_hex c \<Longrightarrow> graphic c"
  by (auto simp: lower_hex_def graphic_def less_eq_char_def)

lemma plan_version_ok: "validateOpaqueVersion (''plan:'' @ transitionFingerprint c r) = Inr ()"
proof (rule graphic_version)
  have "list_all graphic (transitionFingerprint c r)"
    unfolding transitionFingerprint_def list_all_iff using sha256_hex_chars lower_hex_graphic by blast
  then show "list_all graphic (''plan:'' @ transitionFingerprint c r)" by (simp add: graphic_def)
qed (simp_all add: transitionFingerprint_def sha256_hex_length)

lemma successor_sels [simp]:
  "nlState (successor c r v t) = trTo r" "nlReason (successor c r v t) = trReason r" "nlStateChangedAt (successor c r v t) = t"
  "omObjectID (nlMetadata (successor c r v t)) = omObjectID (nlMetadata c)"
  "omScopeID (nlMetadata (successor c r v t)) = omScopeID (nlMetadata c)"
  "omOwnerScope (nlMetadata (successor c r v t)) = omOwnerScope (nlMetadata c)"
  "omCreatedAt (nlMetadata (successor c r v t)) = omCreatedAt (nlMetadata c)"
  "omUpdatedAt (nlMetadata (successor c r v t)) = t" "omResourceVersion (nlMetadata (successor c r v t)) = v"
  "omGeneration (nlMetadata (successor c r v t))
     = omGeneration (nlMetadata c) + (if trType r = TransitionDesired then 1 else 0)"
  by (simp_all add: successor_def)

lemma successor_version_irrelevant:
  assumes "validateOpaqueVersion v = Inr ()" "v \<noteq> omResourceVersion (nlMetadata c)"
    and "validateOpaqueVersion v' = Inr ()" "v' \<noteq> omResourceVersion (nlMetadata c)"
  shows "ValidateTransition c (successor c r v t) r = Inr () \<longleftrightarrow> ValidateTransition c (successor c r v' t) r = Inr ()"
proof -
  have "ObjectMetadata_Validate (nlMetadata (successor c r v t)) = Inr () \<longleftrightarrow>
      ObjectMetadata_Validate (nlMetadata (successor c r v' t)) = Inr ()"
    using assms by (simp add: ObjectMetadata_Validate_def)
  then show ?thesis
    using assms by (simp add: ValidateTransition_iff edge_ok_def Validate_def ValidateSuccessor_iff metadata_ok_def)
qed

text \<open>
  C29: A transition plan is honest. It is accepted exactly when the transition it describes would be
  accepted under any fresh resource version the store may choose, and it then names the generation that
  successor has and only evidence the request brought, and claims no mutation. (The store's current
  version is taken not to be the plan's own digest.)
\<close>

theorem transition_plan_exact:
  assumes "validateOpaqueVersion v = Inr ()" "v \<noteq> omResourceVersion (nlMetadata c)"
    and "omResourceVersion (nlMetadata c) \<noteq> ''plan:'' @ transitionFingerprint c r"
  shows "((\<exists>p. BuildTransitionPlan c r t = Inr p) \<longleftrightarrow>
      t \<noteq> 0 \<and> omUpdatedAt (nlMetadata c) < t \<and> ValidateTransition c (successor c r v t) r = Inr ())
    \<and> (\<forall>p. BuildTransitionPlan c r t = Inr p \<longrightarrow>
         tpPlannedGeneration p = omGeneration (nlMetadata (successor c r v t))
       \<and> set (tpRequiredChecks p) \<subseteq> set (trPassedChecks r) \<and> tpPlanOnly p \<and> \<not> tpStateMutation p \<and> \<not> tpHostMutation p)"
proof -
  let ?n = "successor c r (''plan:'' @ transitionFingerprint c r) t"
  have same: "ValidateTransition c (successor c r v t) r = Inr () \<longleftrightarrow> ValidateTransition c ?n r = Inr ()"
    using successor_version_irrelevant[OF assms(1,2) plan_version_ok] assms(3) by metis
  show ?thesis
  proof (cases "t \<noteq> 0 \<and> omUpdatedAt (nlMetadata c) < t \<and> ValidateTransition c ?n r = Inr ()")
    case True
    then obtain ru where ru: "transitionRuleFor (nlState c) (trTo r) = Some ru"
        "set (ruRequiredChecks ru) \<subseteq> set (trPassedChecks r)"
        "wantGeneration (omGeneration (nlMetadata c)) (trType r = TransitionDesired) \<noteq> None" "Validate c = Inr ()"
      by (auto simp: ValidateTransition_iff edge_ok_def ValidateSuccessor_iff)
    then have "\<not> (trType r = TransitionDesired \<and> omGeneration (nlMetadata c) = - 1)" by (auto simp: wantGeneration_def)
    then show ?thesis using True ru same by (simp add: BuildTransitionPlan_def Let_def)
  next
    case False
    then have "BuildTransitionPlan c r t \<noteq> Inr p" for p
      by (auto simp: BuildTransitionPlan_def Let_def split: sum.splits if_splits)
    then show ?thesis using False same by blast
  qed
qed

theorem transition_plan_exact_witness:
  "\<exists>p. BuildTransitionPlan (w_node StateDiscovered [] 1 (CHR ''a'') 1)
      (w_request StateEnrolling TransitionDesired [] (CHR ''a'') [CheckEnrollmentAuthorized]) 2 = Inr p
    \<and> tpPlannedGeneration p = 2"
proof -
  let ?c = "w_node StateDiscovered [] 1 (CHR ''a'') 1"
  let ?r = "w_request StateEnrolling TransitionDesired [] (CHR ''a'') [CheckEnrollmentAuthorized]"
  have n: "successor ?c ?r ''b'' 2 = w_node StateEnrolling [] 2 (CHR ''b'') 2"
    by (simp add: successor_def w_node_def w_meta_def w_request_def)
  have "ValidateTransition ?c (w_node StateEnrolling [] 2 (CHR ''b'') 2)
     (w_request StateEnrolling (ruType (rule TransitionDesired [CheckEnrollmentAuthorized])) [] (CHR ''a'')
       (ruRequiredChecks (rule TransitionDesired [CheckEnrollmentAuthorized]))) = Inr ()"
    by (intro w_step w_node_ok) (simp_all add: w_eval rule_def)
  then have v: "ValidateTransition ?c (successor ?c ?r ''b'' 2) ?r = Inr ()" by (simp add: n rule_def)
  have b: "validateOpaqueVersion ''b'' = Inr ()" "''b'' \<noteq> omResourceVersion (nlMetadata ?c)" by (simp_all add: w_identifiers)
  have a: "omResourceVersion (nlMetadata ?c) \<noteq> ''plan:'' @ transitionFingerprint ?c ?r" by simp
  obtain p where "BuildTransitionPlan ?c ?r 2 = Inr p" using transition_plan_exact[OF b a, of 2] v by auto
  moreover from this have "tpPlannedGeneration p = 2" using transition_plan_exact[OF b a, of 2] by simp
  ultimately show ?thesis by blast
qed

subsection \<open>The steps of an operation follow the transition table\<close>

text \<open>The lifecycle state an action enters, and the state a list of steps ends in when every such step is
  an edge of the table and lists the evidence of that edge.\<close>

definition lifecycle_target :: "string \<Rightarrow> State option" where
  "lifecycle_target = map_of
     [(''lifecycle.enter-draining'', StateDraining), (''lifecycle.enter-maintenance'', StateMaintenance),
      (''lifecycle.enter-replacing'', StateReplacing), (''lifecycle.retire-replaced-node'', StateRetired),
      (''lifecycle.enter-removing'', StateRemoving), (''lifecycle.retire-removed-node'', StateRetired)]"

fun lifecycle_path :: "State \<Rightarrow> OperationPlanStep list \<Rightarrow> State option" where
  "lifecycle_path s [] = Some s"
| "lifecycle_path s (st # sts) =
     (case lifecycle_target (osAction st) of
        None \<Rightarrow> lifecycle_path s sts
      | Some t \<Rightarrow>
          (case transitionRuleFor s t of
             None \<Rightarrow> None
           | Some ru \<Rightarrow> if set (ruRequiredChecks ru) = set (osRequiredEvidence st) then lifecycle_path t sts else None))"

lemmas path_eval = lifecycle_target_def plan_step_def transitionRuleFor_def transitionRules_def rule_def

lemma drain_path: "s = StateReady \<or> s = StateDegraded \<Longrightarrow> lifecycle_path s drain_steps = Some StateMaintenance"
  by (auto simp: drain_steps_def path_eval)

lemma replace_path: "lifecycle_path StateMaintenance replace_steps = Some StateRetired"
  by (simp add: replace_steps_def path_eval)

lemma decommission_path: "lifecycle_path StateMaintenance decommission_steps = Some StateRetired"
  by (simp add: decommission_steps_def path_eval)

lemma placements_loop_ok:
  "placements_loop seen ps = Inr () \<Longrightarrow> distinct (map wpWorkloadID ps) \<and> set seen \<inter> wpWorkloadID ` set ps = {}
     \<and> list_all (\<lambda>p. placement_ok p = Inr ()) ps"
  by (induction seen ps rule: placements_loop.induct) (auto split: sum.splits if_splits)

lemma placement_stateful:
  "placement_ok p = Inr () \<Longrightarrow> wpKind p = WorkloadStateful \<Longrightarrow> wpMigrationAdapter p \<noteq> [] \<and> 1 \<le> wpHealthyReplicasOutside p"
  by (auto simp: placement_ok_def validateOperationIdentifier_def split: sum.splits if_splits)

text \<open>
  Operation plans respect the lifecycle contract. The lifecycle steps of a drain, replacement or
  decommission plan are edges of the transition table from the node's state, each with exactly the
  evidence of its edge, and end in maintenance for a drain and in retirement otherwise. No plan mutates
  anything, and every stateful workload of an admitted plan has an adapter and a healthy replica elsewhere.
\<close>

lemma operation_plans_follow_table:
  "(BuildOperationPlan c req = Inr p \<longrightarrow>
      lifecycle_path (nlState c) (olSteps p) = Some (if orKind req = OperationDrain then StateMaintenance else StateRetired)
    \<and> \<not> olLifecycleMutation p \<and> \<not> olPlacementMutation p \<and> \<not> olHostMutation p
    \<and> (\<forall>w \<in> set (orPlacements req). wpKind w = WorkloadStateful \<longrightarrow>
         wpMigrationAdapter w \<noteq> [] \<and> 1 \<le> wpHealthyReplicasOutside w))
   \<and> (BuildDecommissionPlan c = Inr d \<longrightarrow> lifecycle_path (nlState c) (dpSteps d) = Some StateRetired
    \<and> \<not> dpLifecycleMutation d \<and> \<not> dpPlacementMutation d \<and> \<not> dpHostMutation d)"
proof (intro conjI impI)
  assume b: "BuildOperationPlan c req = Inr p"
  then obtain steps repl where s: "operation_steps c req = Inr (steps, repl)" "olSteps p = steps"
      "validatePlacements (orPlacements req) = Inr ()"
      "\<not> olLifecycleMutation p" "\<not> olPlacementMutation p" "\<not> olHostMutation p"
    by (auto simp: BuildOperationPlan_def Let_def split: sum.splits)
  then show "\<not> olLifecycleMutation p" "\<not> olPlacementMutation p" "\<not> olHostMutation p" by blast+
  show "lifecycle_path (nlState c) (olSteps p) = Some (if orKind req = OperationDrain then StateMaintenance else StateRetired)"
    using s(1,2) drain_path[of "nlState c"] replace_path
    by (auto simp: operation_steps_def Let_def split: OperationKind.splits if_splits sum.splits)
  show "\<forall>w \<in> set (orPlacements req). wpKind w = WorkloadStateful \<longrightarrow>
         wpMigrationAdapter w \<noteq> [] \<and> 1 \<le> wpHealthyReplicasOutside w"
    using placements_loop_ok[of "[]"] placement_stateful s(3) unfolding validatePlacements_def list_all_iff by blast
next
  assume "BuildDecommissionPlan c = Inr d"
  then have d: "nlState c = StateMaintenance" "dpSteps d = decommission_steps"
      "\<not> dpLifecycleMutation d" "\<not> dpPlacementMutation d" "\<not> dpHostMutation d"
    by (auto simp: BuildDecommissionPlan_def split: sum.splits if_splits)
  then show "lifecycle_path (nlState c) (dpSteps d) = Some StateRetired" "\<not> dpLifecycleMutation d"
      "\<not> dpPlacementMutation d" "\<not> dpHostMutation d"
    using decommission_path by simp_all
qed

end
