(* ===== verification/Network_Plan.thy ===== *)
theory Network_Plan
  imports Go_Text Go_Json_Encode Go_Sha256
begin

text \<open>
  Package \<^verbatim>\<open>internal/networkpolicy\<close>: network zones and the forwarding policy (\<^verbatim>\<open>policy.go\<close>), and the
  staged network change plan (\<^verbatim>\<open>change_plan.go\<close>) with its canonical form and digest. A zone is a string
  with named values. The strict JSON decoding of a request, \<^verbatim>\<open>DecodeChangePlanRequest\<close>, is the standard
  library's decoder and is not modelled. In error texts the quoted values of the source are left out.
\<close>

subsection \<open>Zones and forwarding\<close>

type_synonym Zone = string

definition ZoneWAN :: Zone where "ZoneWAN = ''WAN''"
definition ZoneLAN :: Zone where "ZoneLAN = ''LAN''"
definition ZoneManagement :: Zone where "ZoneManagement = ''MANAGEMENT''"
definition ZoneDMZ :: Zone where "ZoneDMZ = ''DMZ''"
definition ZoneCluster :: Zone where "ZoneCluster = ''CLUSTER''"
definition ZoneStorage :: Zone where "ZoneStorage = ''STORAGE''"
definition ZoneBackup :: Zone where "ZoneBackup = ''BACKUP''"

lemmas zone_defs = ZoneWAN_def ZoneLAN_def ZoneManagement_def ZoneDMZ_def ZoneCluster_def ZoneStorage_def ZoneBackup_def

definition Zone_Valid :: "Zone \<Rightarrow> bool" where
  "Zone_Valid z \<longleftrightarrow> z \<in> set [ZoneWAN, ZoneLAN, ZoneManagement, ZoneDMZ, ZoneCluster, ZoneStorage, ZoneBackup]"

record ForwardingIntent =
  fwSource :: Zone
  fwDestination :: Zone
  fwExplicitlyEnabled :: bool
  fwEdgeGatewayAssigned :: bool

datatype network_error =
    ErrInvalidZone string
  | ErrForwardingDisabled
  | ErrEdgeGatewayRequired
  | ErrInvalidChangePlan string

definition AuthorizeForwarding :: "ForwardingIntent \<Rightarrow> network_error + unit" where
  "AuthorizeForwarding i =
     (if \<not> Zone_Valid (fwSource i) then Inl (ErrInvalidZone ''source'')
      else if \<not> Zone_Valid (fwDestination i) then Inl (ErrInvalidZone ''destination'')
      else if fwSource i = fwDestination i then Inr ()
      else if \<not> fwExplicitlyEnabled i then Inl ErrForwardingDisabled
      else if (fwSource i = ZoneWAN \<or> fwDestination i = ZoneWAN) \<and> \<not> fwEdgeGatewayAssigned i
        then Inl ErrEdgeGatewayRequired
      else Inr ())"

subsection \<open>Plans\<close>

definition ChangePlanSchemaVersion :: string where
  "ChangePlanSchemaVersion = ''network.change.plan/v1''"

definition maxInterfacesPerPlan :: nat where "maxInterfacesPerPlan = 64"
definition maxForwardingIntents :: nat where "maxForwardingIntents = 128"
definition maxProbesPerPlan :: nat where "maxProbesPerPlan = 128"
definition maxPhaseTimeout :: duration where "maxPhaseTimeout = 15 * minute"

definition identifierPattern :: "string \<Rightarrow> bool" where
  "identifierPattern = match_identifier ''._-'' 126"

datatype ChangeStage =
  ChangeStageSnapshot | ChangeStagePreflight | ChangeStageApplyWindow | ChangeStageProbes | ChangeStageDecision

datatype ChangeAction =
    ActionCaptureRecoverySnapshot | ActionValidateNetworkContract | ActionValidateManagementPath
  | ActionAuthorizeForwarding | ActionOpenTemporaryWindow | ActionRunConnectivityProbes | ActionCommitOrRollback

datatype ProbeKind = ProbeLinkState | ProbeZoneReachability | ProbeControlPlane | ProbeUnsupported string

definition ProbeKind_valid :: "ProbeKind \<Rightarrow> bool" where
  "ProbeKind_valid k \<longleftrightarrow> k = ProbeLinkState \<or> k = ProbeZoneReachability \<or> k = ProbeControlPlane"

record InterfaceIntent =
  ifInterfaceID :: string
  ifZone :: Zone
  ifChanged :: bool

record ConnectivityProbe =
  prID :: string
  prKind :: ProbeKind
  prInterfaceID :: string
  prZone :: Zone

record TimeoutPolicy =
  toSnapshot :: duration
  toPreflight :: duration
  toApplyWindow :: duration
  toProbe :: duration
  toRollback :: duration

record ChangePlanRequest =
  crNodeID :: string
  crRevisionID :: string
  crInterfaces :: "InterfaceIntent list"
  crForwarding :: "ForwardingIntent list"
  crProbes :: "ConnectivityProbe list"
  crTimeouts :: TimeoutPolicy

record ChangeStep =
  stOrder :: int
  stStage :: ChangeStage
  stAction :: ChangeAction

text \<open>
  The slice of forwarding intents is \<open>None\<close> when nil: \<^verbatim>\<open>append\<close> of nothing to a nil slice is nil, and the
  difference to an empty slice shows in the JSON form and in \<^verbatim>\<open>reflect.DeepEqual\<close>. The other slices of a plan
  are never empty.
\<close>

record ChangePlan =
  cpSchemaVersion :: string
  cpPlanID :: string
  cpNodeID :: string
  cpRevisionID :: string
  cpInterfaces :: "InterfaceIntent list"
  cpForwarding :: "ForwardingIntent list option"
  cpForwardingDefaultDeny :: bool
  cpProbes :: "ConnectivityProbe list"
  cpTimeouts :: TimeoutPolicy
  cpSteps :: "ChangeStep list"

definition normalizeIdentifier :: "string \<Rightarrow> string \<Rightarrow> network_error + string" where
  "normalizeIdentifier name v =
     (if identifierPattern (TrimSpace v) then Inr (TrimSpace v) else Inl (ErrInvalidChangePlan (name @ '' is invalid'')))"

definition validateTimeouts :: "TimeoutPolicy \<Rightarrow> network_error + unit" where
  "validateTimeouts t = first_error
     (map (\<lambda>(name, v). require (\<not> (v \<le> 0 \<or> v > maxPhaseTimeout))
        (ErrInvalidChangePlan (''timeout '' @ name @ '' must be greater than zero and at most 15m0s'')))
       [(''snapshot'', toSnapshot t), (''preflight'', toPreflight t), (''apply_window'', toApplyWindow t),
        (''probe'', toProbe t), (''rollback'', toRollback t)]
      @ [require (\<not> toProbe t > toApplyWindow t) (ErrInvalidChangePlan ''probe timeout must not exceed apply window'')])"

definition canonical_zone :: "Zone \<Rightarrow> Zone" where
  "canonical_zone z = ToUpper (TrimSpace z)"

fun interfaces_loop :: "InterfaceIntent list \<Rightarrow> InterfaceIntent list \<Rightarrow> (string \<times> InterfaceIntent) list
    \<Rightarrow> network_error + (InterfaceIntent list \<times> (string \<times> InterfaceIntent) list)" where
  "interfaces_loop [] result byID = Inr (result, byID)"
| "interfaces_loop (item # items) result byID =
     (case normalizeIdentifier ''interface_id'' (ifInterfaceID item) of Inl e \<Rightarrow> Inl e
      | Inr i \<Rightarrow>
        let item' = item\<lparr>ifInterfaceID := i, ifZone := canonical_zone (ifZone item)\<rparr> in
        if \<not> Zone_Valid (ifZone item') then Inl (ErrInvalidChangePlan ''interface has invalid zone'')
        else if gget byID i \<noteq> None then Inl (ErrInvalidChangePlan ''duplicate interface'')
        else interfaces_loop items (result @ [item']) (gput i item' byID))"

definition canonicalInterfaces :: "InterfaceIntent list
    \<Rightarrow> network_error + (InterfaceIntent list \<times> (string \<times> InterfaceIntent) list)" where
  "canonicalInterfaces input =
     (if length input = 0 \<or> length input > maxInterfacesPerPlan
        then Inl (ErrInvalidChangePlan ''interfaces must contain 1..64 entries'')
      else (case interfaces_loop input [] [] of Inl e \<Rightarrow> Inl e
      | Inr (result, byID) \<Rightarrow>
          if length (filter ifChanged result) = 0
          then Inl (ErrInvalidChangePlan ''at least one interface must be marked changed'')
          else Inr (sort_key ifInterfaceID result, byID)))"

fun forwarding_loop :: "Zone list \<Rightarrow> ForwardingIntent list \<Rightarrow> ForwardingIntent list \<Rightarrow> string list
    \<Rightarrow> network_error + ForwardingIntent list" where
  "forwarding_loop zones [] result seen = Inr result"
| "forwarding_loop zones (f # fs) result seen =
     (let f' = f\<lparr>fwSource := canonical_zone (fwSource f), fwDestination := canonical_zone (fwDestination f)\<rparr>;
          key = fwSource f' @ [CHR 0x00] @ fwDestination f'
      in case AuthorizeForwarding f' of
        Inl e \<Rightarrow> Inl (ErrInvalidChangePlan ''forwarding'')
      | Inr _ \<Rightarrow>
          if fwSource f' \<notin> set zones
            then Inl (ErrInvalidChangePlan ''forwarding source zone is not declared by an interface'')
          else if fwDestination f' \<notin> set zones
            then Inl (ErrInvalidChangePlan ''forwarding destination zone is not declared by an interface'')
          else if key \<in> set seen then Inl (ErrInvalidChangePlan ''duplicate forwarding intent'')
          else forwarding_loop zones fs (result @ [f']) (key # seen))"

definition canonicalForwarding :: "ForwardingIntent list \<Rightarrow> (string \<times> InterfaceIntent) list
    \<Rightarrow> network_error + ForwardingIntent list" where
  "canonicalForwarding input interfaces =
     (if length input > maxForwardingIntents then Inl (ErrInvalidChangePlan ''forwarding exceeds 128 entries'')
      else (case forwarding_loop (map (\<lambda>(k, i). ifZone i) interfaces) input [] [] of Inl e \<Rightarrow> Inl e
      | Inr result \<Rightarrow> Inr (sort_key (\<lambda>f. (fwSource f, fwDestination f)) result)))"

fun probes_loop :: "(string \<times> InterfaceIntent) list \<Rightarrow> ConnectivityProbe list \<Rightarrow> ConnectivityProbe list \<Rightarrow> string list
    \<Rightarrow> network_error + ConnectivityProbe list" where
  "probes_loop interfaces [] result seen = Inr result"
| "probes_loop interfaces (p # ps) result seen =
     (case normalizeIdentifier ''probe.id'' (prID p) of Inl e \<Rightarrow> Inl e
      | Inr i \<Rightarrow>
     (case normalizeIdentifier ''probe.interface_id'' (prInterfaceID p) of Inl e \<Rightarrow> Inl e
      | Inr interfaceID \<Rightarrow>
        let p' = p\<lparr>prID := i, prInterfaceID := interfaceID, prZone := canonical_zone (prZone p)\<rparr> in
        if \<not> ProbeKind_valid (prKind p') then Inl (ErrInvalidChangePlan ''probe has invalid kind'')
        else if (case gget interfaces interfaceID of None \<Rightarrow> True | Some bound \<Rightarrow> ifZone bound \<noteq> prZone p')
          then Inl (ErrInvalidChangePlan ''probe interface/zone binding is not declared'')
        else if i \<in> set seen then Inl (ErrInvalidChangePlan ''duplicate probe'')
        else probes_loop interfaces ps (result @ [p']) (i # seen)))"

definition canonicalProbes :: "ConnectivityProbe list \<Rightarrow> (string \<times> InterfaceIntent) list
    \<Rightarrow> network_error + ConnectivityProbe list" where
  "canonicalProbes input interfaces =
     (if length input = 0 \<or> length input > maxProbesPerPlan
        then Inl (ErrInvalidChangePlan ''probes must contain 1..128 entries'')
      else (case probes_loop interfaces input [] [] of Inl e \<Rightarrow> Inl e | Inr result \<Rightarrow> Inr (sort_key prID result)))"

definition management_probe :: "ConnectivityProbe \<Rightarrow> bool" where
  "management_probe p \<longleftrightarrow> prKind p = ProbeControlPlane \<and> (prZone p = ZoneManagement \<or> prZone p = ZoneLAN)"

definition validateProbeCoverage :: "InterfaceIntent list \<Rightarrow> ConnectivityProbe list \<Rightarrow> network_error + unit" where
  "validateProbeCoverage interfaces probes =
     (if list_ex (\<lambda>i. ifChanged i \<and> ifInterfaceID i \<notin> set (map prInterfaceID probes)) interfaces
        then Inl (ErrInvalidChangePlan ''changed interface has no connectivity probe'')
      else if \<not> list_ex management_probe probes
        then Inl (ErrInvalidChangePlan ''a control_plane probe bound to MANAGEMENT or LAN is required'')
      else Inr ())"

subsection \<open>Digest and construction\<close>

definition stage_text :: "ChangeStage \<Rightarrow> string" where
  "stage_text s = (case s of ChangeStageSnapshot \<Rightarrow> ''snapshot'' | ChangeStagePreflight \<Rightarrow> ''preflight''
     | ChangeStageApplyWindow \<Rightarrow> ''apply_window'' | ChangeStageProbes \<Rightarrow> ''probes'' | ChangeStageDecision \<Rightarrow> ''commit_or_rollback'')"

definition action_text :: "ChangeAction \<Rightarrow> string" where
  "action_text a = (case a of ActionCaptureRecoverySnapshot \<Rightarrow> ''capture_recovery_snapshot''
     | ActionValidateNetworkContract \<Rightarrow> ''validate_network_contract''
     | ActionValidateManagementPath \<Rightarrow> ''validate_management_path''
     | ActionAuthorizeForwarding \<Rightarrow> ''authorize_forwarding''
     | ActionOpenTemporaryWindow \<Rightarrow> ''open_temporary_apply_window''
     | ActionRunConnectivityProbes \<Rightarrow> ''run_connectivity_probes''
     | ActionCommitOrRollback \<Rightarrow> ''commit_or_rollback'')"

definition probe_kind_text :: "ProbeKind \<Rightarrow> string" where
  "probe_kind_text k = (case k of ProbeLinkState \<Rightarrow> ''link_state'' | ProbeZoneReachability \<Rightarrow> ''zone_reachability''
     | ProbeControlPlane \<Rightarrow> ''control_plane'' | ProbeUnsupported s \<Rightarrow> s)"

definition plan_json :: "ChangePlan \<Rightarrow> json" where
  "plan_json p = JObject
     [(''schema_version'', JString (cpSchemaVersion p)), (''plan_id'', JString (cpPlanID p)),
      (''node_id'', JString (cpNodeID p)), (''revision_id'', JString (cpRevisionID p)),
      (''interfaces'', JArray (map (\<lambda>i. JObject [(''interface_id'', JString (ifInterfaceID i)),
         (''zone'', JString (ifZone i)), (''changed'', JBool (ifChanged i))]) (cpInterfaces p))),
      (''forwarding'', (case cpForwarding p of None \<Rightarrow> JNull
         | Some fs \<Rightarrow> JArray (map (\<lambda>f. JObject [(''source'', JString (fwSource f)),
             (''destination'', JString (fwDestination f)), (''explicitly_enabled'', JBool (fwExplicitlyEnabled f)),
             (''edge_gateway_assigned'', JBool (fwEdgeGatewayAssigned f))]) fs))),
      (''forwarding_default_deny'', JBool (cpForwardingDefaultDeny p)),
      (''probes'', JArray (map (\<lambda>q. JObject [(''id'', JString (prID q)), (''kind'', JString (probe_kind_text (prKind q))),
         (''interface_id'', JString (prInterfaceID q)), (''zone'', JString (prZone q))]) (cpProbes p))),
      (''timeouts'', (let t = cpTimeouts p in JObject [(''snapshot'', JInt (toSnapshot t)),
         (''preflight'', JInt (toPreflight t)), (''apply_window'', JInt (toApplyWindow t)),
         (''probe'', JInt (toProbe t)), (''rollback'', JInt (toRollback t))])),
      (''steps'', JArray (map (\<lambda>s. JObject [(''order'', JInt (stOrder s)), (''stage'', JString (stage_text (stStage s))),
         (''action'', JString (action_text (stAction s)))]) (cpSteps p)))]"

definition changePlanID :: "ChangePlan \<Rightarrow> string" where
  "changePlanID plan = ''sha256:'' @ sha256_hex (json_Marshal (plan_json (plan\<lparr>cpPlanID := []\<rparr>)))"

definition change_steps :: "ChangeStep list" where
  "change_steps =
     [\<lparr>stOrder = 1, stStage = ChangeStageSnapshot, stAction = ActionCaptureRecoverySnapshot\<rparr>,
      \<lparr>stOrder = 2, stStage = ChangeStagePreflight, stAction = ActionValidateNetworkContract\<rparr>,
      \<lparr>stOrder = 3, stStage = ChangeStagePreflight, stAction = ActionValidateManagementPath\<rparr>,
      \<lparr>stOrder = 4, stStage = ChangeStagePreflight, stAction = ActionAuthorizeForwarding\<rparr>,
      \<lparr>stOrder = 5, stStage = ChangeStageApplyWindow, stAction = ActionOpenTemporaryWindow\<rparr>,
      \<lparr>stOrder = 6, stStage = ChangeStageProbes, stAction = ActionRunConnectivityProbes\<rparr>,
      \<lparr>stOrder = 7, stStage = ChangeStageDecision, stAction = ActionCommitOrRollback\<rparr>]"

definition new_plan :: "string \<Rightarrow> string \<Rightarrow> InterfaceIntent list \<Rightarrow> ForwardingIntent list \<Rightarrow> ConnectivityProbe list
    \<Rightarrow> TimeoutPolicy \<Rightarrow> ChangePlan" where
  "new_plan nodeID revisionID interfaces forwarding probes timeouts =
     (let plan = \<lparr>cpSchemaVersion = ChangePlanSchemaVersion, cpPlanID = [], cpNodeID = nodeID, cpRevisionID = revisionID,
        cpInterfaces = interfaces, cpForwarding = (if forwarding = [] then None else Some forwarding),
        cpForwardingDefaultDeny = True, cpProbes = probes, cpTimeouts = timeouts, cpSteps = change_steps\<rparr>
      in plan\<lparr>cpPlanID := changePlanID plan\<rparr>)"

definition BuildChangePlan :: "ChangePlanRequest \<Rightarrow> network_error + ChangePlan" where
  "BuildChangePlan request =
     (case normalizeIdentifier ''node_id'' (crNodeID request) of Inl e \<Rightarrow> Inl e
      | Inr nodeID \<Rightarrow>
     (case normalizeIdentifier ''revision_id'' (crRevisionID request) of Inl e \<Rightarrow> Inl e
      | Inr revisionID \<Rightarrow>
     (case validateTimeouts (crTimeouts request) of Inl e \<Rightarrow> Inl e
      | Inr _ \<Rightarrow>
     (case canonicalInterfaces (crInterfaces request) of Inl e \<Rightarrow> Inl e
      | Inr (interfaces, interfaceByID) \<Rightarrow>
     (case canonicalForwarding (crForwarding request) interfaceByID of Inl e \<Rightarrow> Inl e
      | Inr forwarding \<Rightarrow>
     (case canonicalProbes (crProbes request) interfaceByID of Inl e \<Rightarrow> Inl e
      | Inr probes \<Rightarrow>
     (case validateProbeCoverage interfaces probes of Inl e \<Rightarrow> Inl e
      | Inr _ \<Rightarrow> Inr (new_plan nodeID revisionID interfaces forwarding probes (crTimeouts request)))))))))"

subsection \<open>Canonical parts\<close>

text \<open>
  What the three canonicalizing loops compute: each element in normal form, and a condition on the
  normal forms that does not depend on their order.
\<close>

definition norm_if :: "InterfaceIntent \<Rightarrow> InterfaceIntent" where
  "norm_if i = i\<lparr>ifInterfaceID := TrimSpace (ifInterfaceID i), ifZone := canonical_zone (ifZone i)\<rparr>"

definition norm_fw :: "ForwardingIntent \<Rightarrow> ForwardingIntent" where
  "norm_fw f = f\<lparr>fwSource := canonical_zone (fwSource f), fwDestination := canonical_zone (fwDestination f)\<rparr>"

definition norm_pr :: "ConnectivityProbe \<Rightarrow> ConnectivityProbe" where
  "norm_pr p = p\<lparr>prID := TrimSpace (prID p), prInterfaceID := TrimSpace (prInterfaceID p), prZone := canonical_zone (prZone p)\<rparr>"

abbreviation fw_pair :: "ForwardingIntent \<Rightarrow> Zone \<times> Zone" where
  "fw_pair f \<equiv> (fwSource f, fwDestination f)"

definition if_ok :: "InterfaceIntent \<Rightarrow> bool" where
  "if_ok i \<longleftrightarrow> identifierPattern (ifInterfaceID i) \<and> Zone_Valid (ifZone i)"

definition fw_ok :: "Zone set \<Rightarrow> ForwardingIntent \<Rightarrow> bool" where
  "fw_ok zs f \<longleftrightarrow> AuthorizeForwarding f = Inr () \<and> fwSource f \<in> zs \<and> fwDestination f \<in> zs"

definition pr_ok :: "InterfaceIntent set \<Rightarrow> ConnectivityProbe \<Rightarrow> bool" where
  "pr_ok ifs p \<longleftrightarrow> identifierPattern (prID p) \<and> identifierPattern (prInterfaceID p) \<and> ProbeKind_valid (prKind p)
     \<and> (\<exists>i \<in> ifs. ifInterfaceID i = prInterfaceID p \<and> ifZone i = prZone p)"

definition parts_ok :: "InterfaceIntent list \<Rightarrow> ForwardingIntent list \<Rightarrow> ConnectivityProbe list \<Rightarrow> bool" where
  "parts_ok ns fs ps \<longleftrightarrow>
     0 < length ns \<and> length ns \<le> maxInterfacesPerPlan \<and> (\<forall>i \<in> set ns. if_ok i) \<and> distinct (map ifInterfaceID ns)
   \<and> (\<exists>i \<in> set ns. ifChanged i)
   \<and> length fs \<le> maxForwardingIntents \<and> (\<forall>f \<in> set fs. fw_ok (ifZone ` set ns) f) \<and> distinct (map fw_pair fs)
   \<and> 0 < length ps \<and> length ps \<le> maxProbesPerPlan \<and> (\<forall>p \<in> set ps. pr_ok (set ns) p) \<and> distinct (map prID ps)
   \<and> (\<forall>i \<in> set ns. ifChanged i \<longrightarrow> ifInterfaceID i \<in> prInterfaceID ` set ps) \<and> (\<exists>p \<in> set ps. management_probe p)"

lemma distinct_map_sort [simp]: "distinct (map f (sort_key g xs)) \<longleftrightarrow> distinct (map f xs)"
  by (simp add: distinct_map)

lemma parts_ok_sort:
  "parts_ok (sort_key f ns) (sort_key g fs) (sort_key h ps) \<longleftrightarrow> parts_ok ns fs ps"
  by (simp add: parts_ok_def)

lemma interfaces_loop_iff:
  "interfaces_loop items result byID = Inr r \<longleftrightarrow>
     r = (result @ map norm_if items, byID @ map (\<lambda>i. (ifInterfaceID i, i)) (map norm_if items))
   \<and> (\<forall>i \<in> set (map norm_if items). if_ok i) \<and> distinct (map ifInterfaceID (map norm_if items))
   \<and> fst ` set byID \<inter> ifInterfaceID ` set (map norm_if items) = {}"
proof (induction items result byID rule: interfaces_loop.induct)
  case (2 item items result byID)
  let ?n = "norm_if item"
  have n: "item\<lparr>ifInterfaceID := TrimSpace (ifInterfaceID item), ifZone := canonical_zone (ifZone item)\<rparr> = ?n"
    by (simp add: norm_if_def)
  have sel: "ifInterfaceID ?n = TrimSpace (ifInterfaceID item)" "ifZone ?n = canonical_zone (ifZone item)"
    by (simp_all add: norm_if_def)
  show ?case
  proof (cases "if_ok ?n \<and> gget byID (ifInterfaceID ?n) = None")
    case True
    then have step: "interfaces_loop (item # items) result byID
        = interfaces_loop items (result @ [?n]) (byID @ [(ifInterfaceID ?n, ?n)])"
      by (simp add: normalizeIdentifier_def if_ok_def sel Let_def n gput_fresh)
    have "interfaces_loop items (result @ [?n]) (byID @ [(ifInterfaceID ?n, ?n)]) = Inr r \<longleftrightarrow>
       r = ((result @ [?n]) @ map norm_if items,
            (byID @ [(ifInterfaceID ?n, ?n)]) @ map (\<lambda>i. (ifInterfaceID i, i)) (map norm_if items))
     \<and> (\<forall>i \<in> set (map norm_if items). if_ok i) \<and> distinct (map ifInterfaceID (map norm_if items))
     \<and> fst ` set (byID @ [(ifInterfaceID ?n, ?n)]) \<inter> ifInterfaceID ` set (map norm_if items) = {}"
      using "2.IH"[OF _ refl] True by (simp add: normalizeIdentifier_def if_ok_def sel n gput_fresh)
    moreover have "ifInterfaceID ?n \<notin> fst ` set byID" using True by (simp add: map_of_eq_None_iff)
    ultimately show ?thesis unfolding step using True by auto
  next
    case False
    then have "\<exists>e. interfaces_loop (item # items) result byID = Inl e"
      by (auto simp: normalizeIdentifier_def if_ok_def sel Let_def)
    moreover have "if_ok ?n \<Longrightarrow> ifInterfaceID ?n \<in> fst ` set byID" using False by (auto simp: map_of_eq_None_iff)
    ultimately show ?thesis using False by auto
  qed
qed auto

lemma canonicalInterfaces_iff:
  "canonicalInterfaces input = Inr (out, byID) \<longleftrightarrow> (let ns = map norm_if input in
     0 < length ns \<and> length ns \<le> maxInterfacesPerPlan \<and> (\<forall>i \<in> set ns. if_ok i) \<and> distinct (map ifInterfaceID ns)
   \<and> (\<exists>i \<in> set ns. ifChanged i) \<and> out = sort_key ifInterfaceID ns \<and> byID = map (\<lambda>i. (ifInterfaceID i, i)) ns)"
proof -
  have "canonicalInterfaces input = Inr (out, byID) \<longleftrightarrow> 0 < length input \<and> length input \<le> maxInterfacesPerPlan
     \<and> (\<exists>ns b. interfaces_loop input [] [] = Inr (ns, b) \<and> filter ifChanged ns \<noteq> [] \<and> out = sort_key ifInterfaceID ns \<and> byID = b)"
    by (auto simp: canonicalInterfaces_def split: sum.splits if_splits)
  then show ?thesis unfolding interfaces_loop_iff Let_def by (auto simp: filter_empty_conv)
qed

lemma zone_text:
  assumes "Zone_Valid z" shows "CHR 0x00 \<notin> set z \<and> canonical_zone z = z"
proof -
  have z: "list_all ascii_upper z" using assms by (auto simp: Zone_Valid_def zone_defs ascii_upper_def less_eq_char_def)
  then have "list_all graphic z" using alnum_graphic by (auto simp: list_all_iff alnum_def)
  then show ?thesis using z ToUpper_fixed[OF z] TrimSpace_graphic
    by (auto simp: canonical_zone_def list_all_iff graphic_def)
qed

abbreviation fw_key :: "ForwardingIntent \<Rightarrow> string" where
  "fw_key f \<equiv> fwSource f @ [CHR 0x00] @ fwDestination f"

lemma forwarding_loop_iff:
  "forwarding_loop zones fs result seen = Inr r \<longleftrightarrow> r = result @ map norm_fw fs
   \<and> (\<forall>f \<in> set (map norm_fw fs). fw_ok (set zones) f) \<and> distinct (map fw_key (map norm_fw fs))
   \<and> set seen \<inter> fw_key ` set (map norm_fw fs) = {}"
proof (induction zones fs result seen rule: forwarding_loop.induct)
  case (2 zones f fs result seen)
  let ?n = "norm_fw f"
  have n: "f\<lparr>fwSource := canonical_zone (fwSource f), fwDestination := canonical_zone (fwDestination f)\<rparr> = ?n"
    by (simp add: norm_fw_def)
  show ?case
  proof (cases "fw_ok (set zones) ?n \<and> fw_key ?n \<notin> set seen")
    case True
    then have step: "forwarding_loop zones (f # fs) result seen = forwarding_loop zones fs (result @ [?n]) (fw_key ?n # seen)"
      by (simp add: fw_ok_def Let_def n)
    have "forwarding_loop zones fs (result @ [?n]) (fw_key ?n # seen) = Inr r \<longleftrightarrow> r = (result @ [?n]) @ map norm_fw fs
     \<and> (\<forall>f \<in> set (map norm_fw fs). fw_ok (set zones) f) \<and> distinct (map fw_key (map norm_fw fs))
     \<and> set (fw_key ?n # seen) \<inter> fw_key ` set (map norm_fw fs) = {}"
      using "2.IH"[OF refl refl] True by (simp add: fw_ok_def n)
    then show ?thesis unfolding step using True by auto
  next
    case False
    then have "\<exists>e. forwarding_loop zones (f # fs) result seen = Inl e"
      unfolding forwarding_loop.simps Let_def n by (auto simp: fw_ok_def split: sum.splits)
    then show ?thesis using False by auto
  qed
qed auto

lemma fw_key_pair:
  assumes "\<forall>f \<in> set fs. fw_ok zs f"
  shows "distinct (map fw_key fs) \<longleftrightarrow> distinct (map fw_pair fs)"
proof -
  have "Zone_Valid (fwDestination f)" if "f \<in> set fs" for f
    using assms that by (auto simp: fw_ok_def AuthorizeForwarding_def split: if_splits)
  then have "fw_key f = fw_key g \<longleftrightarrow> fw_pair f = fw_pair g" if "f \<in> set fs" "g \<in> set fs" for f g
    using that nul_split_unique[of "fwSource f" "fwDestination f" "fwSource g" "fwDestination g"] zone_text by auto
  then show ?thesis unfolding distinct_map inj_on_def by blast
qed

lemma canonicalForwarding_iff:
  "canonicalForwarding input (map (\<lambda>i. (ifInterfaceID i, i)) ns) = Inr out \<longleftrightarrow> (let fs = map norm_fw input in
     length fs \<le> maxForwardingIntents \<and> (\<forall>f \<in> set fs. fw_ok (ifZone ` set ns) f) \<and> distinct (map fw_pair fs)
   \<and> out = sort_key fw_pair fs)"
proof -
  have "canonicalForwarding input (map (\<lambda>i. (ifInterfaceID i, i)) ns) = Inr out \<longleftrightarrow> length input \<le> maxForwardingIntents
     \<and> (\<exists>fs. forwarding_loop (map ifZone ns) input [] [] = Inr fs \<and> out = sort_key fw_pair fs)"
    by (auto simp: canonicalForwarding_def o_def split: sum.splits)
  then show ?thesis
    unfolding forwarding_loop_iff Let_def using fw_key_pair[of "map norm_fw input"] by auto
qed

definition pr_bound :: "(string \<times> InterfaceIntent) list \<Rightarrow> ConnectivityProbe \<Rightarrow> bool" where
  "pr_bound interfaces p \<longleftrightarrow> identifierPattern (prID p) \<and> identifierPattern (prInterfaceID p) \<and> ProbeKind_valid (prKind p)
     \<and> (case gget interfaces (prInterfaceID p) of None \<Rightarrow> False | Some b \<Rightarrow> ifZone b = prZone p)"

lemma probes_loop_iff:
  "probes_loop interfaces ps result seen = Inr r \<longleftrightarrow> r = result @ map norm_pr ps
   \<and> (\<forall>p \<in> set (map norm_pr ps). pr_bound interfaces p) \<and> distinct (map prID (map norm_pr ps))
   \<and> set seen \<inter> prID ` set (map norm_pr ps) = {}"
proof (induction interfaces ps result seen rule: probes_loop.induct)
  case (2 interfaces p ps result seen)
  let ?n = "norm_pr p"
  have n: "p\<lparr>prID := TrimSpace (prID p), prInterfaceID := TrimSpace (prInterfaceID p), prZone := canonical_zone (prZone p)\<rparr> = ?n"
    by (simp add: norm_pr_def)
  have sel: "prID ?n = TrimSpace (prID p)" "prInterfaceID ?n = TrimSpace (prInterfaceID p)" "prKind ?n = prKind p"
    by (simp_all add: norm_pr_def)
  show ?case
  proof (cases "pr_bound interfaces ?n \<and> prID ?n \<notin> set seen")
    case True
    obtain b where b: "gget interfaces (TrimSpace (prInterfaceID p)) = Some b" "ifZone b = prZone ?n" "ProbeKind_valid (prKind p)"
        "identifierPattern (TrimSpace (prID p))" "identifierPattern (TrimSpace (prInterfaceID p))"
      using True by (auto simp: pr_bound_def sel split: option.splits)
    have id: "normalizeIdentifier ''probe.id'' (prID p) = Inr (TrimSpace (prID p))"
        "normalizeIdentifier ''probe.interface_id'' (prInterfaceID p) = Inr (TrimSpace (prInterfaceID p))"
      using b by (simp_all add: normalizeIdentifier_def)
    have step: "probes_loop interfaces (p # ps) result seen = probes_loop interfaces ps (result @ [?n]) (prID ?n # seen)"
      using True b by (simp add: id Let_def n sel)
    have "probes_loop interfaces ps (result @ [?n]) (prID ?n # seen) = Inr r \<longleftrightarrow> r = (result @ [?n]) @ map norm_pr ps
     \<and> (\<forall>p \<in> set (map norm_pr ps). pr_bound interfaces p) \<and> distinct (map prID (map norm_pr ps))
     \<and> set (prID ?n # seen) \<inter> prID ` set (map norm_pr ps) = {}"
      using "2.IH"[OF id n[symmetric]] True b by (simp add: sel)
    then show ?thesis unfolding step using True by auto
  next
    case False
    then have "\<exists>e. probes_loop interfaces (p # ps) result seen = Inl e"
      by (auto simp: pr_bound_def normalizeIdentifier_def Let_def n sel split: option.splits)
    then show ?thesis using False by auto
  qed
qed auto

lemma pr_bound_iff:
  assumes "distinct (map ifInterfaceID ns)"
  shows "pr_bound (map (\<lambda>i. (ifInterfaceID i, i)) ns) p \<longleftrightarrow> pr_ok (set ns) p"
proof -
  let ?m = "map (\<lambda>i. (ifInterfaceID i, i)) ns"
  have lookup: "gget ?m k = Some i \<longleftrightarrow> i \<in> set ns \<and> ifInterfaceID i = k" for k i
    using assms by (subst map_of_eq_Some_iff) (auto simp: o_def)
  have "pr_bound ?m p \<longleftrightarrow> identifierPattern (prID p) \<and> identifierPattern (prInterfaceID p) \<and> ProbeKind_valid (prKind p)
      \<and> (\<exists>b. gget ?m (prInterfaceID p) = Some b \<and> ifZone b = prZone p)"
    unfolding pr_bound_def by (cases "gget ?m (prInterfaceID p)") simp_all
  then show ?thesis unfolding pr_ok_def lookup by blast
qed

lemma canonicalProbes_iff:
  assumes "distinct (map ifInterfaceID ns)"
  shows "canonicalProbes input (map (\<lambda>i. (ifInterfaceID i, i)) ns) = Inr out \<longleftrightarrow> (let ps = map norm_pr input in
     0 < length ps \<and> length ps \<le> maxProbesPerPlan \<and> (\<forall>p \<in> set ps. pr_ok (set ns) p) \<and> distinct (map prID ps)
   \<and> out = sort_key prID ps)"
proof -
  have "canonicalProbes input (map (\<lambda>i. (ifInterfaceID i, i)) ns) = Inr out \<longleftrightarrow> 0 < length input \<and> length input \<le> maxProbesPerPlan
     \<and> (\<exists>ps. probes_loop (map (\<lambda>i. (ifInterfaceID i, i)) ns) input [] [] = Inr ps \<and> out = sort_key prID ps)"
    by (auto simp: canonicalProbes_def split: sum.splits)
  then show ?thesis unfolding probes_loop_iff Let_def pr_bound_iff[OF assms] by auto
qed

lemma validateProbeCoverage_iff:
  "validateProbeCoverage ns ps = Inr () \<longleftrightarrow>
     (\<forall>i \<in> set ns. ifChanged i \<longrightarrow> ifInterfaceID i \<in> prInterfaceID ` set ps) \<and> (\<exists>p \<in> set ps. management_probe p)"
  by (auto simp: validateProbeCoverage_def list_ex_iff)

lemma BuildChangePlan_iff:
  assumes "ns = map norm_if (crInterfaces req)" "fs = map norm_fw (crForwarding req)" "ps = map norm_pr (crProbes req)"
  shows "BuildChangePlan req = Inr plan \<longleftrightarrow>
     identifierPattern (TrimSpace (crNodeID req)) \<and> identifierPattern (TrimSpace (crRevisionID req))
   \<and> validateTimeouts (crTimeouts req) = Inr () \<and> parts_ok ns fs ps
   \<and> plan = new_plan (TrimSpace (crNodeID req)) (TrimSpace (crRevisionID req)) (sort_key ifInterfaceID ns)
       (sort_key fw_pair fs) (sort_key prID ps) (crTimeouts req)"
proof -
  have "BuildChangePlan req = Inr plan \<longleftrightarrow> identifierPattern (TrimSpace (crNodeID req))
     \<and> identifierPattern (TrimSpace (crRevisionID req)) \<and> validateTimeouts (crTimeouts req) = Inr ()
     \<and> (\<exists>is b fw pr. canonicalInterfaces (crInterfaces req) = Inr (is, b) \<and> canonicalForwarding (crForwarding req) b = Inr fw
         \<and> canonicalProbes (crProbes req) b = Inr pr \<and> validateProbeCoverage is pr = Inr ()
         \<and> plan = new_plan (TrimSpace (crNodeID req)) (TrimSpace (crRevisionID req)) is fw pr (crTimeouts req))"
    by (auto simp: BuildChangePlan_def normalizeIdentifier_def split: sum.splits if_splits)
  moreover have "(\<exists>is b fw pr. canonicalInterfaces (crInterfaces req) = Inr (is, b) \<and> canonicalForwarding (crForwarding req) b = Inr fw
         \<and> canonicalProbes (crProbes req) b = Inr pr \<and> validateProbeCoverage is pr = Inr () \<and> Q is fw pr)
      \<longleftrightarrow> parts_ok ns fs ps \<and> Q (sort_key ifInterfaceID ns) (sort_key fw_pair fs) (sort_key prID ps)" for Q
  proof -
    define C where "C \<longleftrightarrow> 0 < length ns \<and> length ns \<le> maxInterfacesPerPlan \<and> (\<forall>i \<in> set ns. if_ok i)
      \<and> distinct (map ifInterfaceID ns) \<and> (\<exists>i \<in> set ns. ifChanged i)"
    define F where "F \<longleftrightarrow> length fs \<le> maxForwardingIntents \<and> (\<forall>f \<in> set fs. fw_ok (ifZone ` set ns) f) \<and> distinct (map fw_pair fs)"
    define P where "P \<longleftrightarrow> 0 < length ps \<and> length ps \<le> maxProbesPerPlan \<and> (\<forall>p \<in> set ps. pr_ok (set ns) p) \<and> distinct (map prID ps)"
    have c: "canonicalInterfaces (crInterfaces req) = Inr (is, b) \<longleftrightarrow>
        C \<and> is = sort_key ifInterfaceID ns \<and> b = map (\<lambda>i. (ifInterfaceID i, i)) ns" for "is" b
      unfolding canonicalInterfaces_iff Let_def assms(1)[symmetric] C_def by blast
    have f: "canonicalForwarding (crForwarding req) (map (\<lambda>i. (ifInterfaceID i, i)) ns) = Inr fw \<longleftrightarrow> F \<and> fw = sort_key fw_pair fs" for fw
      unfolding canonicalForwarding_iff Let_def assms(2)[symmetric] F_def by blast
    have p: "canonicalProbes (crProbes req) (map (\<lambda>i. (ifInterfaceID i, i)) ns) = Inr pr \<longleftrightarrow> P \<and> pr = sort_key prID ps" if C for pr
      using canonicalProbes_iff[of ns "crProbes req" pr] that unfolding Let_def assms(3)[symmetric] P_def C_def by blast
    have v: "validateProbeCoverage (sort_key ifInterfaceID ns) (sort_key prID ps) = Inr () \<longleftrightarrow>
        (\<forall>i \<in> set ns. ifChanged i \<longrightarrow> ifInterfaceID i \<in> prInterfaceID ` set ps) \<and> (\<exists>p \<in> set ps. management_probe p)"
      unfolding validateProbeCoverage_iff set_sort by (rule refl)
    have parts: "parts_ok ns fs ps \<longleftrightarrow> C \<and> F \<and> P \<and> validateProbeCoverage (sort_key ifInterfaceID ns) (sort_key prID ps) = Inr ()"
      unfolding parts_ok_def v C_def F_def P_def by blast
    show ?thesis
      unfolding parts c using f p by (cases C) auto
  qed
  ultimately show ?thesis by presburger
qed

definition slice_list :: "'a list option \<Rightarrow> 'a list" where
  "slice_list s = (case s of None \<Rightarrow> [] | Some xs \<Rightarrow> xs)"

lemma new_plan_sels [simp]:
  "cpNodeID (new_plan n r is fs ps t) = n" "cpRevisionID (new_plan n r is fs ps t) = r"
  "cpInterfaces (new_plan n r is fs ps t) = is" "slice_list (cpForwarding (new_plan n r is fs ps t)) = fs"
  "cpProbes (new_plan n r is fs ps t) = ps" "cpTimeouts (new_plan n r is fs ps t) = t"
  "cpForwardingDefaultDeny (new_plan n r is fs ps t)"
  by (simp_all add: new_plan_def Let_def slice_list_def)

text \<open>The request \<^verbatim>\<open>NewChangeMachine\<close> rebuilds a plan from.\<close>

definition plan_request :: "ChangePlan \<Rightarrow> ChangePlanRequest" where
  "plan_request plan = \<lparr>crNodeID = cpNodeID plan, crRevisionID = cpRevisionID plan, crInterfaces = cpInterfaces plan,
     crForwarding = slice_list (cpForwarding plan), crProbes = cpProbes plan, crTimeouts = cpTimeouts plan\<rparr>"

lemma norm_fixed:
  "if_ok (norm_if i) \<Longrightarrow> norm_if (norm_if i) = norm_if i"
  "fw_ok zs (norm_fw f) \<Longrightarrow> norm_fw (norm_fw f) = norm_fw f"
  "pr_ok ifs (norm_pr p) \<Longrightarrow> (\<And>i. i \<in> ifs \<Longrightarrow> if_ok i) \<Longrightarrow> norm_pr (norm_pr p) = norm_pr p"
proof -
  show "if_ok (norm_if i) \<Longrightarrow> norm_if (norm_if i) = norm_if i"
    using zone_text by (simp add: if_ok_def norm_if_def)
  show "fw_ok zs (norm_fw f) \<Longrightarrow> norm_fw (norm_fw f) = norm_fw f"
    using zone_text by (auto simp: fw_ok_def norm_fw_def AuthorizeForwarding_def split: if_splits)
  assume p: "pr_ok ifs (norm_pr p)" and ifs: "\<And>i. i \<in> ifs \<Longrightarrow> if_ok i"
  have "Zone_Valid (prZone (norm_pr p))" using p ifs unfolding pr_ok_def if_ok_def by metis
  then show "norm_pr (norm_pr p) = norm_pr p" using zone_text by (simp add: norm_pr_def)
qed

lemma build_fixpoint:
  assumes "BuildChangePlan req = Inr plan"
  shows "BuildChangePlan (plan_request plan) = Inr plan"
proof -
  let ?ns = "map norm_if (crInterfaces req)" and ?fs = "map norm_fw (crForwarding req)" and ?ps = "map norm_pr (crProbes req)"
  let ?is = "sort_key ifInterfaceID ?ns" and ?fw = "sort_key fw_pair ?fs" and ?pr = "sort_key prID ?ps"
  have b: "identifierPattern (TrimSpace (crNodeID req))" "identifierPattern (TrimSpace (crRevisionID req))"
      "validateTimeouts (crTimeouts req) = Inr ()" "parts_ok ?ns ?fs ?ps"
      "plan = new_plan (TrimSpace (crNodeID req)) (TrimSpace (crRevisionID req)) ?is ?fw ?pr (crTimeouts req)"
    using BuildChangePlan_iff[OF refl refl refl, THEN iffD1, OF assms] by blast+
  have r: "plan_request plan = \<lparr>crNodeID = TrimSpace (crNodeID req), crRevisionID = TrimSpace (crRevisionID req),
      crInterfaces = ?is, crForwarding = ?fw, crProbes = ?pr, crTimeouts = crTimeouts req\<rparr>"
    by (simp add: b(5) plan_request_def)
  have ok: "\<And>i. i \<in> set ?ns \<Longrightarrow> if_ok i" "\<And>f. f \<in> set ?fs \<Longrightarrow> fw_ok (ifZone ` set ?ns) f" "\<And>p. p \<in> set ?ps \<Longrightarrow> pr_ok (set ?ns) p"
    using b(4) unfolding parts_ok_def by blast+
  have "map norm_if ?is = ?is" "map norm_fw ?fw = ?fw" "map norm_pr ?pr = ?pr"
  proof -
    show "map norm_if ?is = ?is" using ok(1) norm_fixed(1) by (intro map_idI) auto
    show "map norm_fw ?fw = ?fw" using ok(2) norm_fixed(2) by (intro map_idI) fastforce
    show "map norm_pr ?pr = ?pr" using ok(3) norm_fixed(3)[OF _ ok(1)] by (intro map_idI) fastforce
  qed
  moreover have "sort_key ifInterfaceID ?is = ?is" "sort_key fw_pair ?fw = ?fw" "sort_key prID ?pr = ?pr"
    by (simp_all add: sort_key_id_if_sorted)
  moreover have "parts_ok ?is ?fw ?pr" using b(4) parts_ok_sort by blast
  ultimately show ?thesis
    using b BuildChangePlan_iff[of ?is "plan_request plan" ?fw ?pr plan] unfolding r by simp
qed

subsection \<open>Every plan is safe\<close>

text \<open>
  A plan the builder returns is safe. Forwarding is denied by default, and every admitted intent
  stays in its zone or is explicitly enabled and, when it touches the WAN, has an edge gateway. Every
  changed interface has a probe, every probe is bound to a declared interface and its zone, one
  control-plane probe watches the management path, and all phases are bounded by 15 minutes with the
  probes inside the apply window.
\<close>

lemma change_plan_safe:
  assumes "BuildChangePlan req = Inr plan"
  shows "cpForwardingDefaultDeny plan
    \<and> (\<forall>f \<in> set (slice_list (cpForwarding plan)). fwSource f = fwDestination f
         \<or> fwExplicitlyEnabled f \<and> (ZoneWAN \<in> {fwSource f, fwDestination f} \<longrightarrow> fwEdgeGatewayAssigned f))
    \<and> (\<forall>i \<in> set (cpInterfaces plan). ifChanged i \<longrightarrow> (\<exists>p \<in> set (cpProbes plan). prInterfaceID p = ifInterfaceID i))
    \<and> (\<forall>p \<in> set (cpProbes plan). \<exists>i \<in> set (cpInterfaces plan). ifInterfaceID i = prInterfaceID p \<and> ifZone i = prZone p)
    \<and> (\<exists>p \<in> set (cpProbes plan). prKind p = ProbeControlPlane \<and> prZone p \<in> {ZoneManagement, ZoneLAN})
    \<and> (\<exists>i \<in> set (cpInterfaces plan). ifChanged i)
    \<and> (\<forall>d \<in> {toSnapshot (cpTimeouts plan), toPreflight (cpTimeouts plan), toApplyWindow (cpTimeouts plan),
          toProbe (cpTimeouts plan), toRollback (cpTimeouts plan)}. 0 < d \<and> d \<le> 15 * minute)
    \<and> toProbe (cpTimeouts plan) \<le> toApplyWindow (cpTimeouts plan)"
proof -
  let ?ns = "map norm_if (crInterfaces req)" and ?fs = "map norm_fw (crForwarding req)" and ?ps = "map norm_pr (crProbes req)"
  have b: "validateTimeouts (crTimeouts req) = Inr ()" "parts_ok ?ns ?fs ?ps"
      "plan = new_plan (TrimSpace (crNodeID req)) (TrimSpace (crRevisionID req)) (sort_key ifInterfaceID ?ns)
         (sort_key fw_pair ?fs) (sort_key prID ?ps) (crTimeouts req)"
    using BuildChangePlan_iff[OF refl refl refl, THEN iffD1, OF assms] by blast+
  have sel: "cpForwardingDefaultDeny plan" "set (slice_list (cpForwarding plan)) = set ?fs" "set (cpInterfaces plan) = set ?ns"
      "set (cpProbes plan) = set ?ps" "cpTimeouts plan = crTimeouts req"
    by (simp_all add: b(3))
  have t: "0 < d \<and> d \<le> 15 * minute" if "d \<in> {toSnapshot (cpTimeouts plan), toPreflight (cpTimeouts plan),
        toApplyWindow (cpTimeouts plan), toProbe (cpTimeouts plan), toRollback (cpTimeouts plan)}" for d
    using b(1) that by (auto simp: sel(5) validateTimeouts_def maxPhaseTimeout_def)
  have "toProbe (cpTimeouts plan) \<le> toApplyWindow (cpTimeouts plan)" using b(1) by (simp add: sel(5) validateTimeouts_def)
  moreover have "fwSource f = fwDestination f \<or> fwExplicitlyEnabled f \<and> (ZoneWAN \<in> {fwSource f, fwDestination f} \<longrightarrow> fwEdgeGatewayAssigned f)"
    if "f \<in> set ?fs" for f
  proof -
    have "fw_ok (ifZone ` set ?ns) f" using b(2) that unfolding parts_ok_def by blast
    then show ?thesis by (auto simp: fw_ok_def AuthorizeForwarding_def split: if_splits)
  qed
  moreover have "\<exists>p \<in> set ?ps. prInterfaceID p = ifInterfaceID i" if "i \<in> set ?ns" "ifChanged i" for i
  proof -
    have "ifInterfaceID i \<in> prInterfaceID ` set ?ps" using b(2) that unfolding parts_ok_def by blast
    then show ?thesis by force
  qed
  moreover have "\<exists>i \<in> set ?ns. ifInterfaceID i = prInterfaceID p \<and> ifZone i = prZone p" if "p \<in> set ?ps" for p
    using b(2) that unfolding parts_ok_def pr_ok_def by blast
  moreover have "\<exists>p \<in> set ?ps. prKind p = ProbeControlPlane \<and> prZone p \<in> {ZoneManagement, ZoneLAN}" "\<exists>i \<in> set ?ns. ifChanged i"
    using b(2) unfolding parts_ok_def management_probe_def by blast+
  ultimately show ?thesis using sel(1) t unfolding sel(2-4) by (intro conjI ballI impI) auto
qed


definition n_interface :: InterfaceIntent where
  "n_interface = \<lparr>ifInterfaceID = ''e'', ifZone = ZoneManagement, ifChanged = True\<rparr>"

definition n_probe :: ConnectivityProbe where
  "n_probe = \<lparr>prID = ''p'', prKind = ProbeControlPlane, prInterfaceID = ''e'', prZone = ZoneManagement\<rparr>"

definition n_timeouts :: TimeoutPolicy where
  "n_timeouts = \<lparr>toSnapshot = 10, toPreflight = 10, toApplyWindow = 10, toProbe = 5, toRollback = 10\<rparr>"

definition n_request :: ChangePlanRequest where
  "n_request = \<lparr>crNodeID = ''n'', crRevisionID = ''r'', crInterfaces = [n_interface], crForwarding = [],
     crProbes = [n_probe], crTimeouts = n_timeouts\<rparr>"

definition n_plan :: ChangePlan where
  "n_plan = new_plan ''n'' ''r'' [n_interface] [] [n_probe] n_timeouts"

lemma n_text: "list_all (\<lambda>s. TrimSpace s = s \<and> identifierPattern s) [''e'', ''p'', ''n'', ''r'', ''s'', ''t'', ''u'', ''v'']"
  by code_simp

lemma n_plan_built: "BuildChangePlan n_request = Inr n_plan"
proof -
  have z: "Zone_Valid ZoneManagement" by (simp add: Zone_Valid_def)
  have norm: "norm_if n_interface = n_interface" "norm_pr n_probe = n_probe"
    using n_text zone_text[OF z] by (simp_all add: norm_if_def norm_pr_def n_interface_def n_probe_def)
  have "parts_ok [n_interface] [] [n_probe]"
    using n_text z
    by (simp add: parts_ok_def if_ok_def pr_ok_def n_interface_def n_probe_def management_probe_def ProbeKind_valid_def
        maxInterfacesPerPlan_def maxProbesPerPlan_def)
  moreover have "validateTimeouts n_timeouts = Inr ()"
    by (simp add: validateTimeouts_def n_timeouts_def maxPhaseTimeout_def duration_units)
  ultimately show ?thesis
    using n_text norm BuildChangePlan_iff[OF refl refl refl, of n_request n_plan] by (simp add: n_request_def n_plan_def)
qed

end
