(* ===== verification/Network_Change.thy ===== *)
theory Network_Change
  imports Network_Plan
begin

text \<open>
  Package \<^verbatim>\<open>internal/networkpolicy\<close>, file \<^verbatim>\<open>change_machine.go\<close>: the state machine that takes a network
  change plan through snapshot, preflight, temporary application and probes to commit or rollback. The
  mutex makes \<^verbatim>\<open>Apply\<close> atomic, so it is one function of the machine; the set \<^verbatim>\<open>passed\<close> is a list without
  repetitions, latest first. Histories are the sequences of accepted events.
\<close>

subsection \<open>Machine\<close>

datatype machine_error =
    MachinePlan network_error
  | MachineMsg string
  | ErrInvalidChangeTransition string
  | ErrChangeVersionConflict
  | ErrEventIdempotencyConflict

datatype ChangeState =
    ChangeStateSnapshotPending | ChangeStatePreflight | ChangeStateApplyWindow | ChangeStateProbing
  | ChangeStateRollbackPending | ChangeStateCommitted | ChangeStateRolledBack | ChangeStateFailedClosed

definition ChangeState_Terminal :: "ChangeState \<Rightarrow> bool" where
  "ChangeState_Terminal s \<longleftrightarrow> s = ChangeStateCommitted \<or> s = ChangeStateRolledBack \<or> s = ChangeStateFailedClosed"

datatype ChangeEventType =
    EventSnapshotCaptured | EventSnapshotFailed | EventPreflightPassed | EventPreflightFailed
  | EventTemporaryApplied | EventProbePassed | EventProbeFailed | EventPhaseTimedOut
  | EventRollbackSucceeded | EventRollbackFailed | EventUnknown string

record ChangeEvent =
  ceID :: string
  ceType :: ChangeEventType
  ceSnapshotID :: string
  ceProbeID :: string
  ceReasonCode :: string
  ceAt :: "time"

record ChangeSnapshot =
  chPlanID :: string
  chSnapshotID :: string
  chState :: ChangeState
  chVersion :: uint64
  chDeadline :: "time"
  chPassedProbeIDs :: "string list"
  chReasonCode :: string
  chUpdatedAt :: "time"

record ChangeMachine =
  cmPlan :: ChangePlan
  cmSnapshot :: ChangeSnapshot
  cmPassed :: "string list"
  cmProcessed :: "(string \<times> string) list"

definition NewChangeMachine :: "ChangePlan \<Rightarrow> time \<Rightarrow> machine_error + ChangeMachine" where
  "NewChangeMachine plan now =
     (if IsZero now then Inl (MachineMsg ''network change start time is required'')
      else if BuildChangePlan (plan_request plan) \<noteq> Inr plan
        then Inl (MachinePlan (ErrInvalidChangePlan ''plan integrity check failed''))
      else Inr \<lparr>cmPlan = plan,
        cmSnapshot = \<lparr>chPlanID = cpPlanID plan, chSnapshotID = [], chState = ChangeStateSnapshotPending, chVersion = 1,
          chDeadline = time_Add (time_UTC now) (toSnapshot (cpTimeouts plan)), chPassedProbeIDs = [], chReasonCode = [],
          chUpdatedAt = time_UTC now\<rparr>,
        cmPassed = [], cmProcessed = []\<rparr>)"

definition hasProbe :: "ChangeMachine \<Rightarrow> string \<Rightarrow> bool" where
  "hasProbe m i \<longleftrightarrow> list_ex (\<lambda>p. prID p = i) (cpProbes (cmPlan m))"

definition copySnapshot :: "ChangeMachine \<Rightarrow> ChangeSnapshot" where
  "copySnapshot m = (cmSnapshot m)\<lparr>chPassedProbeIDs := filter (\<lambda>i. i \<in> set (cmPassed m)) (map prID (cpProbes (cmPlan m)))\<rparr>"

definition eventDetail :: "ChangeEvent \<Rightarrow> string \<Rightarrow> string" where
  "eventDetail e fallback = (if ceReasonCode e \<noteq> [] then ceReasonCode e else fallback)"

definition enter :: "ChangeState \<Rightarrow> time \<Rightarrow> duration \<Rightarrow> string \<Rightarrow> ChangeMachine \<Rightarrow> ChangeMachine" where
  "enter s at timeout reason m = m\<lparr>cmSnapshot := (cmSnapshot m)\<lparr>chState := s, chReasonCode := reason,
     chDeadline := (if timeout > 0 then time_Add at timeout else 0)\<rparr>\<rparr>"

text \<open>\<^verbatim>\<open>transition\<close>: one equation per case of the outer switch, all other events refused in it.\<close>

definition transition :: "ChangeEvent \<Rightarrow> ChangeMachine \<Rightarrow> machine_error + ChangeMachine" where
  "transition e m =
     (let sn = cmSnapshot m; t = cpTimeouts (cmPlan m);
          invalidEvent = Inl (ErrInvalidChangeTransition ''event from state'')
      in case chState sn of
        ChangeStateSnapshotPending \<Rightarrow>
          (if ceType e = EventSnapshotCaptured then
             Inr (enter ChangeStatePreflight (ceAt e) (toPreflight t) [] (m\<lparr>cmSnapshot := sn\<lparr>chSnapshotID := ceSnapshotID e\<rparr>\<rparr>))
           else if ceType e = EventSnapshotFailed \<or> ceType e = EventPhaseTimedOut then
             Inr (enter ChangeStateFailedClosed (ceAt e) 0 (eventDetail e ''snapshot_not_available'') m)
           else invalidEvent)
      | ChangeStatePreflight \<Rightarrow>
          (if ceType e = EventPreflightPassed then
             Inr (enter ChangeStateApplyWindow (ceAt e) (toApplyWindow t) [] m)
           else if ceType e = EventPreflightFailed \<or> ceType e = EventPhaseTimedOut then
             Inr (enter ChangeStateFailedClosed (ceAt e) 0 (eventDetail e ''preflight_not_safe'') m)
           else invalidEvent)
      | ChangeStateApplyWindow \<Rightarrow>
          (if ceType e = EventTemporaryApplied then
             (let d = time_Add (ceAt e) (toProbe t); deadline = (if d > chDeadline sn then chDeadline sn else d) in
              Inr (m\<lparr>cmSnapshot := sn\<lparr>chState := ChangeStateProbing, chDeadline := deadline, chReasonCode := []\<rparr>\<rparr>))
           else if ceType e = EventPhaseTimedOut then
             Inr (enter ChangeStateRollbackPending (ceAt e) (toRollback t) (eventDetail e ''apply_window_timeout'') m)
           else invalidEvent)
      | ChangeStateProbing \<Rightarrow>
          (if ceType e = EventProbePassed then
             (if \<not> hasProbe m (ceProbeID e) then Inl (ErrInvalidChangeTransition ''unknown probe'')
              else if ceProbeID e \<in> set (cmPassed m) then Inl (ErrInvalidChangeTransition ''probe already passed'')
              else
                let m' = m\<lparr>cmPassed := ceProbeID e # cmPassed m\<rparr> in
                if length (cmPassed m') = length (cpProbes (cmPlan m))
                then Inr (enter ChangeStateCommitted (ceAt e) 0 [] m') else Inr m')
           else if ceType e = EventProbeFailed \<or> ceType e = EventPhaseTimedOut then
             (if ceType e = EventProbeFailed \<and> \<not> hasProbe m (ceProbeID e)
              then Inl (ErrInvalidChangeTransition ''unknown probe'')
              else Inr (enter ChangeStateRollbackPending (ceAt e) (toRollback t)
                (eventDetail e ''connectivity_validation_failed'') m))
           else invalidEvent)
      | ChangeStateRollbackPending \<Rightarrow>
          (if ceType e = EventRollbackSucceeded then
             Inr (enter ChangeStateRolledBack (ceAt e) 0 (chReasonCode sn) m)
           else if ceType e = EventRollbackFailed \<or> ceType e = EventPhaseTimedOut then
             Inr (enter ChangeStateFailedClosed (ceAt e) 0 (eventDetail e ''rollback_not_confirmed'') m)
           else invalidEvent)
      | _ \<Rightarrow> Inl (ErrInvalidChangeTransition ''state''))"

definition validateCanonicalEventIdentifier :: "string \<Rightarrow> string \<Rightarrow> machine_error + unit" where
  "validateCanonicalEventIdentifier name v =
     (case normalizeIdentifier name v of
        Inl e \<Rightarrow> Inl (MachinePlan e)
      | Inr normalized \<Rightarrow>
          if normalized \<noteq> v
          then Inl (MachinePlan (ErrInvalidChangePlan (name @ '' must be canonical without surrounding whitespace'')))
          else Inr ())"

definition event_type_text :: "ChangeEventType \<Rightarrow> string" where
  "event_type_text t = (case t of
       EventSnapshotCaptured \<Rightarrow> ''snapshot_captured'' | EventSnapshotFailed \<Rightarrow> ''snapshot_failed''
     | EventPreflightPassed \<Rightarrow> ''preflight_passed'' | EventPreflightFailed \<Rightarrow> ''preflight_failed''
     | EventTemporaryApplied \<Rightarrow> ''temporary_applied'' | EventProbePassed \<Rightarrow> ''probe_passed''
     | EventProbeFailed \<Rightarrow> ''probe_failed'' | EventPhaseTimedOut \<Rightarrow> ''phase_timed_out''
     | EventRollbackSucceeded \<Rightarrow> ''rollback_succeeded'' | EventRollbackFailed \<Rightarrow> ''rollback_failed''
     | EventUnknown s \<Rightarrow> s)"

definition event_failure :: "ChangeEventType \<Rightarrow> bool" where
  "event_failure t \<longleftrightarrow> t = EventSnapshotFailed \<or> t = EventPreflightFailed \<or> t = EventProbeFailed
     \<or> t = EventPhaseTimedOut \<or> t = EventRollbackFailed"

definition event_document :: "ChangeEvent \<Rightarrow> string option" where
  "event_document e = map_option (\<lambda>at. json_Marshal (JObject
     ([(''id'', JString (ceID e)), (''type'', JString (event_type_text (ceType e)))]
      @ (if ceSnapshotID e = [] then [] else [(''snapshot_id'', JString (ceSnapshotID e))])
      @ (if ceProbeID e = [] then [] else [(''probe_id'', JString (ceProbeID e))])
      @ (if ceReasonCode e = [] then [] else [(''reason_code'', JString (ceReasonCode e))])
      @ [(''at'', JString at)]))) (time_RFC3339 (time_UTC (ceAt e)))"

definition validate_event :: "ChangeEvent \<Rightarrow> machine_error + unit" where
  "validate_event e = first_error
     [validateCanonicalEventIdentifier ''event.id'' (ceID e),
      require (\<not> IsZero (ceAt e)) (MachineMsg ''network change event time is required''),
      (if ceReasonCode e \<noteq> [] then validateCanonicalEventIdentifier ''event.reason_code'' (ceReasonCode e) else Inr ()),
      (if ceProbeID e \<noteq> [] then validateCanonicalEventIdentifier ''event.probe_id'' (ceProbeID e) else Inr ()),
      require ((ceType e = EventProbePassed \<or> ceType e = EventProbeFailed) = (ceProbeID e \<noteq> []))
        (MachineMsg ''probe events require probe_id and other events forbid it''),
      (if ceType e = EventSnapshotCaptured then validateCanonicalEventIdentifier ''event.snapshot_id'' (ceSnapshotID e)
       else require (ceSnapshotID e = []) (MachineMsg ''only snapshot_captured events may contain snapshot_id'')),
      require (\<not> (ceReasonCode e \<noteq> [] \<and> \<not> event_failure (ceType e)))
        (MachineMsg ''successful network change events must not contain reason_code''),
      require (case ceType e of EventUnknown _ \<Rightarrow> False | _ \<Rightarrow> True) (MachineMsg ''unknown network change event'')]"

definition validateAndDigestEvent :: "ChangeEvent \<Rightarrow> machine_error + string" where
  "validateAndDigestEvent e =
     (case validate_event e of Inl err \<Rightarrow> Inl err
      | Inr _ \<Rightarrow>
     (case event_document e of None \<Rightarrow> Inl (MachineMsg ''Time.MarshalJSON: year outside of range [0,9999]'')
      | Some document \<Rightarrow> Inr (sha256_hex document)))"

text \<open>The guards of \<^verbatim>\<open>Apply\<close> after the idempotency check.\<close>

definition apply_guards :: "ChangeEvent \<Rightarrow> uint64 \<Rightarrow> ChangeMachine \<Rightarrow> machine_error + unit" where
  "apply_guards e expectedVersion m = first_error
     [require (chVersion (cmSnapshot m) = expectedVersion) ErrChangeVersionConflict,
      require (\<not> ChangeState_Terminal (chState (cmSnapshot m))) (ErrInvalidChangeTransition ''terminal state''),
      require (\<not> time_UTC (ceAt e) < chUpdatedAt (cmSnapshot m))
        (ErrInvalidChangeTransition ''event time precedes current state''),
      require (\<not> (ceType e = EventPhaseTimedOut \<and> ceAt e < chDeadline (cmSnapshot m)))
        (ErrInvalidChangeTransition ''phase deadline has not elapsed''),
      require (\<not> (ceType e \<noteq> EventPhaseTimedOut \<and> ceAt e > chDeadline (cmSnapshot m)))
        (ErrInvalidChangeTransition ''phase deadline exceeded; phase_timed_out event required'')]"

definition Apply :: "ChangeEvent \<Rightarrow> uint64 \<Rightarrow> ChangeMachine \<Rightarrow> ChangeMachine \<times> ChangeSnapshot \<times> machine_error option" where
  "Apply e expectedVersion m =
     (let unchanged = (\<lambda>err. (m, copySnapshot m, err)) in
      case validateAndDigestEvent e of Inl err \<Rightarrow> unchanged (Some err)
      | Inr digest \<Rightarrow>
     (case gget (cmProcessed m) (ceID e) of
        Some previous \<Rightarrow> unchanged (if previous \<noteq> digest then Some ErrEventIdempotencyConflict else None)
      | None \<Rightarrow>
     (case apply_guards e expectedVersion m of Inl err \<Rightarrow> unchanged (Some err)
      | Inr _ \<Rightarrow>
     (case transition e m of Inl err \<Rightarrow> unchanged (Some err)
      | Inr m1 \<Rightarrow>
          let m2 = m1\<lparr>cmProcessed := gput (ceID e) digest (cmProcessed m1),
                cmSnapshot := (cmSnapshot m1)\<lparr>chVersion := chVersion (cmSnapshot m1) + 1, chUpdatedAt := ceAt e\<rparr>\<rparr>
          in (m2, copySnapshot m2, None)))))"

subsection \<open>Accepted events\<close>

text \<open>\<open>accepted e v m\<close> is the machine after \<^verbatim>\<open>Apply\<close> took a new event; a replayed or refused one changes nothing.\<close>

definition accepted :: "ChangeMachine \<Rightarrow> ChangeEvent \<Rightarrow> uint64 \<Rightarrow> ChangeMachine option" where
  "accepted m e v = (case Apply e v m of
       (m', s, None) \<Rightarrow> if gget (cmProcessed m) (ceID e) = None then Some m' else None
     | (m', s, Some err) \<Rightarrow> None)"

definition after :: "ChangeEvent \<Rightarrow> string \<Rightarrow> ChangeMachine \<Rightarrow> ChangeMachine" where
  "after e digest m1 = m1\<lparr>cmProcessed := gput (ceID e) digest (cmProcessed m1),
     cmSnapshot := (cmSnapshot m1)\<lparr>chVersion := chVersion (cmSnapshot m1) + 1, chUpdatedAt := ceAt e\<rparr>\<rparr>"

lemma Apply_eq:
  "Apply e v m = (m', s, r) \<longleftrightarrow>
     (case validateAndDigestEvent e of Inl err \<Rightarrow> (m', s, r) = (m, copySnapshot m, Some err)
      | Inr digest \<Rightarrow>
     (case gget (cmProcessed m) (ceID e) of
        Some previous \<Rightarrow> (m', s, r) = (m, copySnapshot m, if previous \<noteq> digest then Some ErrEventIdempotencyConflict else None)
      | None \<Rightarrow>
     (case apply_guards e v m of Inl err \<Rightarrow> (m', s, r) = (m, copySnapshot m, Some err)
      | Inr _ \<Rightarrow>
     (case transition e m of Inl err \<Rightarrow> (m', s, r) = (m, copySnapshot m, Some err)
      | Inr m1 \<Rightarrow> (m', s, r) = (after e digest m1, copySnapshot (after e digest m1), None)))))"
  unfolding Apply_def Let_def after_def[symmetric]
  by (cases "validateAndDigestEvent e"; cases "gget (cmProcessed m) (ceID e)"; cases "apply_guards e v m"; cases "transition e m")
    auto

lemma accepted_iff:
  "accepted m e v = Some m' \<longleftrightarrow> gget (cmProcessed m) (ceID e) = None \<and> apply_guards e v m = Inr ()
     \<and> (\<exists>digest m1. validateAndDigestEvent e = Inr digest \<and> transition e m = Inr m1 \<and> m' = after e digest m1)"
proof -
  have "accepted m e v = Some m' \<longleftrightarrow> gget (cmProcessed m) (ceID e) = None \<and> (\<exists>s. Apply e v m = (m', s, None))"
    by (auto simp: accepted_def split: prod.splits option.splits)
  then show ?thesis unfolding Apply_eq
    by (cases "validateAndDigestEvent e"; cases "gget (cmProcessed m) (ceID e)"; cases "apply_guards e v m"; cases "transition e m")
      auto
qed

text \<open>Whatever \<^verbatim>\<open>Apply\<close> does, it accepts the event or leaves the machine as it was.\<close>

lemma Apply_step: "Apply e v m = (m', s, r) \<Longrightarrow> m' = m \<or> accepted m e v = Some m'"
  unfolding Apply_eq accepted_iff
  by (cases "validateAndDigestEvent e"; cases "gget (cmProcessed m) (ceID e)"; cases "apply_guards e v m"; cases "transition e m")
    auto

lemma transition_version: "transition e m = Inr m1 \<Longrightarrow> chVersion (cmSnapshot m1) = chVersion (cmSnapshot m)"
  by (auto simp: transition_def enter_def Let_def split: ChangeState.splits if_splits)

lemma transition_kept: "transition e m = Inr m1 \<Longrightarrow> cmPlan m1 = cmPlan m \<and> cmProcessed m1 = cmProcessed m"
  by (auto simp: transition_def enter_def Let_def split: ChangeState.splits if_splits)

lemma apply_guards_iff:
  "apply_guards e v m = Inr () \<longleftrightarrow> chVersion (cmSnapshot m) = v \<and> \<not> ChangeState_Terminal (chState (cmSnapshot m))
     \<and> chUpdatedAt (cmSnapshot m) \<le> ceAt e \<and> (ceType e = EventPhaseTimedOut \<longrightarrow> chDeadline (cmSnapshot m) \<le> ceAt e)
     \<and> (ceType e \<noteq> EventPhaseTimedOut \<longrightarrow> ceAt e \<le> chDeadline (cmSnapshot m))"
  by (auto simp: apply_guards_def)

interpretation net: versioned_object "\<lambda>m. chVersion (cmSnapshot m)" accepted
proof
  show "chVersion (cmSnapshot s) = v" if "accepted s c v = Some t" for s c v t
    using that by (simp add: accepted_iff apply_guards_iff)
  show "chVersion (cmSnapshot t) = v + 1" if "accepted s c v = Some t" for s c v t
    using that by (auto simp: accepted_iff apply_guards_iff after_def transition_version)
qed

subsection \<open>Histories\<close>

inductive change_history :: "ChangePlan \<Rightarrow> ChangeEvent list \<Rightarrow> ChangeMachine \<Rightarrow> bool" where
  started: "NewChangeMachine plan now = Inr m \<Longrightarrow> change_history plan [] m"
| applied: "change_history plan h m \<Longrightarrow> accepted m e v = Some m' \<Longrightarrow> change_history plan (h @ [e]) m'"

text \<open>What an event says, and the sequences that belong to each state of the machine; \<open>ps\<close> are the probes passed, latest first.\<close>

type_synonym mark = "ChangeEventType \<times> string"

definition mark :: "ChangeEvent \<Rightarrow> mark" where
  "mark e = (ceType e, ceProbeID e)"

definition probing_trace :: "string list \<Rightarrow> mark list" where
  "probing_trace ps = [(EventSnapshotCaptured, []), (EventPreflightPassed, []), (EventTemporaryApplied, [])]
     @ map (Pair EventProbePassed) (rev ps)"

definition rollback_trace :: "string set \<Rightarrow> string list \<Rightarrow> mark list \<Rightarrow> bool" where
  "rollback_trace ids ps ts \<longleftrightarrow>
     ps = [] \<and> ts = [(EventSnapshotCaptured, []), (EventPreflightPassed, []), (EventPhaseTimedOut, [])]
   \<or> (\<exists>x. ts = probing_trace ps @ [x] \<and> distinct ps \<and> set ps \<subset> ids
        \<and> (x = (EventPhaseTimedOut, []) \<or> fst x = EventProbeFailed \<and> snd x \<in> ids))"

fun trace_ok :: "string set \<Rightarrow> string list \<Rightarrow> ChangeState \<Rightarrow> mark list \<Rightarrow> bool" where
  "trace_ok ids ps ChangeStateSnapshotPending ts \<longleftrightarrow> ts = [] \<and> ps = []"
| "trace_ok ids ps ChangeStatePreflight ts \<longleftrightarrow> ts = [(EventSnapshotCaptured, [])] \<and> ps = []"
| "trace_ok ids ps ChangeStateApplyWindow ts \<longleftrightarrow>
     ts = [(EventSnapshotCaptured, []), (EventPreflightPassed, [])] \<and> ps = []"
| "trace_ok ids ps ChangeStateProbing ts \<longleftrightarrow> ts = probing_trace ps \<and> distinct ps \<and> set ps \<subset> ids"
| "trace_ok ids ps ChangeStateCommitted ts \<longleftrightarrow> ts = probing_trace ps \<and> distinct ps \<and> set ps = ids"
| "trace_ok ids ps ChangeStateRollbackPending ts \<longleftrightarrow> rollback_trace ids ps ts"
| "trace_ok ids ps ChangeStateRolledBack ts \<longleftrightarrow>
     (\<exists>ts'. ts = ts' @ [(EventRollbackSucceeded, [])] \<and> rollback_trace ids ps ts')"
| "trace_ok ids ps ChangeStateFailedClosed ts \<longleftrightarrow>
     ts = [(EventSnapshotFailed, [])] \<or> ts = [(EventPhaseTimedOut, [])]
   \<or> ts = [(EventSnapshotCaptured, []), (EventPreflightFailed, [])] \<or> ts = [(EventSnapshotCaptured, []), (EventPhaseTimedOut, [])]
   \<or> (\<exists>ts' x. ts = ts' @ [x] \<and> rollback_trace ids ps ts' \<and> (x = (EventRollbackFailed, []) \<or> x = (EventPhaseTimedOut, [])))"

lemma event_marks:
  assumes "validateAndDigestEvent e = Inr d"
  shows "(ceType e = EventProbePassed \<or> ceType e = EventProbeFailed) \<longleftrightarrow> ceProbeID e \<noteq> []"
proof -
  have "validate_event e = Inr ()" using assms by (auto simp: validateAndDigestEvent_def split: sum.splits)
  then show ?thesis by (simp add: validate_event_def)
qed

abbreviation probe_ids :: "ChangePlan \<Rightarrow> string set" where
  "probe_ids plan \<equiv> set (map prID (cpProbes plan))"

lemma transition_trace:
  assumes "transition e m = Inr m1" "trace_ok ids (cmPassed m) (chState (cmSnapshot m)) ts"
    and "ids = probe_ids (cmPlan m)" "distinct (map prID (cpProbes (cmPlan m)))" "ids \<noteq> {}"
    and mark: "(ceType e = EventProbePassed \<or> ceType e = EventProbeFailed) \<longleftrightarrow> ceProbeID e \<noteq> []"
  shows "trace_ok ids (cmPassed m1) (chState (cmSnapshot m1)) (ts @ [mark e])"
proof (cases "chState (cmSnapshot m)")
  case ChangeStateProbing
  have card: "card ids = length (cpProbes (cmPlan m))" using assms(3,4) by (metis distinct_card length_map)
  have has: "hasProbe m i \<longleftrightarrow> i \<in> ids" for i using assms(3) by (auto simp: hasProbe_def list_ex_iff)
  have p: "ts = probing_trace (cmPassed m)" "distinct (cmPassed m)" "set (cmPassed m) \<subset> ids"
    using assms(2) ChangeStateProbing by simp_all
  show ?thesis
  proof (cases "ceType e = EventProbePassed")
    case True
    then have new: "ceProbeID e \<in> ids" "ceProbeID e \<notin> set (cmPassed m)"
      using assms(1) ChangeStateProbing has by (auto simp: transition_def Let_def split: if_splits)
    have tr: "ts @ [mark e] = probing_trace (ceProbeID e # cmPassed m)" "distinct (ceProbeID e # cmPassed m)"
        "set (ceProbeID e # cmPassed m) \<subseteq> ids"
      using p new True by (auto simp: probing_trace_def mark_def)
    have "length (ceProbeID e # cmPassed m) = card ids \<longleftrightarrow> set (ceProbeID e # cmPassed m) = ids"
      using tr(2,3) assms(3) by (metis List.finite_set card_subset_eq distinct_card)
    then show ?thesis
      using assms(1) True ChangeStateProbing new has tr card
      by (auto simp: transition_def Let_def enter_def split: if_splits)
  next
    case False
    then have "m1 = enter ChangeStateRollbackPending (ceAt e) (toRollback (cpTimeouts (cmPlan m)))
        (eventDetail e ''connectivity_validation_failed'') m" "mark e = (EventPhaseTimedOut, []) \<or> fst (mark e) = EventProbeFailed \<and> snd (mark e) \<in> ids"
      using assms(1) ChangeStateProbing has mark by (auto simp: transition_def Let_def mark_def split: if_splits)
    then show ?thesis using p by (auto simp: enter_def rollback_trace_def)
  qed
qed (use assms in \<open>auto simp: transition_def Let_def enter_def mark_def rollback_trace_def probing_trace_def split: if_splits\<close>)

definition times_ok :: "ChangePlan \<Rightarrow> ChangeEvent list \<Rightarrow> ChangeMachine \<Rightarrow> bool" where
  "times_ok plan h m \<longleftrightarrow>
     (chState (cmSnapshot m) = ChangeStateApplyWindow \<longrightarrow>
        chDeadline (cmSnapshot m) = ceAt (h ! 1) + toApplyWindow (cpTimeouts plan))
   \<and> (chState (cmSnapshot m) = ChangeStateProbing \<longrightarrow>
        chDeadline (cmSnapshot m) \<le> ceAt (h ! 1) + toApplyWindow (cpTimeouts plan)
      \<and> chDeadline (cmSnapshot m) \<le> ceAt (h ! 2) + toProbe (cpTimeouts plan))
   \<and> (chState (cmSnapshot m) = ChangeStateCommitted \<longrightarrow>
        ceAt (last h) \<le> ceAt (h ! 1) + toApplyWindow (cpTimeouts plan)
      \<and> ceAt (last h) \<le> ceAt (h ! 2) + toProbe (cpTimeouts plan))"

definition machine_inv :: "ChangePlan \<Rightarrow> ChangeEvent list \<Rightarrow> ChangeMachine \<Rightarrow> bool" where
  "machine_inv plan h m \<longleftrightarrow> cmPlan m = plan
   \<and> trace_ok (probe_ids plan) (cmPassed m) (chState (cmSnapshot m)) (map mark h) \<and> times_ok plan h m
   \<and> (\<forall>e \<in> set h. \<exists>d. validateAndDigestEvent e = Inr d \<and> gget (cmProcessed m) (ceID e) = Some d)"

lemma built_plan:
  assumes "BuildChangePlan req = Inr plan"
  shows "distinct (map prID (cpProbes plan))" "cpProbes plan \<noteq> []" "0 < toApplyWindow (cpTimeouts plan)" "0 < toRollback (cpTimeouts plan)"
proof -
  let ?ns = "map norm_if (crInterfaces req)" and ?fs = "map norm_fw (crForwarding req)" and ?ps = "map norm_pr (crProbes req)"
  have b: "validateTimeouts (crTimeouts req) = Inr ()" "parts_ok ?ns ?fs ?ps"
      "plan = new_plan (TrimSpace (crNodeID req)) (TrimSpace (crRevisionID req)) (sort_key ifInterfaceID ?ns)
         (sort_key fw_pair ?fs) (sort_key prID ?ps) (crTimeouts req)"
    using BuildChangePlan_iff[OF refl refl refl, THEN iffD1, OF assms] by blast+
  have "distinct (map prID ?ps)" "0 < length ?ps" using b(2) unfolding parts_ok_def by blast+
  moreover have "set (cpProbes plan) = set ?ps" "cpProbes plan = sort_key prID ?ps" using b(3) by simp_all
  ultimately show "distinct (map prID (cpProbes plan))" "cpProbes plan \<noteq> []"
    by (metis distinct_map_sort, metis length_greater_0_conv set_empty)
  show "0 < toApplyWindow (cpTimeouts plan)" "0 < toRollback (cpTimeouts plan)"
    using b(1) by (simp_all add: b(3) validateTimeouts_def)
qed

lemma transition_times:
  assumes "transition e m = Inr m1" "trace_ok ids (cmPassed m) (chState (cmSnapshot m)) (map mark h)"
    and "times_ok (cmPlan m) h m" "ceType e \<noteq> EventPhaseTimedOut \<longrightarrow> ceAt e \<le> chDeadline (cmSnapshot m)"
    and "0 < toApplyWindow (cpTimeouts (cmPlan m))"
  shows "times_ok (cmPlan m) (h @ [e]) (after e d m1)"
proof (cases "chState (cmSnapshot m)")
  case ChangeStatePreflight
  then have "length h = 1" using assms(2) by (auto dest: arg_cong[of _ _ length])
  then show ?thesis using assms ChangeStatePreflight
    by (auto simp: transition_def Let_def enter_def times_ok_def after_def nth_append split: if_splits)
next
  case ChangeStateApplyWindow
  then have "length h = 2" using assms(2) by (auto dest: arg_cong[of _ _ length])
  then show ?thesis using assms ChangeStateApplyWindow
    by (auto simp: transition_def Let_def enter_def times_ok_def after_def nth_append split: if_splits)
next
  case ChangeStateProbing
  then have "3 \<le> length h" using assms(2) by (auto simp: probing_trace_def dest: arg_cong[of _ _ length])
  then show ?thesis using assms ChangeStateProbing
    by (auto simp: transition_def Let_def enter_def times_ok_def after_def nth_append split: if_splits)
qed (use assms in \<open>auto simp: transition_def Let_def enter_def times_ok_def after_def split: if_splits\<close>)

lemma history_inv:
  assumes "change_history plan h m"
  shows "machine_inv plan h m \<and> (\<exists>req. BuildChangePlan req = Inr plan)"
  using assms
proof (induction rule: change_history.induct)
  case (started plan now m)
  then show ?case
    by (auto simp: NewChangeMachine_def machine_inv_def times_ok_def split: if_splits)
next
  case (applied plan h m e v m')
  obtain d m1 where a: "gget (cmProcessed m) (ceID e) = None" "apply_guards e v m = Inr ()" "validateAndDigestEvent e = Inr d"
      "transition e m = Inr m1" "m' = after e d m1"
    using applied(2) by (auto simp: accepted_iff)
  obtain req where req: "BuildChangePlan req = Inr plan" using applied.IH by blast
  have i: "cmPlan m = plan" "trace_ok (probe_ids plan) (cmPassed m) (chState (cmSnapshot m)) (map mark h)" "times_ok plan h m"
      "\<forall>e \<in> set h. \<exists>d. validateAndDigestEvent e = Inr d \<and> gget (cmProcessed m) (ceID e) = Some d"
    using applied.IH by (simp_all add: machine_inv_def)
  have "trace_ok (probe_ids plan) (cmPassed m1) (chState (cmSnapshot m1)) (map mark h @ [mark e])"
    using transition_trace[OF a(4) i(2) _ _ _ event_marks[OF a(3)]] built_plan[OF req] by (simp add: i(1))
  moreover have "times_ok plan (h @ [e]) (after e d m1)"
    using transition_times[OF a(4) i(2)] i a(2) built_plan(3)[OF req] by (simp add: apply_guards_iff)
  moreover have "\<forall>x \<in> set (h @ [e]). \<exists>d'. validateAndDigestEvent x = Inr d' \<and> gget (cmProcessed (after e d m1)) (ceID x) = Some d'"
    using i(4) a(1,3) transition_kept[OF a(4)] by (auto simp: after_def)
  ultimately show ?case
    using a(5) i(1) transition_kept[OF a(4)] req by (auto simp: machine_inv_def after_def)
qed

subsection \<open>Properties\<close>


text \<open>
  C3: A network change commits exactly when it should: the recovery snapshot was captured, the preflight
  passed, the change was applied, and then every probe of the plan passed once and none failed. The commit
  falls into the probe time after the application and into the apply window.
\<close>

theorem commit_exact:
  assumes "change_history plan h m"
  shows "(chState (cmSnapshot m) = ChangeStateCommitted \<longleftrightarrow>
      (\<exists>ps. map mark h = [(EventSnapshotCaptured, []), (EventPreflightPassed, []), (EventTemporaryApplied, [])]
          @ map (Pair EventProbePassed) ps \<and> distinct ps \<and> set ps = probe_ids plan))
    \<and> (chState (cmSnapshot m) = ChangeStateCommitted \<longrightarrow>
         ceAt (last h) \<le> ceAt (h ! 1) + toApplyWindow (cpTimeouts plan) \<and> ceAt (last h) \<le> ceAt (h ! 2) + toProbe (cpTimeouts plan))"
proof -
  have i: "trace_ok (probe_ids plan) (cmPassed m) (chState (cmSnapshot m)) (map mark h)" "times_ok plan h m"
    using history_inv[OF assms] by (simp_all add: machine_inv_def)
  let ?full = "\<lambda>ps. map mark h = [(EventSnapshotCaptured, []), (EventPreflightPassed, []), (EventTemporaryApplied, [])]
          @ map (Pair EventProbePassed) ps \<and> distinct ps \<and> set ps = probe_ids plan"
  have "chState (cmSnapshot m) = ChangeStateCommitted" if ps: "?full ps" for ps
  proof -
    have eq: "map mark h = probing_trace (rev ps)" using ps by (simp add: probing_trace_def)
    have inj: "probing_trace xs = probing_trace ys \<longleftrightarrow> xs = ys" for xs ys
      by (simp add: probing_trace_def inj_map_eq_map inj_def)
    have "fst (last (map mark h)) \<in> {EventTemporaryApplied, EventProbePassed}" "3 \<le> length (map mark h)"
      by (auto simp: eq probing_trace_def last_map hd_rev)
    moreover have "set (cmPassed m) = probe_ids plan" if "map mark h = probing_trace (cmPassed m)"
      using that inj eq ps by (metis set_rev)
    ultimately show ?thesis
      using i(1) by (cases "chState (cmSnapshot m)") (auto simp: rollback_trace_def)
  qed
  moreover have "?full (rev (cmPassed m))" if "chState (cmSnapshot m) = ChangeStateCommitted"
    using i(1) that by (simp add: probing_trace_def)
  ultimately show ?thesis using i(2) unfolding times_ok_def by blast
qed

lemma trace_length:
  assumes "trace_ok ids ps st ts" "finite ids"
  shows "length ts \<le> card ids + 4"
proof -
  have "length ps < card ids" if "distinct ps" "set ps \<subset> ids"
    using that assms(2) by (metis distinct_card psubset_card_mono)
  then have "length ts' \<le> card ids + 3" if "rollback_trace ids ps ts'" for ts'
    using that unfolding rollback_trace_def by (elim disjE exE conjE) (simp_all add: probing_trace_def)
  moreover have "length ps \<le> card ids" if "distinct ps" "set ps \<subseteq> ids"
    using that assms(2) by (metis distinct_card card_mono)
  ultimately show ?thesis
    using assms(1) by (cases st) (auto simp: probing_trace_def, force+)
qed

text \<open>
  C24: A network change always comes to an end. It accepts at most four events more than it has probes; in
  every state that is not terminal a valid timeout event at or after the deadline is accepted and leads to
  failed-closed or to a pending rollback; and a change that was applied fails closed only when a probe
  failed or timed out and the rollback was then not confirmed.
\<close>

theorem change_always_ends:
  assumes "change_history plan h m"
  shows "length h \<le> length (cpProbes plan) + 4
    \<and> (\<not> ChangeState_Terminal (chState (cmSnapshot m)) \<longrightarrow>
        (\<forall>e d. validateAndDigestEvent e = Inr d \<longrightarrow> ceType e = EventPhaseTimedOut \<longrightarrow> gget (cmProcessed m) (ceID e) = None
          \<longrightarrow> chDeadline (cmSnapshot m) \<le> ceAt e \<longrightarrow> chUpdatedAt (cmSnapshot m) \<le> ceAt e
          \<longrightarrow> (\<exists>m' s. Apply e (chVersion (cmSnapshot m)) m = (m', s, None)
                \<and> chState (cmSnapshot m') \<in> {ChangeStateFailedClosed, ChangeStateRollbackPending})))
    \<and> (chState (cmSnapshot m) = ChangeStateFailedClosed \<longrightarrow> EventTemporaryApplied \<in> ceType ` set h \<longrightarrow>
        (\<exists>pre x y. map mark h = pre @ [x, y] \<and> fst x \<in> {EventProbeFailed, EventPhaseTimedOut}
           \<and> fst y \<in> {EventRollbackFailed, EventPhaseTimedOut}))"
proof (intro conjI impI allI)
  obtain req where req: "BuildChangePlan req = Inr plan" using history_inv[OF assms] by blast
  have i: "cmPlan m = plan" "trace_ok (probe_ids plan) (cmPassed m) (chState (cmSnapshot m)) (map mark h)"
    using history_inv[OF assms] by (simp_all add: machine_inv_def)
  have "card (probe_ids plan) = length (cpProbes plan)" using built_plan(1)[OF req] by (metis distinct_card length_map)
  then have "length (map mark h) \<le> length (cpProbes plan) + 4" using trace_length[OF i(2)] by simp
  then show "length h \<le> length (cpProbes plan) + 4" by simp
  show "\<exists>m' s. Apply e (chVersion (cmSnapshot m)) m = (m', s, None)
      \<and> chState (cmSnapshot m') \<in> {ChangeStateFailedClosed, ChangeStateRollbackPending}"
    if ev: "\<not> ChangeState_Terminal (chState (cmSnapshot m))" "validateAndDigestEvent e = Inr d" "ceType e = EventPhaseTimedOut"
      "gget (cmProcessed m) (ceID e) = None" "chDeadline (cmSnapshot m) \<le> ceAt e" "chUpdatedAt (cmSnapshot m) \<le> ceAt e" for e d
  proof -
    have "apply_guards e (chVersion (cmSnapshot m)) m = Inr ()" using ev by (simp add: apply_guards_iff)
    moreover obtain m1 where "transition e m = Inr m1" "chState (cmSnapshot m1) \<in> {ChangeStateFailedClosed, ChangeStateRollbackPending}"
      using ev(1,3) by (cases "chState (cmSnapshot m)") (auto simp: transition_def Let_def enter_def ChangeState_Terminal_def)
    ultimately show ?thesis using ev(2,4) by (simp add: Apply_eq) (simp add: after_def)
  qed
  assume fc: "chState (cmSnapshot m) = ChangeStateFailedClosed" and ap: "EventTemporaryApplied \<in> ceType ` set h"
  have "EventTemporaryApplied \<in> fst ` set (map mark h)" using ap by (auto simp: mark_def image_iff)
  then obtain ts y where t: "map mark h = ts @ [y]" "rollback_trace (probe_ids plan) (cmPassed m) ts"
      "fst y \<in> {EventRollbackFailed, EventPhaseTimedOut}"
    using i(2) fc by auto
  moreover obtain pre x where "ts = pre @ [x]" "fst x \<in> {EventProbeFailed, EventPhaseTimedOut}"
  proof -
    have "ts \<noteq> []" "fst (last ts) \<in> {EventProbeFailed, EventPhaseTimedOut}" using t(2) by (auto simp: rollback_trace_def)
    then show thesis using that[of "butlast ts" "last ts"] by simp
  qed
  ultimately show "\<exists>pre x y. map mark h = pre @ [x, y] \<and> fst x \<in> {EventProbeFailed, EventPhaseTimedOut}
      \<and> fst y \<in> {EventRollbackFailed, EventPhaseTimedOut}"
    by (intro exI[of _ pre] exI[of _ x] exI[of _ y]) simp
qed

text \<open>
  Every event counts once. A processed event sent again changes nothing: with the same content it is
  confirmed, with another digest it is an idempotency conflict. Of two new events issued against the
  same version at most one is accepted.
\<close>

lemma event_counts_once:
  assumes "change_history plan h m" "e \<in> set h" "ceID e' = ceID e" "validateAndDigestEvent e' = Inr d"
  shows "Apply e' v m = (m, copySnapshot m, if validateAndDigestEvent e = Inr d then None else Some ErrEventIdempotencyConflict)
    \<and> (\<forall>e1 e2 w m'. accepted m e1 w = Some m' \<longrightarrow> accepted m' e2 w = None)"
proof
  obtain d' where d': "validateAndDigestEvent e = Inr d'" "gget (cmProcessed m) (ceID e) = Some d'"
    using history_inv[OF assms(1)] assms(2) unfolding machine_inv_def by blast
  then show "Apply e' v m = (m, copySnapshot m, if validateAndDigestEvent e = Inr d then None else Some ErrEventIdempotencyConflict)"
    using assms(3,4) by (simp add: Apply_eq)
  show "\<forall>e1 e2 w m'. accepted m e1 w = Some m' \<longrightarrow> accepted m' e2 w = None"
    using net.no_lost_update by blast
qed

subsection \<open>A concrete change\<close>

definition n_event :: "string \<Rightarrow> ChangeEventType \<Rightarrow> string \<Rightarrow> string \<Rightarrow> time \<Rightarrow> ChangeEvent" where
  "n_event i t snapshot probe at = \<lparr>ceID = i, ceType = t, ceSnapshotID = snapshot, ceProbeID = probe, ceReasonCode = [], ceAt = at\<rparr>"

lemma n_valid:
  assumes "validate_event e = Inr ()" "0 \<le> ceAt e" "ceAt e < second"
  shows "\<exists>d. validateAndDigestEvent e = Inr d"
proof -
  obtain s where "time_RFC3339 (ceAt e) = Some s" using small_time assms(2,3) by blast
  then show ?thesis using assms(1) by (simp add: validateAndDigestEvent_def event_document_def)
qed

lemma n_step:
  assumes "change_history plan h m" "validate_event e = Inr ()" "0 \<le> ceAt e" "ceAt e < second"
    and "gget (cmProcessed m) (ceID e) = None" "apply_guards e v m = Inr ()" "transition e m = Inr m1"
  shows "\<exists>d. change_history plan (h @ [e]) (after e d m1)"
proof -
  obtain d where "validateAndDigestEvent e = Inr d" using n_valid assms(2-4) by blast
  then have "accepted m e v = Some (after e d m1)" using assms(5-7) by (simp add: accepted_iff)
  then show ?thesis using change_history.applied[OF assms(1)] by blast
qed

lemma n_events:
  "validate_event (n_event ''s'' EventSnapshotCaptured ''s'' [] 2) = Inr ()"
  "validate_event (n_event ''t'' EventPreflightPassed [] [] 3) = Inr ()"
  "validate_event (n_event ''u'' EventTemporaryApplied [] [] 4) = Inr ()"
  "validate_event (n_event ''v'' EventProbePassed [] ''p'' 5) = Inr ()"
  "validate_event (n_event ''v'' EventPhaseTimedOut [] [] 11) = Inr ()"
proof -
  have "validateCanonicalEventIdentifier name i = Inr ()" if "i \<in> {''s'', ''t'', ''u'', ''v'', ''p''}" for name i
    using that n_text by (auto simp: validateCanonicalEventIdentifier_def normalizeIdentifier_def)
  then show "validate_event (n_event ''s'' EventSnapshotCaptured ''s'' [] 2) = Inr ()"
    "validate_event (n_event ''t'' EventPreflightPassed [] [] 3) = Inr ()"
    "validate_event (n_event ''u'' EventTemporaryApplied [] [] 4) = Inr ()"
    "validate_event (n_event ''v'' EventProbePassed [] ''p'' 5) = Inr ()"
    "validate_event (n_event ''v'' EventPhaseTimedOut [] [] 11) = Inr ()"
    by (simp_all add: validate_event_def n_event_def)
qed

definition n_start :: ChangeMachine where
  "n_start = \<lparr>cmPlan = n_plan,
     cmSnapshot = \<lparr>chPlanID = cpPlanID n_plan, chSnapshotID = [], chState = ChangeStateSnapshotPending, chVersion = 1,
       chDeadline = 11, chPassedProbeIDs = [], chReasonCode = [], chUpdatedAt = 1\<rparr>,
     cmPassed = [], cmProcessed = []\<rparr>"

lemma n_plan_sels: "cpTimeouts n_plan = n_timeouts" "cpProbes n_plan = [n_probe]"
  by (simp_all add: n_plan_def)

lemma n_started: "change_history n_plan [] n_start"
proof (rule started)
  show "NewChangeMachine n_plan 1 = Inr n_start"
    using build_fixpoint[OF n_plan_built]
    by (simp add: NewChangeMachine_def n_start_def n_plan_sels n_timeouts_def)
qed

lemmas n_eval = apply_guards_iff ChangeState_Terminal_def transition_def enter_def after_def hasProbe_def
  n_event_def n_timeouts_def n_probe_def n_plan_sels

lemma n_committed:
  "\<exists>m. change_history n_plan [n_event ''s'' EventSnapshotCaptured ''s'' [] 2, n_event ''t'' EventPreflightPassed [] [] 3,
       n_event ''u'' EventTemporaryApplied [] [] 4, n_event ''v'' EventProbePassed [] ''p'' 5] m
     \<and> chState (cmSnapshot m) = ChangeStateCommitted"
proof -
  let ?s = "n_event ''s'' EventSnapshotCaptured ''s'' [] 2" and ?t = "n_event ''t'' EventPreflightPassed [] [] 3"
  let ?u = "n_event ''u'' EventTemporaryApplied [] [] 4" and ?v = "n_event ''v'' EventProbePassed [] ''p'' 5"
  have sec: "ceAt e \<in> {2, 3, 4, 5} \<Longrightarrow> 0 \<le> ceAt e \<and> ceAt e < second" for e by (auto simp: duration_units)
  obtain d1 m1 where 1: "change_history n_plan [?s] m1" "cmPlan m1 = n_plan" "cmPassed m1 = []" "cmProcessed m1 = [(''s'', d1)]"
      "chState (cmSnapshot m1) = ChangeStatePreflight" "chVersion (cmSnapshot m1) = 2" "chDeadline (cmSnapshot m1) = 12"
      "chUpdatedAt (cmSnapshot m1) = 2"
    using n_step[OF n_started n_events(1), of 1] sec[of ?s]
    by (force simp: n_eval n_start_def)
  obtain d2 m2 where 2: "change_history n_plan [?s, ?t] m2" "cmPlan m2 = n_plan" "cmPassed m2 = []" "cmProcessed m2 = [(''s'', d1), (''t'', d2)]"
      "chState (cmSnapshot m2) = ChangeStateApplyWindow" "chVersion (cmSnapshot m2) = 3" "chDeadline (cmSnapshot m2) = 13"
      "chUpdatedAt (cmSnapshot m2) = 3"
    using n_step[OF 1(1) n_events(2), of 2] sec[of ?t] 1(2-) by (force simp: n_eval)
  obtain d3 m3 where 3: "change_history n_plan [?s, ?t, ?u] m3" "cmPlan m3 = n_plan" "cmPassed m3 = []"
      "cmProcessed m3 = [(''s'', d1), (''t'', d2), (''u'', d3)]"
      "chState (cmSnapshot m3) = ChangeStateProbing" "chVersion (cmSnapshot m3) = 4" "chDeadline (cmSnapshot m3) = 9"
      "chUpdatedAt (cmSnapshot m3) = 4"
    using n_step[OF 2(1) n_events(3), of 3] sec[of ?u] 2(2-) by (force simp: n_eval)
  show ?thesis
    using n_step[OF 3(1) n_events(4), of 4] sec[of ?v] 3(2-) by (force simp: n_eval)
qed

theorem commit_exact_witness:
  "\<exists>h m. change_history n_plan h m \<and> chState (cmSnapshot m) = ChangeStateCommitted
     \<and> ceAt (last h) \<le> ceAt (h ! 1) + toApplyWindow (cpTimeouts n_plan)"
proof -
  obtain h m where "change_history n_plan h m" "chState (cmSnapshot m) = ChangeStateCommitted" using n_committed by blast
  with commit_exact[OF this(1)] show ?thesis by blast
qed

theorem change_always_ends_witness:
  "\<exists>m' s. Apply (n_event ''v'' EventPhaseTimedOut [] [] 11) 1 n_start = (m', s, None)
     \<and> chState (cmSnapshot m') \<in> {ChangeStateFailedClosed, ChangeStateRollbackPending}"
proof -
  let ?e = "n_event ''v'' EventPhaseTimedOut [] [] 11"
  obtain d where d: "validateAndDigestEvent ?e = Inr d"
    using n_valid[OF n_events(5)] by (auto simp: n_event_def duration_units)
  have "\<not> ChangeState_Terminal (chState (cmSnapshot n_start))" "ceType ?e = EventPhaseTimedOut"
      "gget (cmProcessed n_start) (ceID ?e) = None" "chDeadline (cmSnapshot n_start) \<le> ceAt ?e"
      "chUpdatedAt (cmSnapshot n_start) \<le> ceAt ?e" "chVersion (cmSnapshot n_start) = 1"
    by (simp_all add: n_start_def n_event_def ChangeState_Terminal_def)
  with d change_always_ends[OF n_started] show ?thesis by metis
qed

end
