(* ===== verification/Incident_Model.thy ===== *)
theory Incident_Model
  imports Core_Metadata Go_Sha256
begin

text \<open>
  Package \<^verbatim>\<open>internal/incidents\<close>, file \<^verbatim>\<open>incident.go\<close>: the incident read model and its validation.
  A string type with named constants is a datatype with one constructor per constant and one for
  every other string; an error is its sentinel with the rest of the text, in which a value printed
  with \<^verbatim>\<open>%q\<close> stands without the quotes. The validators run their
  checks in the order of the source, the loops over slices carry the index and the set \<^verbatim>\<open>seen\<close>.
\<close>

subsection \<open>Data\<close>

definition maxTitleLength :: nat where "maxTitleLength = 160"
definition maxSummaryLength :: nat where "maxSummaryLength = 512"
definition maxReferenceLength :: nat where "maxReferenceLength = 255"
definition maxAffectedResource :: nat where "maxAffectedResource = 64"
definition maxSignals :: nat where "maxSignals = 128"
definition maxTimelineEntries :: nat where "maxTimelineEntries = 256"
definition maxEvidenceRefs :: nat where "maxEvidenceRefs = 128"

lemmas incident_limits =
  maxTitleLength_def maxSummaryLength_def maxReferenceLength_def maxAffectedResource_def maxSignals_def
  maxTimelineEntries_def maxEvidenceRefs_def

datatype incident_error =
    ErrInvalidIncident string
  | ErrInvalidTimeline string
  | ErrInvalidEvidence string
  | ErrInvalidAcknowledgement string
  | ErrIncidentStateConflict string
  | ErrIncidentEvidenceConflict string
  | ErrIncidentNoChange
  | IncidentCore core_error
  | IndexOutOfRange

text \<open>The printed form of an error, where the source wraps one in another with \<^verbatim>\<open>%v\<close>; only validation errors are.\<close>

definition incident_error_text :: "incident_error \<Rightarrow> string" where
  "incident_error_text e =
     (case e of
        ErrInvalidIncident m \<Rightarrow> ''invalid incident: '' @ m
      | ErrInvalidTimeline m \<Rightarrow> ''invalid incident timeline: '' @ m
      | ErrInvalidEvidence m \<Rightarrow> ''invalid incident evidence: '' @ m
      | ErrInvalidAcknowledgement m \<Rightarrow> ''invalid incident acknowledgement: '' @ m
      | ErrIncidentStateConflict m \<Rightarrow> ''incident state conflict: '' @ m
      | ErrIncidentEvidenceConflict m \<Rightarrow> ''incident evidence conflict: '' @ m
      | ErrIncidentNoChange \<Rightarrow> ''incident mutation has no effective change''
      | IncidentCore c \<Rightarrow> core_error_text c
      | IndexOutOfRange \<Rightarrow> ''runtime error: index out of range'')"

datatype Severity = SeverityInfo | SeverityWarning | SeverityCritical | SeverityUnsupported string

definition Severity_Valid :: "Severity \<Rightarrow> bool" where
  "Severity_Valid s \<longleftrightarrow> s = SeverityInfo \<or> s = SeverityWarning \<or> s = SeverityCritical"

datatype IncidentStatus = StatusOpen | StatusAcknowledged | StatusResolved | StatusUnsupported string

definition Status_Valid :: "IncidentStatus \<Rightarrow> bool" where
  "Status_Valid s \<longleftrightarrow> s = StatusOpen \<or> s = StatusAcknowledged \<or> s = StatusResolved"

definition status_text :: "IncidentStatus \<Rightarrow> string" where
  "status_text s = (case s of StatusOpen \<Rightarrow> ''open'' | StatusAcknowledged \<Rightarrow> ''acknowledged''
     | StatusResolved \<Rightarrow> ''resolved'' | StatusUnsupported t \<Rightarrow> t)"

datatype TimelineKind =
    TimelineOpened | TimelineSignalObserved | TimelineAcknowledged | TimelineResolved | TimelineNote
  | TimelineUnsupported string

definition TimelineKind_Valid :: "TimelineKind \<Rightarrow> bool" where
  "TimelineKind_Valid k \<longleftrightarrow>
     k \<in> set [TimelineOpened, TimelineSignalObserved, TimelineAcknowledged, TimelineResolved, TimelineNote]"

definition kind_text :: "TimelineKind \<Rightarrow> string" where
  "kind_text k = (case k of TimelineOpened \<Rightarrow> ''opened'' | TimelineSignalObserved \<Rightarrow> ''signal-observed''
     | TimelineAcknowledged \<Rightarrow> ''acknowledged'' | TimelineResolved \<Rightarrow> ''resolved'' | TimelineNote \<Rightarrow> ''note''
     | TimelineUnsupported t \<Rightarrow> t)"

datatype RedactionState = RedactionNotApplicable | RedactionApplied | RedactionUnsupported string

definition RedactionState_Valid :: "RedactionState \<Rightarrow> bool" where
  "RedactionState_Valid s \<longleftrightarrow> s = RedactionNotApplicable \<or> s = RedactionApplied"

record ResourceRef =
  rrKind :: string
  rrID :: string
  rrScopeID :: string

record EvidenceRef =
  erKind :: string
  erID :: string
  erSHA256 :: string
  erCollected :: "time"
  erRedaction :: RedactionState

record Signal =
  sgID :: string
  sgKind :: string
  sgSource :: string
  sgObservedAt :: "time"
  sgSummary :: string
  sgEvidence :: "EvidenceRef list"

record RunbookRef =
  rbID :: string
  rbRevision :: string

record Acknowledgement =
  akActorID :: string
  akAt :: "time"

record TimelineEntry =
  teKind :: TimelineKind
  teAt :: "time"
  teActorID :: string
  teSummary :: string
  teEvidence :: "EvidenceRef list"

record Incident =
  inMetadata :: ObjectMetadata
  inSeverity :: Severity
  inStatus :: IncidentStatus
  inTitle :: string
  inStartedAt :: "time"
  inLastObservedAt :: "time"
  inAffectedResources :: "ResourceRef list"
  inSignals :: "Signal list"
  inTimeline :: "TimelineEntry list"
  inRunbook :: "RunbookRef option"
  inAcknowledgement :: "Acknowledgement option"
  inEvidence :: "EvidenceRef list"

subsection \<open>References and texts\<close>

definition refPattern :: "string \<Rightarrow> bool" where
  "refPattern = match_identifier ''._:/-'' 253"

definition sha256Pattern :: "string \<Rightarrow> bool" where
  "sha256Pattern s \<longleftrightarrow> length s = 64 \<and> list_all lower_hex s"

definition validateRef :: "string \<Rightarrow> string \<Rightarrow> string + unit" where
  "validateRef field v =
     (if v = [] \<or> TrimSpace v \<noteq> v then Inl (field @ '' is required and must not have surrounding whitespace'')
      else if length v > maxReferenceLength \<or> \<not> refPattern v then Inl (field @ '' has invalid format'')
      else Inr ())"

definition validateText :: "string \<Rightarrow> string \<Rightarrow> nat \<Rightarrow> bool \<Rightarrow> string + unit" where
  "validateText field v maxRunes required = first_error
     [require (\<not> (required \<and> TrimSpace v = [])) (field @ '' is required''),
      require (TrimSpace v = v) (field @ '' must not have surrounding whitespace''),
      require (\<not> (\<not> utf8_ValidString v \<or> RuneCountInString v > maxRunes))
        (field @ '' exceeds '' @ show_nat maxRunes @ '' characters or is not valid UTF-8''),
      require (\<not> list_ex (\<lambda>r. unicode_IsControl r \<and> r \<noteq> 9) (rune_list v)) (field @ '' contains control characters'')]"

definition at_index :: "string \<Rightarrow> nat \<Rightarrow> string \<Rightarrow> string" where
  "at_index what idx m = what @ ''['' @ show_nat idx @ '']: '' @ m"

subsection \<open>Parts\<close>

definition resource_key :: "ResourceRef \<Rightarrow> string" where
  "resource_key r = rrKind r @ [CHR 0x00] @ rrID r @ [CHR 0x00] @ rrScopeID r"

fun validateResources_loop :: "nat \<Rightarrow> string list \<Rightarrow> ResourceRef list \<Rightarrow> incident_error + unit" where
  "validateResources_loop idx seen [] = Inr ()"
| "validateResources_loop idx seen (r # rs) =
     (let wrap = (\<lambda>m. ErrInvalidIncident (at_index ''affected_resources'' idx m)) in
      case first_error
        [map_error wrap (validateRef ''resource.kind'' (rrKind r)),
         map_error wrap (validateRef ''resource.id'' (rrID r)),
         map_error wrap (validateRef ''resource.scope_id'' (rrScopeID r)),
         require (resource_key r \<notin> set seen)
           (ErrInvalidIncident (''duplicate affected resource '' @ rrKind r @ ''/'' @ rrID r))]
      of Inl e \<Rightarrow> Inl e | Inr _ \<Rightarrow> validateResources_loop (Suc idx) (resource_key r # seen) rs)"

definition validateResources :: "ResourceRef list \<Rightarrow> incident_error + unit" where
  "validateResources rs = validateResources_loop 0 [] rs"

definition evidence_key :: "EvidenceRef \<Rightarrow> string" where
  "evidence_key e = erKind e @ [CHR 0x00] @ erID e"

fun validateEvidenceSet_loop :: "nat \<Rightarrow> string list \<Rightarrow> EvidenceRef list \<Rightarrow> incident_error + unit" where
  "validateEvidenceSet_loop idx seen [] = Inr ()"
| "validateEvidenceSet_loop idx seen (e # es) =
     (let wrap = (\<lambda>m. ErrInvalidEvidence (at_index ''evidence'' idx m)) in
      case first_error
        [map_error wrap (validateRef ''evidence.kind'' (erKind e)),
         map_error wrap (validateRef ''evidence.id'' (erID e)),
         require (\<not> IsZero (erCollected e))
           (ErrInvalidEvidence (''evidence['' @ show_nat idx @ ''] collected_at is required'')),
         require (RedactionState_Valid (erRedaction e))
           (ErrInvalidEvidence (''evidence['' @ show_nat idx @ ''] has unsupported redaction state'')),
         require (\<not> (erSHA256 e \<noteq> [] \<and> \<not> sha256Pattern (erSHA256 e)))
           (ErrInvalidEvidence (''evidence['' @ show_nat idx @ ''] sha256 must be 64 lowercase hex characters'')),
         require (evidence_key e \<notin> set seen)
           (ErrInvalidEvidence (''duplicate evidence reference '' @ erKind e @ ''/'' @ erID e))]
      of Inl err \<Rightarrow> Inl err | Inr _ \<Rightarrow> validateEvidenceSet_loop (Suc idx) (evidence_key e # seen) es)"

definition validateEvidenceSet :: "EvidenceRef list \<Rightarrow> incident_error + unit" where
  "validateEvidenceSet es = validateEvidenceSet_loop 0 [] es"

text \<open>The loop of \<^verbatim>\<open>validateSignals\<close> returns the latest observation time it saw.\<close>

fun validateSignals_loop ::
  "time \<Rightarrow> time \<Rightarrow> nat \<Rightarrow> string list \<Rightarrow> time \<Rightarrow> Signal list \<Rightarrow> incident_error + time" where
  "validateSignals_loop startedAt lastObservedAt idx seen latest [] = Inr latest"
| "validateSignals_loop startedAt lastObservedAt idx seen latest (s # ss) =
     (let wrap = (\<lambda>m. ErrInvalidIncident (at_index ''signals'' idx m)) in
      case first_error
        [map_error wrap (validateRef ''signal.id'' (sgID s)),
         require (sgID s \<notin> set seen) (ErrInvalidIncident (''duplicate signal id '' @ sgID s)),
         map_error wrap (validateRef ''signal.kind'' (sgKind s)),
         map_error wrap (validateRef ''signal.source'' (sgSource s)),
         require (\<not> (IsZero (sgObservedAt s) \<or> sgObservedAt s < startedAt \<or> sgObservedAt s > lastObservedAt))
           (ErrInvalidIncident (''signals['' @ show_nat idx @ ''] observed_at is outside incident observation window'')),
         map_error wrap (validateText ''signal.summary'' (sgSummary s) maxSummaryLength True),
         require (\<not> length (sgEvidence s) > maxEvidenceRefs)
           (ErrInvalidEvidence (''signals['' @ show_nat idx @ ''] has too many evidence references'')),
         map_error (\<lambda>e. ErrInvalidEvidence (at_index ''signals'' idx (incident_error_text e)))
           (validateEvidenceSet (sgEvidence s))]
      of Inl e \<Rightarrow> Inl e
       | Inr _ \<Rightarrow> validateSignals_loop startedAt lastObservedAt (Suc idx) (sgID s # seen)
           (if sgObservedAt s > latest then sgObservedAt s else latest) ss)"

definition validateSignals :: "Signal list \<Rightarrow> time \<Rightarrow> time \<Rightarrow> incident_error + unit" where
  "validateSignals ss startedAt lastObservedAt =
     (case validateSignals_loop startedAt lastObservedAt 0 [] startedAt ss of
        Inl e \<Rightarrow> Inl e
      | Inr latest \<Rightarrow> require (latest = lastObservedAt)
          (ErrInvalidIncident ''last_observed_at does not match newest signal''))"

definition validateAcknowledgement ::
  "IncidentStatus \<Rightarrow> Acknowledgement option \<Rightarrow> time \<Rightarrow> time \<Rightarrow> incident_error + unit" where
  "validateAcknowledgement status acknowledgement startedAt updatedAt =
     (if status = StatusOpen
      then require (acknowledgement = None)
        (ErrInvalidAcknowledgement ''open incident must not carry acknowledgement'')
      else case acknowledgement of
        None \<Rightarrow> Inl (ErrInvalidAcknowledgement (status_text status @ '' incident requires acknowledgement''))
      | Some a \<Rightarrow> first_error
          [map_error ErrInvalidAcknowledgement (validateRef ''acknowledgement.actor_id'' (akActorID a)),
           require (\<not> (IsZero (akAt a) \<or> akAt a < startedAt \<or> akAt a > updatedAt))
             (ErrInvalidAcknowledgement ''acknowledgement timestamp is outside incident lifetime'')])"

subsection \<open>Timeline\<close>

text \<open>The \<^verbatim>\<open>switch\<close> of the timeline loop.\<close>

definition timeline_kind_check :: "Acknowledgement option \<Rightarrow> TimelineEntry \<Rightarrow> incident_error + unit" where
  "timeline_kind_check acknowledgement entry =
     (case teKind entry of
        TimelineAcknowledged \<Rightarrow> require
          (case acknowledgement of None \<Rightarrow> False
             | Some a \<Rightarrow> teActorID entry = akActorID a \<and> teAt entry = akAt a)
          (ErrInvalidTimeline ''acknowledgement entry does not match acknowledgement state'')
      | TimelineResolved \<Rightarrow> require (teActorID entry \<noteq> []) (ErrInvalidTimeline ''resolved entry requires actor_id'')
      | TimelineOpened \<Rightarrow> require (teActorID entry = [])
          (ErrInvalidTimeline ''system observation entry must not carry actor_id'')
      | TimelineSignalObserved \<Rightarrow> require (teActorID entry = [])
          (ErrInvalidTimeline ''system observation entry must not carry actor_id'')
      | TimelineNote \<Rightarrow> require (teActorID entry \<noteq> []) (ErrInvalidTimeline ''note entry requires actor_id'')
      | TimelineUnsupported _ \<Rightarrow> Inr ())"

definition timeline_entry_check :: "Incident \<Rightarrow> nat \<Rightarrow> time \<Rightarrow> TimelineEntry \<Rightarrow> incident_error + unit" where
  "timeline_entry_check i idx previous entry = first_error
     [require (TimelineKind_Valid (teKind entry))
        (ErrInvalidTimeline (''timeline['' @ show_nat idx @ ''] has unsupported kind '' @ kind_text (teKind entry))),
      require (\<not> (IsZero (teAt entry) \<or> teAt entry < inStartedAt i \<or> teAt entry > omUpdatedAt (inMetadata i)))
        (ErrInvalidTimeline (''timeline['' @ show_nat idx @ ''] timestamp is outside incident lifetime'')),
      require (\<not> (\<not> IsZero previous \<and> teAt entry < previous)) (ErrInvalidTimeline ''entries are not chronological''),
      map_error (\<lambda>m. ErrInvalidTimeline (at_index ''timeline'' idx m))
        (validateText ''timeline.summary'' (teSummary entry) maxSummaryLength False),
      require (\<not> length (teEvidence entry) > maxEvidenceRefs)
        (ErrInvalidEvidence (''timeline['' @ show_nat idx @ ''] has too many evidence references'')),
      map_error (\<lambda>e. ErrInvalidEvidence (at_index ''timeline'' idx (incident_error_text e)))
        (validateEvidenceSet (teEvidence entry)),
      timeline_kind_check (inAcknowledgement i) entry,
      (if teActorID entry \<noteq> []
       then map_error (\<lambda>m. ErrInvalidTimeline (at_index ''timeline'' idx m))
         (validateRef ''timeline.actor_id'' (teActorID entry))
       else Inr ())]"

text \<open>The loop counts the acknowledgement and the resolution entries.\<close>

fun validateTimeline_loop ::
  "Incident \<Rightarrow> nat \<Rightarrow> time \<Rightarrow> nat \<Rightarrow> nat \<Rightarrow> TimelineEntry list \<Rightarrow> incident_error + nat \<times> nat" where
  "validateTimeline_loop i idx previous ackCount resolvedCount [] = Inr (ackCount, resolvedCount)"
| "validateTimeline_loop i idx previous ackCount resolvedCount (entry # entries) =
     (case timeline_entry_check i idx previous entry of
        Inl e \<Rightarrow> Inl e
      | Inr _ \<Rightarrow> validateTimeline_loop i (Suc idx) (teAt entry)
          (if teKind entry = TimelineAcknowledged then ackCount + 1 else ackCount)
          (if teKind entry = TimelineResolved then resolvedCount + 1 else resolvedCount) entries)"

definition timeline_status_check ::
  "IncidentStatus \<Rightarrow> TimelineEntry list \<Rightarrow> nat \<Rightarrow> nat \<Rightarrow> incident_error + unit" where
  "timeline_status_check status entries ackCount resolvedCount = first_error
     [require (\<not> (status = StatusOpen \<and> (ackCount \<noteq> 0 \<or> resolvedCount \<noteq> 0)))
        (ErrInvalidTimeline ''open incident contains terminal operator events''),
      require (\<not> (status = StatusAcknowledged \<and> (ackCount \<noteq> 1 \<or> resolvedCount \<noteq> 0)))
        (ErrInvalidTimeline ''acknowledged incident requires exactly one acknowledgement and no resolution''),
      require (\<not> (status = StatusResolved
                 \<and> (ackCount \<noteq> 1 \<or> resolvedCount \<noteq> 1 \<or> teKind (last entries) \<noteq> TimelineResolved)))
        (ErrInvalidTimeline ''resolved incident requires one acknowledgement and terminal resolution'')]"

definition validateTimeline :: "Incident \<Rightarrow> incident_error + unit" where
  "validateTimeline i =
     (case inTimeline i of
        [] \<Rightarrow> Inl IndexOutOfRange
      | entry # _ \<Rightarrow>
        (if teKind entry \<noteq> TimelineOpened \<or> teAt entry \<noteq> inStartedAt i
         then Inl (ErrInvalidTimeline ''first entry must open the incident at started_at'')
         else case validateTimeline_loop i 0 0 0 0 (inTimeline i) of
            Inl e \<Rightarrow> Inl e
          | Inr (ackCount, resolvedCount) \<Rightarrow>
              timeline_status_check (inStatus i) (inTimeline i) ackCount resolvedCount))"

subsection \<open>The whole incident\<close>

definition validateRunbook :: "RunbookRef option \<Rightarrow> incident_error + unit" where
  "validateRunbook r =
     (case r of None \<Rightarrow> Inr ()
      | Some runbook \<Rightarrow> first_error
          [map_error ErrInvalidIncident (validateRef ''runbook.id'' (rbID runbook)),
           map_error ErrInvalidIncident (validateRef ''runbook.revision'' (rbRevision runbook))])"

definition Incident_Validate :: "Incident \<Rightarrow> incident_error + unit" where
  "Incident_Validate i = first_error
     [map_error (\<lambda>e. ErrInvalidIncident (core_error_text e)) (ObjectMetadata_Validate (inMetadata i)),
      require (Severity_Valid (inSeverity i)) (ErrInvalidIncident ''unsupported severity''),
      require (Status_Valid (inStatus i)) (ErrInvalidIncident (''unsupported status '' @ status_text (inStatus i))),
      map_error ErrInvalidIncident (validateText ''title'' (inTitle i) maxTitleLength True),
      require (\<not> (IsZero (inStartedAt i) \<or> IsZero (inLastObservedAt i)))
        (ErrInvalidIncident ''started_at and last_observed_at are required''),
      require (\<not> inLastObservedAt i < inStartedAt i) (ErrInvalidIncident ''last_observed_at precedes started_at''),
      require (\<not> (inStartedAt i < omCreatedAt (inMetadata i) \<or> inLastObservedAt i > omUpdatedAt (inMetadata i)))
        (ErrInvalidIncident ''observation timestamps exceed object lifetime''),
      require (\<not> (length (inAffectedResources i) = 0 \<or> length (inAffectedResources i) > maxAffectedResource))
        (ErrInvalidIncident ''affected_resources must contain 1..64 entries''),
      require (\<not> (length (inSignals i) = 0 \<or> length (inSignals i) > maxSignals))
        (ErrInvalidIncident ''signals must contain 1..128 entries''),
      require (\<not> (length (inTimeline i) = 0 \<or> length (inTimeline i) > maxTimelineEntries))
        (ErrInvalidTimeline ''timeline must contain 1..256 entries''),
      require (\<not> length (inEvidence i) > maxEvidenceRefs)
        (ErrInvalidEvidence ''too many incident evidence references''),
      validateResources (inAffectedResources i),
      validateEvidenceSet (inEvidence i),
      validateSignals (inSignals i) (inStartedAt i) (inLastObservedAt i),
      validateRunbook (inRunbook i),
      validateAcknowledgement (inStatus i) (inAcknowledgement i) (inStartedAt i) (omUpdatedAt (inMetadata i)),
      validateTimeline i]"

subsection \<open>What the checks say\<close>

definition ref_ok :: "string \<Rightarrow> bool" where
  "ref_ok v \<longleftrightarrow> v \<noteq> [] \<and> TrimSpace v = v \<and> length v \<le> maxReferenceLength \<and> refPattern v"

definition text_ok :: "nat \<Rightarrow> bool \<Rightarrow> string \<Rightarrow> bool" where
  "text_ok n req v \<longleftrightarrow> (req \<longrightarrow> v \<noteq> []) \<and> TrimSpace v = v \<and> utf8_ValidString v \<and> RuneCountInString v \<le> n
     \<and> \<not> list_ex (\<lambda>r. unicode_IsControl r \<and> r \<noteq> 9) (rune_list v)"

lemma validateRef_iff [simp]: "validateRef f v = Inr () \<longleftrightarrow> ref_ok v"
  by (auto simp: validateRef_def ref_ok_def)

lemma validateText_iff [simp]: "validateText f v n req = Inr () \<longleftrightarrow> text_ok n req v"
  by (auto simp: validateText_def text_ok_def)

lemma ref_no_nul:
  assumes "ref_ok v" shows "CHR 0x00 \<notin> set v"
proof
  assume "CHR 0x00 \<in> set v"
  moreover have "list_all (\<lambda>d. alnum d \<or> d \<in> set ''._:/-'') v"
    using assms match_identifier_chars[of _ 253 v] unfolding ref_ok_def refPattern_def by blast
  ultimately have "alnum (CHR 0x00) \<or> CHR 0x00 \<in> set ''._:/-''" by (auto simp: list_all_iff)
  then show False by (auto simp: char_class_defs less_eq_char_def)
qed

definition evidence_ok :: "EvidenceRef \<Rightarrow> bool" where
  "evidence_ok e \<longleftrightarrow> ref_ok (erKind e) \<and> ref_ok (erID e) \<and> erCollected e \<noteq> 0 \<and> RedactionState_Valid (erRedaction e)
     \<and> (erSHA256 e = [] \<or> sha256Pattern (erSHA256 e))"

definition evidence_set_ok :: "EvidenceRef list \<Rightarrow> bool" where
  "evidence_set_ok es \<longleftrightarrow> list_all evidence_ok es \<and> distinct (map evidence_key es)"

lemma validateEvidenceSet_loop_iff:
  "validateEvidenceSet_loop idx seen es = Inr () \<longleftrightarrow>
     list_all evidence_ok es \<and> distinct (map evidence_key es) \<and> evidence_key ` set es \<inter> set seen = {}"
  by (induction idx seen es rule: validateEvidenceSet_loop.induct)
     (auto simp: Let_def evidence_ok_def early_return_Inr)

lemma validateEvidenceSet_iff [simp]: "validateEvidenceSet es = Inr () \<longleftrightarrow> evidence_set_ok es"
  by (simp add: validateEvidenceSet_def evidence_set_ok_def validateEvidenceSet_loop_iff)

text \<open>Two references with the same key have the same kind and the same id, as neither contains the separator.\<close>

lemma evidence_key_eq:
  assumes "evidence_ok a" "evidence_ok b"
  shows "evidence_key a = evidence_key b \<longleftrightarrow> erKind a = erKind b \<and> erID a = erID b"
proof -
  have "CHR 0x00 \<notin> set (erID a)" "CHR 0x00 \<notin> set (erID b)"
    using assms ref_no_nul by (auto simp: evidence_ok_def)
  then show ?thesis using nul_split_unique[of "erKind a" "erID a" "erKind b" "erID b"] by (auto simp: evidence_key_def)
qed

definition signal_ok :: "time \<Rightarrow> time \<Rightarrow> Signal \<Rightarrow> bool" where
  "signal_ok startedAt lastObservedAt s \<longleftrightarrow> ref_ok (sgID s) \<and> ref_ok (sgKind s) \<and> ref_ok (sgSource s)
     \<and> sgObservedAt s \<noteq> 0 \<and> startedAt \<le> sgObservedAt s \<and> sgObservedAt s \<le> lastObservedAt
     \<and> text_ok maxSummaryLength True (sgSummary s) \<and> length (sgEvidence s) \<le> maxEvidenceRefs
     \<and> evidence_set_ok (sgEvidence s)"

lemma validateSignals_loop_iff:
  "validateSignals_loop st la idx seen latest ss = Inr l \<longleftrightarrow>
     list_all (signal_ok st la) ss \<and> distinct (map sgID ss) \<and> sgID ` set ss \<inter> set seen = {}
   \<and> l = fold max (map sgObservedAt ss) latest"
proof (induction ss arbitrary: idx seen latest)
  case (Cons s ss)
  have m: "(if sgObservedAt s > latest then sgObservedAt s else latest) = max (sgObservedAt s) latest" by simp
  have "validateSignals_loop st la idx seen latest (s # ss) = Inr l \<longleftrightarrow> signal_ok st la s \<and> sgID s \<notin> set seen
      \<and> validateSignals_loop st la (Suc idx) (sgID s # seen) (max (sgObservedAt s) latest) ss = Inr l"
    unfolding validateSignals_loop.simps m Let_def early_return_Inr
    by (auto simp: signal_ok_def)
  then show ?case by (auto simp: Cons.IH)
qed auto

definition entry_ok :: "Incident \<Rightarrow> TimelineEntry \<Rightarrow> bool" where
  "entry_ok i e \<longleftrightarrow> TimelineKind_Valid (teKind e) \<and> teAt e \<noteq> 0 \<and> inStartedAt i \<le> teAt e
     \<and> teAt e \<le> omUpdatedAt (inMetadata i) \<and> text_ok maxSummaryLength False (teSummary e)
     \<and> length (teEvidence e) \<le> maxEvidenceRefs \<and> evidence_set_ok (teEvidence e)
     \<and> timeline_kind_check (inAcknowledgement i) e = Inr () \<and> (teActorID e = [] \<or> ref_ok (teActorID e))"

definition entries_of :: "TimelineKind \<Rightarrow> TimelineEntry list \<Rightarrow> TimelineEntry list" where
  "entries_of k ts = filter (\<lambda>e. teKind e = k) ts"

lemma entries_of_simps [simp]:
  "entries_of k [] = []"
  "entries_of k (e # ts) = (if teKind e = k then e # entries_of k ts else entries_of k ts)"
  "entries_of k (ts @ us) = entries_of k ts @ entries_of k us"
  by (auto simp: entries_of_def)

lemma timeline_entry_check_iff:
  "timeline_entry_check i idx previous e = Inr () \<longleftrightarrow> entry_ok i e \<and> (previous = 0 \<or> previous \<le> teAt e)"
  by (auto simp: timeline_entry_check_def entry_ok_def)

lemma validateTimeline_loop_iff:
  "validateTimeline_loop i idx previous a r ts = Inr (a', r') \<longleftrightarrow>
     list_all (entry_ok i) ts \<and> sorted (map teAt ts) \<and> (ts = [] \<or> previous = 0 \<or> previous \<le> teAt (hd ts))
   \<and> a' = a + length (entries_of TimelineAcknowledged ts) \<and> r' = r + length (entries_of TimelineResolved ts)"
proof (induction ts arbitrary: idx previous a r)
  case (Cons e ts)
  have "sorted (map teAt (e # ts)) \<longleftrightarrow> (ts = [] \<or> teAt e \<le> teAt (hd ts)) \<and> sorted (map teAt ts)"
    by (cases ts) auto
  moreover have "teAt e \<noteq> 0" if "entry_ok i e" using that by (simp add: entry_ok_def)
  moreover have "validateTimeline_loop i idx previous a r (e # ts) = Inr (a', r') \<longleftrightarrow>
      entry_ok i e \<and> (previous = 0 \<or> previous \<le> teAt e)
    \<and> validateTimeline_loop i (Suc idx) (teAt e) (if teKind e = TimelineAcknowledged then a + 1 else a)
        (if teKind e = TimelineResolved then r + 1 else r) ts = Inr (a', r')"
    unfolding validateTimeline_loop.simps early_return_Inr by (simp add: timeline_entry_check_iff)
  ultimately show ?case unfolding Cons.IH by auto
qed auto

definition status_entries_ok :: "IncidentStatus \<Rightarrow> TimelineEntry list \<Rightarrow> bool" where
  "status_entries_ok s ts \<longleftrightarrow>
     (let acks = length (entries_of TimelineAcknowledged ts); ends = length (entries_of TimelineResolved ts)
      in (s = StatusOpen \<longrightarrow> acks = 0 \<and> ends = 0) \<and> (s = StatusAcknowledged \<longrightarrow> acks = 1 \<and> ends = 0)
       \<and> (s = StatusResolved \<longrightarrow> acks = 1 \<and> ends = 1 \<and> teKind (last ts) = TimelineResolved))"

lemma timeline_status_check_iff:
  "timeline_status_check s ts (length (entries_of TimelineAcknowledged ts)) (length (entries_of TimelineResolved ts)) = Inr ()
     \<longleftrightarrow> status_entries_ok s ts"
  by (auto simp: timeline_status_check_def status_entries_ok_def Let_def)

definition timeline_ok :: "Incident \<Rightarrow> bool" where
  "timeline_ok i \<longleftrightarrow> inTimeline i \<noteq> [] \<and> teKind (hd (inTimeline i)) = TimelineOpened
     \<and> teAt (hd (inTimeline i)) = inStartedAt i \<and> list_all (entry_ok i) (inTimeline i)
     \<and> sorted (map teAt (inTimeline i)) \<and> status_entries_ok (inStatus i) (inTimeline i)"

lemma validateTimeline_iff [simp]: "validateTimeline i = Inr () \<longleftrightarrow> timeline_ok i"
proof (cases "inTimeline i")
  case (Cons e ts)
  have hd: "hd (inTimeline i) = e" "inTimeline i \<noteq> []" using Cons by simp_all
  have "validateTimeline i = Inr () \<longleftrightarrow> teKind e = TimelineOpened \<and> teAt e = inStartedAt i
      \<and> (\<exists>a r. validateTimeline_loop i 0 0 0 0 (inTimeline i) = Inr (a, r)
           \<and> timeline_status_check (inStatus i) (inTimeline i) a r = Inr ())"
    by (auto simp: validateTimeline_def Cons early_return_Inr)
  also have "\<dots> \<longleftrightarrow> timeline_ok i"
    by (simp add: validateTimeline_loop_iff timeline_ok_def timeline_status_check_iff hd)
  finally show ?thesis .
qed (simp add: validateTimeline_def timeline_ok_def)

text \<open>The part of the validation that the operator mutations cannot influence, and the whole of it.\<close>

definition observation_ok :: "Incident \<Rightarrow> bool" where
  "observation_ok i \<longleftrightarrow> Severity_Valid (inSeverity i) \<and> text_ok maxTitleLength True (inTitle i)
     \<and> inStartedAt i \<noteq> 0 \<and> inLastObservedAt i \<noteq> 0 \<and> inStartedAt i \<le> inLastObservedAt i
     \<and> omCreatedAt (inMetadata i) \<le> inStartedAt i \<and> inAffectedResources i \<noteq> []
     \<and> length (inAffectedResources i) \<le> maxAffectedResource \<and> inSignals i \<noteq> [] \<and> length (inSignals i) \<le> maxSignals
     \<and> validateResources (inAffectedResources i) = Inr ()
     \<and> validateSignals (inSignals i) (inStartedAt i) (inLastObservedAt i) = Inr ()"

definition acknowledgement_ok :: "Incident \<Rightarrow> bool" where
  "acknowledgement_ok i \<longleftrightarrow>
     (if inStatus i = StatusOpen then inAcknowledgement i = None
      else case inAcknowledgement i of None \<Rightarrow> False
        | Some a \<Rightarrow> ref_ok (akActorID a) \<and> akAt a \<noteq> 0 \<and> inStartedAt i \<le> akAt a \<and> akAt a \<le> omUpdatedAt (inMetadata i))"

definition runbook_ok :: "RunbookRef option \<Rightarrow> bool" where
  "runbook_ok r \<longleftrightarrow> (case r of None \<Rightarrow> True | Some b \<Rightarrow> ref_ok (rbID b) \<and> ref_ok (rbRevision b))"

lemma validateRunbook_iff [simp]: "validateRunbook r = Inr () \<longleftrightarrow> runbook_ok r"
  by (auto simp: validateRunbook_def runbook_ok_def split: option.splits)

lemma validateAcknowledgement_iff:
  "validateAcknowledgement (inStatus i) (inAcknowledgement i) (inStartedAt i) (omUpdatedAt (inMetadata i)) = Inr ()
     \<longleftrightarrow> acknowledgement_ok i"
  by (auto simp: validateAcknowledgement_def acknowledgement_ok_def split: option.splits)

lemma Incident_Validate_iff:
  "Incident_Validate i = Inr () \<longleftrightarrow>
     metadata_ok (inMetadata i) \<and> observation_ok i \<and> Status_Valid (inStatus i)
   \<and> inLastObservedAt i \<le> omUpdatedAt (inMetadata i) \<and> length (inTimeline i) \<le> maxTimelineEntries
   \<and> length (inEvidence i) \<le> maxEvidenceRefs \<and> evidence_set_ok (inEvidence i) \<and> runbook_ok (inRunbook i)
   \<and> acknowledgement_ok i \<and> timeline_ok i"
proof -
  have "timeline_ok i \<Longrightarrow> inTimeline i \<noteq> []" by (simp add: timeline_ok_def)
  then show ?thesis
    by (auto simp: Incident_Validate_def metadata_ok_def observation_ok_def validateAcknowledgement_iff)
qed

end
