(* ===== verification/Incident_Mutation.thy ===== *)
theory Incident_Mutation
  imports Incident_Model
begin

text \<open>
  Package \<^verbatim>\<open>internal/incidents\<close>, file \<^verbatim>\<open>mutation.go\<close>: the three operator mutations of an incident,
  acknowledgement, resolution and evidence update. Preparing a mutation has no side effect: it
  computes the successor or an error. Values are immutable here, so the deep copies
  (\<^verbatim>\<open>cloneIncident\<close>, \<^verbatim>\<open>cloneEvidence\<close>) are the values themselves.
\<close>

subsection \<open>Requests and results\<close>

record PreparedMutation =
  pmPrecondition :: ObjectPrecondition
  pmNext :: Incident
  pmDesiredChanged :: bool

record AcknowledgeRequest =
  aqPrecondition :: ObjectPrecondition
  aqActorID :: string
  aqOccurredAt :: "time"
  aqResourceVersion :: string
  aqNote :: string

record ResolveRequest =
  rqPrecondition :: ObjectPrecondition
  rqActorID :: string
  rqOccurredAt :: "time"
  rqResourceVersion :: string
  rqResolution :: string
  rqEvidence :: "EvidenceRef list"

record EvidenceUpdateRequest =
  eqPrecondition :: ObjectPrecondition
  eqActorID :: string
  eqOccurredAt :: "time"
  eqResourceVersion :: string
  eqRunbook :: "RunbookRef option"
  eqEvidence :: "EvidenceRef list"
  eqNote :: string

subsection \<open>Steps the mutations share\<close>

definition validateMutationBase ::
  "Incident \<Rightarrow> ObjectPrecondition \<Rightarrow> string \<Rightarrow> time \<Rightarrow> string \<Rightarrow> incident_error + unit" where
  "validateMutationBase current precondition actorID occurredAt resourceVersion = first_error
     [Incident_Validate current,
      map_error IncidentCore (ObjectPrecondition_ValidateAgainst precondition (inMetadata current)),
      map_error ErrInvalidAcknowledgement (validateRef ''actor_id'' actorID),
      require (\<not> IsZero occurredAt) (ErrInvalidTimeline ''occurred_at is required''),
      require (\<not> time_UTC occurredAt < omUpdatedAt (inMetadata current))
        (ErrIncidentStateConflict ''occurred_at precedes current updated_at''),
      require (\<not> (resourceVersion = [] \<or> resourceVersion = omResourceVersion (inMetadata current)))
        (IncidentCore (ErrInvalidTransition ''new resource_version is required''))]"

definition semanticSuccessor :: "Incident \<Rightarrow> time \<Rightarrow> string \<Rightarrow> incident_error + Incident" where
  "semanticSuccessor current at resourceVersion =
     (if omGeneration (inMetadata current) = - 1
      then Inl (IncidentCore (ErrInvalidTransition ''generation overflow''))
      else Inr (current\<lparr>inMetadata := (inMetadata current)
        \<lparr>omGeneration := omGeneration (inMetadata current) + 1, omResourceVersion := resourceVersion,
         omUpdatedAt := time_UTC at\<rparr>\<rparr>))"

definition evidenceEqual :: "EvidenceRef \<Rightarrow> EvidenceRef \<Rightarrow> bool" where
  "evidenceEqual a b \<longleftrightarrow> erKind a = erKind b \<and> erID a = erID b \<and> erSHA256 a = erSHA256 b
     \<and> erCollected a = erCollected b \<and> erRedaction a = erRedaction b"

definition runbookEqual :: "RunbookRef option \<Rightarrow> RunbookRef option \<Rightarrow> bool" where
  "runbookEqual a b \<longleftrightarrow>
     (case (a, b) of (Some x, Some y) \<Rightarrow> rbID x = rbID y \<and> rbRevision x = rbRevision y
      | _ \<Rightarrow> a = None \<and> b = None)"

definition same_identity :: "EvidenceRef \<Rightarrow> EvidenceRef \<Rightarrow> bool" where
  "same_identity a b \<longleftrightarrow> erKind a = erKind b \<and> erID a = erID b"

text \<open>The loop of \<^verbatim>\<open>mergeEvidence\<close> over the requested references; \<open>find\<close> is the inner loop with its \<^verbatim>\<open>break\<close>.\<close>

fun mergeEvidence_loop ::
  "time \<Rightarrow> nat \<Rightarrow> EvidenceRef list \<Rightarrow> EvidenceRef list \<Rightarrow> EvidenceRef list \<Rightarrow>
   incident_error + EvidenceRef list \<times> EvidenceRef list" where
  "mergeEvidence_loop occurredAt idx merged added [] = Inr (merged, added)"
| "mergeEvidence_loop occurredAt idx merged added (candidate # requested) =
     (if erCollected candidate > occurredAt
      then Inl (ErrInvalidEvidence (''evidence['' @ show_nat idx @ ''] is collected after occurred_at''))
      else case find (\<lambda>current. same_identity current candidate) merged of
        Some current \<Rightarrow>
          (if \<not> evidenceEqual current candidate
           then Inl (ErrIncidentEvidenceConflict (''evidence identity '' @ erKind candidate @ ''/'' @ erID candidate
             @ '' already has different metadata''))
           else mergeEvidence_loop occurredAt (Suc idx) merged added requested)
      | None \<Rightarrow> mergeEvidence_loop occurredAt (Suc idx) (merged @ [candidate]) (added @ [candidate]) requested)"

definition mergeEvidence ::
  "EvidenceRef list \<Rightarrow> EvidenceRef list \<Rightarrow> time \<Rightarrow> incident_error + EvidenceRef list \<times> EvidenceRef list" where
  "mergeEvidence existing requested occurredAt =
     (case mergeEvidence_loop occurredAt 0 existing [] requested of
        Inl e \<Rightarrow> Inl e
      | Inr (merged, added) \<Rightarrow>
          (if length merged > maxEvidenceRefs
           then Inl (ErrInvalidEvidence ''too many incident evidence references'')
           else Inr (merged, added)))"

text \<open>The end of every mutation: the successor is validated, alone and against the current object.\<close>

definition prepared ::
  "Incident \<Rightarrow> ObjectPrecondition \<Rightarrow> Incident \<Rightarrow> bool \<Rightarrow> incident_error + PreparedMutation" where
  "prepared current precondition nxt desiredChanged =
     (case first_error
        [Incident_Validate nxt,
         map_error IncidentCore (ValidateSuccessor (inMetadata current) (inMetadata nxt) desiredChanged)]
      of Inl e \<Rightarrow> Inl e
       | Inr _ \<Rightarrow> Inr \<lparr>pmPrecondition = precondition, pmNext = nxt, pmDesiredChanged = desiredChanged\<rparr>)"

subsection \<open>The mutations\<close>

definition PrepareAcknowledgement :: "Incident \<Rightarrow> AcknowledgeRequest \<Rightarrow> incident_error + PreparedMutation" where
  "PrepareAcknowledgement current request =
     (case first_error
        [validateMutationBase current (aqPrecondition request) (aqActorID request) (aqOccurredAt request)
           (aqResourceVersion request),
         require (inStatus current = StatusOpen) (ErrIncidentStateConflict
           (''acknowledge requires open incident, current status is '' @ status_text (inStatus current))),
         map_error ErrInvalidAcknowledgement
           (validateText ''acknowledgement.note'' (aqNote request) maxSummaryLength False)]
      of Inl e \<Rightarrow> Inl e
       | Inr _ \<Rightarrow>
         (let at = time_UTC (aqOccurredAt request) in
          case semanticSuccessor current at (aqResourceVersion request) of
            Inl e \<Rightarrow> Inl e
          | Inr nxt \<Rightarrow> prepared current (aqPrecondition request)
              (nxt\<lparr>inStatus := StatusAcknowledged,
                   inAcknowledgement := Some \<lparr>akActorID = aqActorID request, akAt = at\<rparr>,
                   inTimeline := inTimeline nxt @
                     [\<lparr>teKind = TimelineAcknowledged, teAt = at, teActorID = aqActorID request,
                       teSummary = aqNote request, teEvidence = []\<rparr>]\<rparr>) True))"

text \<open>The loop of \<^verbatim>\<open>PrepareResolution\<close> over the evidence.\<close>

fun collected_loop :: "time \<Rightarrow> nat \<Rightarrow> EvidenceRef list \<Rightarrow> incident_error + unit" where
  "collected_loop at idx [] = Inr ()"
| "collected_loop at idx (e # es) =
     (if erCollected e > at
      then Inl (ErrInvalidEvidence (''resolution evidence['' @ show_nat idx @ ''] is collected after occurred_at''))
      else collected_loop at (Suc idx) es)"

definition PrepareResolution :: "Incident \<Rightarrow> ResolveRequest \<Rightarrow> incident_error + PreparedMutation" where
  "PrepareResolution current request =
     (case first_error
        [validateMutationBase current (rqPrecondition request) (rqActorID request) (rqOccurredAt request)
           (rqResourceVersion request),
         require (inStatus current = StatusAcknowledged) (ErrIncidentStateConflict
           (''resolve requires acknowledged incident, current status is '' @ status_text (inStatus current))),
         map_error ErrInvalidTimeline (validateText ''resolution'' (rqResolution request) maxSummaryLength True),
         validateEvidenceSet (rqEvidence request),
         collected_loop (time_UTC (rqOccurredAt request)) 0 (rqEvidence request)]
      of Inl e \<Rightarrow> Inl e
       | Inr _ \<Rightarrow>
         (let at = time_UTC (rqOccurredAt request) in
          case semanticSuccessor current at (rqResourceVersion request) of
            Inl e \<Rightarrow> Inl e
          | Inr nxt \<Rightarrow> prepared current (rqPrecondition request)
              (nxt\<lparr>inStatus := StatusResolved,
                   inTimeline := inTimeline nxt @
                     [\<lparr>teKind = TimelineResolved, teAt = at, teActorID = rqActorID request,
                       teSummary = rqResolution request, teEvidence = rqEvidence request\<rparr>]\<rparr>) True))"

definition PrepareEvidenceUpdate :: "Incident \<Rightarrow> EvidenceUpdateRequest \<Rightarrow> incident_error + PreparedMutation" where
  "PrepareEvidenceUpdate current request =
     (case first_error
        [validateMutationBase current (eqPrecondition request) (eqActorID request) (eqOccurredAt request)
           (eqResourceVersion request),
         require (inStatus current \<noteq> StatusResolved)
           (ErrIncidentStateConflict ''resolved incident metadata is immutable''),
         map_error ErrInvalidTimeline (validateText ''evidence_update.note'' (eqNote request) maxSummaryLength True),
         validateRunbook (eqRunbook request),
         validateEvidenceSet (eqEvidence request)]
      of Inl e \<Rightarrow> Inl e
       | Inr _ \<Rightarrow>
         (let at = time_UTC (eqOccurredAt request) in
          case mergeEvidence (inEvidence current) (eqEvidence request) at of
            Inl e \<Rightarrow> Inl e
          | Inr (merged, added) \<Rightarrow>
             (let runbookChanged = eqRunbook request \<noteq> None \<and> \<not> runbookEqual (inRunbook current) (eqRunbook request) in
              if \<not> runbookChanged \<and> length added = 0 then Inl ErrIncidentNoChange
              else prepared current (eqPrecondition request)
                (current\<lparr>inMetadata := (inMetadata current)\<lparr>omUpdatedAt := at, omResourceVersion := eqResourceVersion request\<rparr>,
                   inRunbook := (if eqRunbook request \<noteq> None then eqRunbook request else inRunbook current),
                   inEvidence := merged,
                   inTimeline := inTimeline current @
                     [\<lparr>teKind = TimelineNote, teAt = at, teActorID = eqActorID request,
                       teSummary = eqNote request, teEvidence = added\<rparr>]\<rparr>) False)))"

subsection \<open>Histories of mutations\<close>

datatype operator_mutation =
    Acknowledge AcknowledgeRequest
  | Resolve ResolveRequest
  | UpdateEvidence EvidenceUpdateRequest

definition prepare_mutation :: "Incident \<Rightarrow> operator_mutation \<Rightarrow> incident_error + PreparedMutation" where
  "prepare_mutation current m =
     (case m of Acknowledge r \<Rightarrow> PrepareAcknowledgement current r
      | Resolve r \<Rightarrow> PrepareResolution current r
      | UpdateEvidence r \<Rightarrow> PrepareEvidenceUpdate current r)"

text \<open>The incident after a sequence of mutations, each prepared from the successor the one before left.\<close>

fun run_mutations :: "Incident \<Rightarrow> operator_mutation list \<Rightarrow> incident_error + Incident" where
  "run_mutations current [] = Inr current"
| "run_mutations current (m # ms) =
     (case prepare_mutation current m of Inl e \<Rightarrow> Inl e | Inr p \<Rightarrow> run_mutations (pmNext p) ms)"

subsection \<open>Merging evidence\<close>

definition ident :: "EvidenceRef \<Rightarrow> string \<times> string" where
  "ident e = (erKind e, erID e)"

definition new_evidence :: "EvidenceRef list \<Rightarrow> EvidenceRef list \<Rightarrow> EvidenceRef list" where
  "new_evidence existing requested = filter (\<lambda>x. ident x \<notin> ident ` set existing) requested"

lemma same_identity_iff: "same_identity a b \<longleftrightarrow> ident a = ident b"
  by (auto simp: same_identity_def ident_def)

lemma evidenceEqual_iff: "evidenceEqual a b \<longleftrightarrow> a = b"
  by (auto simp: evidenceEqual_def intro: EvidenceRef.equality)

lemma runbookEqual_iff: "runbookEqual a b \<longleftrightarrow> a = b"
  by (auto simp: runbookEqual_def split: option.splits intro: RunbookRef.equality)

lemma mergeEvidence_loop_iff:
  assumes "distinct (map ident merged)" "distinct (map ident req)"
  shows "mergeEvidence_loop at idx merged added req = Inr (m, a) \<longleftrightarrow>
     (\<forall>x \<in> set req. erCollected x \<le> at) \<and> (\<forall>x \<in> set req. \<forall>y \<in> set merged. ident y = ident x \<longrightarrow> y = x)
   \<and> m = merged @ new_evidence merged req \<and> a = added @ new_evidence merged req"
  using assms
proof (induction req arbitrary: idx merged added)
  case (Cons c req)
  show ?case
  proof (cases "find (\<lambda>current. same_identity current c) merged")
    case None
    then have fresh: "\<forall>y \<in> set merged. ident y \<noteq> ident c" by (auto simp: find_None_iff same_identity_iff)
    have other: "\<forall>x \<in> set req. ident x \<noteq> ident c" using Cons.prems(2) by (simp add: image_iff) metis
    have "new_evidence (merged @ [c]) req = new_evidence merged req"
      unfolding new_evidence_def by (rule filter_cong) (use other in auto)
    moreover have "distinct (map ident (merged @ [c]))" "distinct (map ident req)"
      using Cons.prems fresh by (auto simp: image_iff)
    moreover have "new_evidence merged (c # req) = c # new_evidence merged req"
      using fresh by (auto simp: new_evidence_def image_iff)
    ultimately show ?thesis using Cons.IH[of "merged @ [c]" "Suc idx" "added @ [c]"] fresh other
      by (auto simp: None)
  next
    case (Some y)
    then have y: "y \<in> set merged" "ident y = ident c" by (auto simp: find_Some_iff same_identity_iff)
    then have "new_evidence merged (c # req) = new_evidence merged req"
      by (auto simp: new_evidence_def intro: rev_image_eqI)
    moreover have "z = y" if "z \<in> set merged" "ident z = ident c" for z
      using that y Cons.prems(1) by (auto simp: distinct_map inj_on_def)
    then have "(\<forall>z \<in> set merged. ident z = ident c \<longrightarrow> z = c) \<longleftrightarrow> y = c" using y by blast
    moreover have "mergeEvidence_loop at idx merged added (c # req) = Inr (m, a) \<longleftrightarrow>
        erCollected c \<le> at \<and> y = c \<and> mergeEvidence_loop at (Suc idx) merged added req = Inr (m, a)"
      by (simp add: Some evidenceEqual_iff)
    ultimately show ?thesis using Cons.IH[of merged "Suc idx" added] Cons.prems by simp blast
  qed
qed (auto simp: new_evidence_def)

lemma mergeEvidence_iff:
  assumes "distinct (map ident existing)" "distinct (map ident req)"
  shows "mergeEvidence existing req at = Inr (m, a) \<longleftrightarrow>
     (\<forall>x \<in> set req. erCollected x \<le> at) \<and> (\<forall>x \<in> set req. \<forall>y \<in> set existing. ident y = ident x \<longrightarrow> y = x)
   \<and> length (existing @ new_evidence existing req) \<le> maxEvidenceRefs
   \<and> m = existing @ new_evidence existing req \<and> a = new_evidence existing req"
  unfolding mergeEvidence_def early_return_Inr
  by (auto simp: mergeEvidence_loop_iff[OF assms] split: prod.splits if_splits)

lemma evidence_set_ident:
  assumes "evidence_set_ok es" shows "distinct (map ident es)"
proof -
  have "list_all evidence_ok es" "distinct (map evidence_key es)" using assms by (auto simp: evidence_set_ok_def)
  then show ?thesis
    by (induction es) (auto simp: evidence_key_def ident_def)
qed

lemma evidence_set_merge:
  assumes "evidence_set_ok existing" "evidence_set_ok req"
  shows "evidence_set_ok (existing @ new_evidence existing req)"
    and "evidence_set_ok (new_evidence existing req)"
proof -
  show new: "evidence_set_ok (new_evidence existing req)"
    using assms(2) by (auto simp: evidence_set_ok_def new_evidence_def list_all_iff distinct_map_filter)
  have "evidence_key x \<noteq> evidence_key y" if "x \<in> set existing" "y \<in> set (new_evidence existing req)" for x y
  proof -
    have "evidence_ok x" "evidence_ok y" "ident y \<notin> ident ` set existing"
      using that assms by (auto simp: evidence_set_ok_def list_all_iff new_evidence_def)
    then show ?thesis using that(1) evidence_key_eq[of x y] by (auto simp: ident_def image_iff)
  qed
  then show "evidence_set_ok (existing @ new_evidence existing req)"
    using new assms(1) by (auto simp: evidence_set_ok_def list_all_iff)
qed

lemma collected_loop_iff: "collected_loop at idx es = Inr () \<longleftrightarrow> (\<forall>e \<in> set es. erCollected e \<le> at)"
  by (induction at idx es rule: collected_loop.induct) auto

subsection \<open>Successors\<close>

definition mutation_base :: "Incident \<Rightarrow> ObjectPrecondition \<Rightarrow> string \<Rightarrow> time \<Rightarrow> string \<Rightarrow> bool" where
  "mutation_base c p actor at rv \<longleftrightarrow> Incident_Validate c = Inr ()
     \<and> ObjectPrecondition_ValidateAgainst p (inMetadata c) = Inr () \<and> ref_ok actor \<and> at \<noteq> 0
     \<and> omUpdatedAt (inMetadata c) \<le> at \<and> rv \<noteq> omResourceVersion (inMetadata c)"

lemma validateMutationBase_iff:
  "validateMutationBase c p actor at rv = Inr () \<longleftrightarrow> mutation_base c p actor at rv \<and> rv \<noteq> []"
  by (auto simp: validateMutationBase_def mutation_base_def)

lemma entry_ok_mono:
  assumes "entry_ok c x" "inStartedAt n = inStartedAt c" "omUpdatedAt (inMetadata c) \<le> omUpdatedAt (inMetadata n)"
    and "inAcknowledgement n = inAcknowledgement c \<or> teKind x \<noteq> TimelineAcknowledged"
  shows "entry_ok n x"
proof -
  have "timeline_kind_check (inAcknowledgement n) x = timeline_kind_check (inAcknowledgement c) x"
    using assms(4) by (auto simp: timeline_kind_check_def split: TimelineKind.split)
  then show ?thesis using assms(1-3) by (auto simp: entry_ok_def)
qed

lemma open_no_acknowledgement:
  assumes "status_entries_ok StatusOpen ts" "x \<in> set ts"
  shows "teKind x \<noteq> TimelineAcknowledged"
  using assms by (auto simp: status_entries_ok_def entries_of_def Let_def filter_empty_conv)

lemma timeline_append:
  assumes c: "timeline_ok c" and n: "inTimeline n = inTimeline c @ [e]" "inStartedAt n = inStartedAt c"
    and later: "omUpdatedAt (inMetadata c) \<le> omUpdatedAt (inMetadata n)" "omUpdatedAt (inMetadata c) \<le> teAt e"
    and ack: "inAcknowledgement n = inAcknowledgement c \<or> inStatus c = StatusOpen"
    and e: "entry_ok n e" and st: "status_entries_ok (inStatus n) (inTimeline n)"
  shows "timeline_ok n"
proof -
  have old: "x \<in> set (inTimeline c) \<Longrightarrow> entry_ok c x" for x
    using c by (simp add: timeline_ok_def list_all_iff)
  have noack: "x \<in> set (inTimeline c) \<Longrightarrow> inStatus c = StatusOpen \<Longrightarrow> teKind x \<noteq> TimelineAcknowledged" for x
    using c open_no_acknowledgement by (auto simp: timeline_ok_def)
  have "list_all (entry_ok n) (inTimeline c)"
    unfolding list_all_iff using entry_ok_mono[OF old n(2) later(1)] ack noack by blast
  moreover have "sorted (map teAt (inTimeline n))"
    using c old later(2) by (auto simp: n timeline_ok_def sorted_append entry_ok_def intro: order_trans)
  ultimately show ?thesis using c e st by (auto simp: n timeline_ok_def)
qed

text \<open>
  What a mutation builds passes the final validation exactly when the new resource version is well
  formed and the timeline has room for one more entry.
\<close>

lemma successor_accepted:
  assumes valid: "Incident_Validate c = Inr ()" and at: "omUpdatedAt (inMetadata c) \<le> at" "at \<noteq> 0"
    and rv: "rv \<noteq> omResourceVersion (inMetadata c)"
    and want: "wantGeneration (omGeneration (inMetadata c)) d = Some g"
    and meta: "inMetadata n = (inMetadata c)\<lparr>omGeneration := g, omResourceVersion := rv, omUpdatedAt := at\<rparr>"
    and kept: "inSeverity n = inSeverity c" "inTitle n = inTitle c" "inStartedAt n = inStartedAt c"
      "inLastObservedAt n = inLastObservedAt c" "inAffectedResources n = inAffectedResources c" "inSignals n = inSignals c"
    and tl: "inTimeline n = inTimeline c @ [e]" "entry_ok n e" "teAt e = at"
    and ack: "acknowledgement_ok n" "inAcknowledgement n = inAcknowledgement c \<or> inStatus c = StatusOpen"
    and st: "Status_Valid (inStatus n)" "status_entries_ok (inStatus n) (inTimeline n)"
    and ev: "evidence_set_ok (inEvidence n)" "length (inEvidence n) \<le> maxEvidenceRefs" "runbook_ok (inRunbook n)"
  shows "prepared c pc n d = Inr p \<longleftrightarrow> validateOpaqueVersion rv = Inr () \<and> length (inTimeline c) < maxTimelineEntries
    \<and> p = \<lparr>pmPrecondition = pc, pmNext = n, pmDesiredChanged = d\<rparr>"
proof -
  note c = valid[unfolded Incident_Validate_iff]
  have gen: "g \<noteq> 0"
    using wantGeneration_unat[OF want] c metadata_generation[of "inMetadata c"] by (auto simp: unat_0_iff)
  have times: "omUpdatedAt (inMetadata n) = at" "omCreatedAt (inMetadata n) = omCreatedAt (inMetadata c)"
    by (simp_all add: meta)
  have m: "metadata_ok (inMetadata n) \<longleftrightarrow> validateOpaqueVersion rv = Inr ()"
    using c at gen by (auto simp: metadata_ok_def ObjectMetadata_Validate_def meta)
  have "timeline_ok n"
    by (rule timeline_append[where c = c and e = e]) (use c at tl kept ack st times in auto)
  moreover have "observation_ok n" using c by (auto simp: observation_ok_def kept times)
  moreover have "inLastObservedAt n \<le> omUpdatedAt (inMetadata n)" using c at kept times by auto
  moreover have "length (inTimeline n) \<le> maxTimelineEntries \<longleftrightarrow> length (inTimeline c) < maxTimelineEntries"
    by (auto simp: tl)
  ultimately have v: "Incident_Validate n = Inr () \<longleftrightarrow>
      validateOpaqueVersion rv = Inr () \<and> length (inTimeline c) < maxTimelineEntries"
    using st ev ack by (simp add: Incident_Validate_iff m)
  have s: "ValidateSuccessor (inMetadata c) (inMetadata n) d = Inr () \<longleftrightarrow> metadata_ok (inMetadata n)"
    using c at rv want by (auto simp: ValidateSuccessor_iff meta)
  show ?thesis unfolding prepared_def early_return_Inr using v s m by auto
qed

end
