(* ===== verification/Incident_History.thy ===== *)
theory Incident_History
  imports Incident_Mutation
begin

text \<open>
  When the operator mutations of an incident are accepted, and what a sequence of them leaves: an
  append-only record in which a resolution is always preceded by one acknowledgement.
\<close>

subsection \<open>Acceptance of a mutation\<close>

definition next_metadata :: "Incident \<Rightarrow> uint64 \<Rightarrow> string \<Rightarrow> time \<Rightarrow> ObjectMetadata" where
  "next_metadata c g rv at = (inMetadata c)\<lparr>omGeneration := g, omResourceVersion := rv, omUpdatedAt := at\<rparr>"

definition ack_entry :: "AcknowledgeRequest \<Rightarrow> TimelineEntry" where
  "ack_entry r = \<lparr>teKind = TimelineAcknowledged, teAt = aqOccurredAt r, teActorID = aqActorID r,
     teSummary = aqNote r, teEvidence = []\<rparr>"

definition resolve_entry :: "ResolveRequest \<Rightarrow> TimelineEntry" where
  "resolve_entry r = \<lparr>teKind = TimelineResolved, teAt = rqOccurredAt r, teActorID = rqActorID r,
     teSummary = rqResolution r, teEvidence = rqEvidence r\<rparr>"

definition note_entry :: "Incident \<Rightarrow> EvidenceUpdateRequest \<Rightarrow> TimelineEntry" where
  "note_entry c r = \<lparr>teKind = TimelineNote, teAt = eqOccurredAt r, teActorID = eqActorID r,
     teSummary = eqNote r, teEvidence = new_evidence (inEvidence c) (eqEvidence r)\<rparr>"

definition acknowledged :: "Incident \<Rightarrow> AcknowledgeRequest \<Rightarrow> Incident" where
  "acknowledged c r = c\<lparr>
     inMetadata := next_metadata c (omGeneration (inMetadata c) + 1) (aqResourceVersion r) (aqOccurredAt r),
     inStatus := StatusAcknowledged,
     inAcknowledgement := Some \<lparr>akActorID = aqActorID r, akAt = aqOccurredAt r\<rparr>,
     inTimeline := inTimeline c @ [ack_entry r]\<rparr>"

definition resolved :: "Incident \<Rightarrow> ResolveRequest \<Rightarrow> Incident" where
  "resolved c r = c\<lparr>
     inMetadata := next_metadata c (omGeneration (inMetadata c) + 1) (rqResourceVersion r) (rqOccurredAt r),
     inStatus := StatusResolved,
     inTimeline := inTimeline c @ [resolve_entry r]\<rparr>"

definition annotated :: "Incident \<Rightarrow> EvidenceUpdateRequest \<Rightarrow> Incident" where
  "annotated c r = c\<lparr>
     inMetadata := next_metadata c (omGeneration (inMetadata c)) (eqResourceVersion r) (eqOccurredAt r),
     inRunbook := (if eqRunbook r \<noteq> None then eqRunbook r else inRunbook c),
     inEvidence := inEvidence c @ new_evidence (inEvidence c) (eqEvidence r),
     inTimeline := inTimeline c @ [note_entry c r]\<rparr>"

lemma base_times:
  assumes "mutation_base c p actor at rv"
  shows "inStartedAt c \<le> at" "at \<noteq> 0" "omUpdatedAt (inMetadata c) \<le> at" "ref_ok actor" "actor \<noteq> []"
    "rv \<noteq> omResourceVersion (inMetadata c)"
  using assms by (auto simp: mutation_base_def Incident_Validate_iff observation_ok_def ref_ok_def)

lemma no_evidence_ok [simp]: "evidence_set_ok []"
  by (simp add: evidence_set_ok_def)

lemma opaque_nonempty: "validateOpaqueVersion rv = Inr () \<Longrightarrow> rv \<noteq> []"
  by (auto simp: validateOpaqueVersion_def)

lemma want_desired: "g \<noteq> - 1 \<Longrightarrow> wantGeneration g True = Some (g + 1)"
  by (simp add: wantGeneration_def)

lemma acknowledged_accepted:
  assumes base: "mutation_base c (aqPrecondition r) (aqActorID r) (aqOccurredAt r) (aqResourceVersion r)"
    and opened: "inStatus c = StatusOpen" and summ: "text_ok maxSummaryLength False (aqNote r)"
    and gen: "omGeneration (inMetadata c) \<noteq> - 1"
  shows "prepared c pc (acknowledged c r) True = Inr p \<longleftrightarrow>
     validateOpaqueVersion (aqResourceVersion r) = Inr () \<and> length (inTimeline c) < maxTimelineEntries
   \<and> p = \<lparr>pmPrecondition = pc, pmNext = acknowledged c r, pmDesiredChanged = True\<rparr>"
proof -
  note t = base_times[OF base]
  have v: "Incident_Validate c = Inr ()" using base by (simp add: mutation_base_def)
  note c = v[unfolded Incident_Validate_iff]
  have "status_entries_ok StatusOpen (inTimeline c)" using c opened by (simp add: timeline_ok_def)
  then have st: "status_entries_ok (inStatus (acknowledged c r)) (inTimeline (acknowledged c r))"
    by (simp add: status_entries_ok_def Let_def acknowledged_def ack_entry_def)
  show ?thesis
    by (rule successor_accepted[where c = c and at = "aqOccurredAt r" and e = "ack_entry r", OF v t(3,2,6) want_desired[OF gen]])
       (use st t summ c opened in \<open>simp_all add: acknowledged_def ack_entry_def next_metadata_def entry_ok_def timeline_kind_check_def
          TimelineKind_Valid_def acknowledgement_ok_def Status_Valid_def\<close>)
qed

lemma resolved_accepted:
  assumes base: "mutation_base c (rqPrecondition r) (rqActorID r) (rqOccurredAt r) (rqResourceVersion r)"
    and status: "inStatus c = StatusAcknowledged" and summ: "text_ok maxSummaryLength True (rqResolution r)"
    and ev: "evidence_set_ok (rqEvidence r)" "length (rqEvidence r) \<le> maxEvidenceRefs"
    and gen: "omGeneration (inMetadata c) \<noteq> - 1"
  shows "prepared c pc (resolved c r) True = Inr p \<longleftrightarrow>
     validateOpaqueVersion (rqResourceVersion r) = Inr () \<and> length (inTimeline c) < maxTimelineEntries
   \<and> p = \<lparr>pmPrecondition = pc, pmNext = resolved c r, pmDesiredChanged = True\<rparr>"
proof -
  note t = base_times[OF base]
  have v: "Incident_Validate c = Inr ()" using base by (simp add: mutation_base_def)
  note c = v[unfolded Incident_Validate_iff]
  have "status_entries_ok StatusAcknowledged (inTimeline c)" using c status by (simp add: timeline_ok_def)
  then have st: "status_entries_ok (inStatus (resolved c r)) (inTimeline (resolved c r))"
    by (simp add: status_entries_ok_def Let_def resolved_def resolve_entry_def)
  have "text_ok maxSummaryLength False (rqResolution r)" using summ by (simp add: text_ok_def)
  moreover have "acknowledgement_ok (resolved c r)"
    using c status t by (auto simp: acknowledgement_ok_def resolved_def next_metadata_def split: option.splits)
  ultimately show ?thesis
    by (intro successor_accepted[where c = c and at = "rqOccurredAt r" and e = "resolve_entry r", OF v t(3,2,6) want_desired[OF gen]])
       (use st t ev c in \<open>simp_all add: resolved_def resolve_entry_def next_metadata_def entry_ok_def timeline_kind_check_def
          TimelineKind_Valid_def Status_Valid_def\<close>)
qed

lemma next_metadata_same:
  "next_metadata c (omGeneration (inMetadata c)) rv at = (inMetadata c)\<lparr>omUpdatedAt := at, omResourceVersion := rv\<rparr>"
  by (cases "inMetadata c") (simp add: next_metadata_def)

lemma annotated_accepted:
  assumes base: "mutation_base c (eqPrecondition r) (eqActorID r) (eqOccurredAt r) (eqResourceVersion r)"
    and status: "inStatus c \<noteq> StatusResolved" and summ: "text_ok maxSummaryLength True (eqNote r)"
    and ev: "evidence_set_ok (eqEvidence r)" "runbook_ok (eqRunbook r)"
      "length (inEvidence c @ new_evidence (inEvidence c) (eqEvidence r)) \<le> maxEvidenceRefs"
  shows "prepared c pc (annotated c r) False = Inr p \<longleftrightarrow>
     validateOpaqueVersion (eqResourceVersion r) = Inr () \<and> length (inTimeline c) < maxTimelineEntries
   \<and> p = \<lparr>pmPrecondition = pc, pmNext = annotated c r, pmDesiredChanged = False\<rparr>"
proof -
  note t = base_times[OF base]
  have v: "Incident_Validate c = Inr ()" using base by (simp add: mutation_base_def)
  note c = v[unfolded Incident_Validate_iff]
  have "status_entries_ok (inStatus c) (inTimeline c)" using c by (simp add: timeline_ok_def)
  then have st: "status_entries_ok (inStatus (annotated c r)) (inTimeline (annotated c r))"
    using status by (simp add: status_entries_ok_def Let_def annotated_def note_entry_def)
  have want: "wantGeneration (omGeneration (inMetadata c)) False = Some (omGeneration (inMetadata c))"
    by (simp add: wantGeneration_def)
  have "evidence_set_ok (inEvidence c)" using c by simp
  note merged = evidence_set_merge[OF this ev(1)]
  have "text_ok maxSummaryLength False (eqNote r)" using summ by (simp add: text_ok_def)
  moreover have "acknowledgement_ok (annotated c r)"
    using c t by (auto simp: acknowledgement_ok_def annotated_def next_metadata_def split: option.splits if_splits)
  ultimately show ?thesis
    by (intro successor_accepted[where c = c and at = "eqOccurredAt r" and e = "note_entry c r", OF v t(3,2,6) want])
       (use st t ev merged c in \<open>simp_all add: annotated_def note_entry_def next_metadata_def entry_ok_def
          timeline_kind_check_def TimelineKind_Valid_def\<close>)
qed

lemma PrepareAcknowledgement_iff:
  "PrepareAcknowledgement c r = Inr p \<longleftrightarrow>
     mutation_base c (aqPrecondition r) (aqActorID r) (aqOccurredAt r) (aqResourceVersion r)
   \<and> inStatus c = StatusOpen \<and> text_ok maxSummaryLength False (aqNote r) \<and> omGeneration (inMetadata c) \<noteq> - 1
   \<and> validateOpaqueVersion (aqResourceVersion r) = Inr () \<and> length (inTimeline c) < maxTimelineEntries
   \<and> p = \<lparr>pmPrecondition = aqPrecondition r, pmNext = acknowledged c r, pmDesiredChanged = True\<rparr>"
proof -
  define guards where "guards \<longleftrightarrow> mutation_base c (aqPrecondition r) (aqActorID r) (aqOccurredAt r) (aqResourceVersion r)
     \<and> inStatus c = StatusOpen \<and> text_ok maxSummaryLength False (aqNote r) \<and> omGeneration (inMetadata c) \<noteq> - 1"
  have "PrepareAcknowledgement c r = Inr p \<longleftrightarrow> guards \<and> aqResourceVersion r \<noteq> []
      \<and> prepared c (aqPrecondition r) (acknowledged c r) True = Inr p"
    unfolding PrepareAcknowledgement_def early_return_Inr Let_def guards_def
    by (auto simp: validateMutationBase_iff semanticSuccessor_def acknowledged_def next_metadata_def ack_entry_def)
  then show ?thesis using acknowledged_accepted opaque_nonempty unfolding guards_def by blast
qed

lemma PrepareResolution_iff:
  "PrepareResolution c r = Inr p \<longleftrightarrow>
     mutation_base c (rqPrecondition r) (rqActorID r) (rqOccurredAt r) (rqResourceVersion r)
   \<and> inStatus c = StatusAcknowledged \<and> text_ok maxSummaryLength True (rqResolution r)
   \<and> evidence_set_ok (rqEvidence r) \<and> length (rqEvidence r) \<le> maxEvidenceRefs
   \<and> list_all (\<lambda>e. erCollected e \<le> rqOccurredAt r) (rqEvidence r) \<and> omGeneration (inMetadata c) \<noteq> - 1
   \<and> validateOpaqueVersion (rqResourceVersion r) = Inr () \<and> length (inTimeline c) < maxTimelineEntries
   \<and> p = \<lparr>pmPrecondition = rqPrecondition r, pmNext = resolved c r, pmDesiredChanged = True\<rparr>"
proof -
  define guards where "guards \<longleftrightarrow> mutation_base c (rqPrecondition r) (rqActorID r) (rqOccurredAt r) (rqResourceVersion r)
     \<and> inStatus c = StatusAcknowledged \<and> text_ok maxSummaryLength True (rqResolution r) \<and> evidence_set_ok (rqEvidence r)
     \<and> list_all (\<lambda>e. erCollected e \<le> rqOccurredAt r) (rqEvidence r) \<and> omGeneration (inMetadata c) \<noteq> - 1"
  have "PrepareResolution c r = Inr p \<longleftrightarrow> guards \<and> rqResourceVersion r \<noteq> []
      \<and> prepared c (rqPrecondition r) (resolved c r) True = Inr p"
    unfolding PrepareResolution_def early_return_Inr Let_def guards_def
    by (auto simp: validateMutationBase_iff semanticSuccessor_def resolved_def next_metadata_def resolve_entry_def
        collected_loop_iff list_all_iff)
  moreover have "prepared c (rqPrecondition r) (resolved c r) True = Inr p \<Longrightarrow> length (rqEvidence r) \<le> maxEvidenceRefs"
    unfolding prepared_def early_return_Inr
    by (auto simp: Incident_Validate_iff timeline_ok_def resolved_def resolve_entry_def entry_ok_def)
  ultimately show ?thesis using resolved_accepted opaque_nonempty unfolding guards_def by blast
qed

text \<open>No requested reference has the identity of a recorded one with other metadata; the update changes something.\<close>

definition not_rebound :: "Incident \<Rightarrow> EvidenceUpdateRequest \<Rightarrow> bool" where
  "not_rebound c r \<longleftrightarrow> (\<forall>e \<in> set (eqEvidence r). \<forall>d \<in> set (inEvidence c). ident d = ident e \<longrightarrow> d = e)"

definition effective :: "Incident \<Rightarrow> EvidenceUpdateRequest \<Rightarrow> bool" where
  "effective c r \<longleftrightarrow> eqRunbook r \<noteq> None \<and> eqRunbook r \<noteq> inRunbook c \<or> new_evidence (inEvidence c) (eqEvidence r) \<noteq> []"

lemma PrepareEvidenceUpdate_iff:
  "PrepareEvidenceUpdate c r = Inr p \<longleftrightarrow>
     mutation_base c (eqPrecondition r) (eqActorID r) (eqOccurredAt r) (eqResourceVersion r)
   \<and> inStatus c \<noteq> StatusResolved \<and> text_ok maxSummaryLength True (eqNote r) \<and> runbook_ok (eqRunbook r)
   \<and> evidence_set_ok (eqEvidence r) \<and> list_all (\<lambda>e. erCollected e \<le> eqOccurredAt r) (eqEvidence r)
   \<and> not_rebound c r
   \<and> length (inEvidence c @ new_evidence (inEvidence c) (eqEvidence r)) \<le> maxEvidenceRefs
   \<and> effective c r
   \<and> validateOpaqueVersion (eqResourceVersion r) = Inr () \<and> length (inTimeline c) < maxTimelineEntries
   \<and> p = \<lparr>pmPrecondition = eqPrecondition r, pmNext = annotated c r, pmDesiredChanged = False\<rparr>"
proof -
  define base where "base \<longleftrightarrow> mutation_base c (eqPrecondition r) (eqActorID r) (eqOccurredAt r) (eqResourceVersion r)
     \<and> inStatus c \<noteq> StatusResolved \<and> text_ok maxSummaryLength True (eqNote r) \<and> runbook_ok (eqRunbook r)
     \<and> evidence_set_ok (eqEvidence r)"
  define merges where "merges \<longleftrightarrow> list_all (\<lambda>e. erCollected e \<le> eqOccurredAt r) (eqEvidence r)
     \<and> not_rebound c r
     \<and> length (inEvidence c @ new_evidence (inEvidence c) (eqEvidence r)) \<le> maxEvidenceRefs"
  have m: "mergeEvidence (inEvidence c) (eqEvidence r) (eqOccurredAt r) = Inr (m, a) \<longleftrightarrow>
      merges \<and> m = inEvidence c @ new_evidence (inEvidence c) (eqEvidence r) \<and> a = new_evidence (inEvidence c) (eqEvidence r)"
    if "base" for m a
  proof -
    have "distinct (map ident (inEvidence c))" "distinct (map ident (eqEvidence r))"
      using \<open>base\<close> by (auto simp: base_def mutation_base_def Incident_Validate_iff intro: evidence_set_ident)
    from mergeEvidence_iff[OF this] show ?thesis by (auto simp: merges_def not_rebound_def list_all_iff)
  qed
  have "PrepareEvidenceUpdate c r = Inr p \<longleftrightarrow> base \<and> eqResourceVersion r \<noteq> []
      \<and> (\<exists>m a. mergeEvidence (inEvidence c) (eqEvidence r) (eqOccurredAt r) = Inr (m, a)
         \<and> (eqRunbook r \<noteq> None \<and> eqRunbook r \<noteq> inRunbook c \<or> a \<noteq> [])
         \<and> prepared c (eqPrecondition r) (c\<lparr>inMetadata := (inMetadata c)\<lparr>omUpdatedAt := eqOccurredAt r,
               omResourceVersion := eqResourceVersion r\<rparr>,
             inRunbook := (if eqRunbook r \<noteq> None then eqRunbook r else inRunbook c), inEvidence := m,
             inTimeline := inTimeline c @ [\<lparr>teKind = TimelineNote, teAt = eqOccurredAt r, teActorID = eqActorID r,
               teSummary = eqNote r, teEvidence = a\<rparr>]\<rparr>) False = Inr p)"
    unfolding PrepareEvidenceUpdate_def early_return_Inr Let_def base_def
    by (auto simp: validateMutationBase_iff runbookEqual_iff split: prod.splits if_splits)
  also have "\<dots> \<longleftrightarrow> base \<and> eqResourceVersion r \<noteq> [] \<and> merges \<and> effective c r
      \<and> prepared c (eqPrecondition r) (annotated c r) False = Inr p"
    by (cases base) (auto simp: m effective_def annotated_def note_entry_def next_metadata_same)
  finally have "PrepareEvidenceUpdate c r = Inr p \<longleftrightarrow> base \<and> eqResourceVersion r \<noteq> [] \<and> merges \<and> effective c r
      \<and> prepared c (eqPrecondition r) (annotated c r) False = Inr p" .
  then show ?thesis using annotated_accepted[of c r "eqPrecondition r" p] opaque_nonempty
    unfolding base_def merges_def by blast
qed

subsection \<open>One step of a history\<close>

definition mutation_at :: "operator_mutation \<Rightarrow> time" where
  "mutation_at m = (case m of Acknowledge r \<Rightarrow> aqOccurredAt r | Resolve r \<Rightarrow> rqOccurredAt r | UpdateEvidence r \<Rightarrow> eqOccurredAt r)"

definition mutation_actor :: "operator_mutation \<Rightarrow> string" where
  "mutation_actor m = (case m of Acknowledge r \<Rightarrow> aqActorID r | Resolve r \<Rightarrow> rqActorID r | UpdateEvidence r \<Rightarrow> eqActorID r)"

definition mutation_kind :: "operator_mutation \<Rightarrow> TimelineKind" where
  "mutation_kind m = (case m of Acknowledge r \<Rightarrow> TimelineAcknowledged | Resolve r \<Rightarrow> TimelineResolved | UpdateEvidence r \<Rightarrow> TimelineNote)"

definition mutation_precondition :: "operator_mutation \<Rightarrow> ObjectPrecondition" where
  "mutation_precondition m = (case m of Acknowledge r \<Rightarrow> aqPrecondition r | Resolve r \<Rightarrow> rqPrecondition r | UpdateEvidence r \<Rightarrow> eqPrecondition r)"

definition is_update :: "operator_mutation \<Rightarrow> bool" where
  "is_update m \<longleftrightarrow> (case m of UpdateEvidence r \<Rightarrow> True | _ \<Rightarrow> False)"

lemmas mutation_views = mutation_at_def mutation_actor_def mutation_kind_def mutation_precondition_def is_update_def

definition records :: "operator_mutation \<Rightarrow> TimelineEntry \<Rightarrow> bool" where
  "records m e \<longleftrightarrow> teKind e = mutation_kind m \<and> teAt e = mutation_at m \<and> teActorID e = mutation_actor m"

text \<open>What no operator mutation changes: the identity of the object and what was observed.\<close>

definition same_observation :: "Incident \<Rightarrow> Incident \<Rightarrow> bool" where
  "same_observation c i \<longleftrightarrow> omObjectID (inMetadata i) = omObjectID (inMetadata c)
     \<and> omScopeID (inMetadata i) = omScopeID (inMetadata c) \<and> omOwnerScope (inMetadata i) = omOwnerScope (inMetadata c)
     \<and> omCreatedAt (inMetadata i) = omCreatedAt (inMetadata c) \<and> inSeverity i = inSeverity c \<and> inTitle i = inTitle c
     \<and> inStartedAt i = inStartedAt c \<and> inLastObservedAt i = inLastObservedAt c
     \<and> inAffectedResources i = inAffectedResources c \<and> inSignals i = inSignals c"

lemma same_observation_trans: "same_observation a b \<Longrightarrow> same_observation b c \<Longrightarrow> same_observation a c"
  by (simp add: same_observation_def)

definition status_step :: "Incident \<Rightarrow> operator_mutation \<Rightarrow> Incident \<Rightarrow> bool" where
  "status_step c m n \<longleftrightarrow>
     (case m of
        Acknowledge r \<Rightarrow> inStatus c = StatusOpen \<and> inStatus n = StatusAcknowledged
          \<and> inAcknowledgement n = Some \<lparr>akActorID = aqActorID r, akAt = aqOccurredAt r\<rparr>
      | Resolve r \<Rightarrow> inStatus c = StatusAcknowledged \<and> inStatus n = StatusResolved \<and> inAcknowledgement n = inAcknowledgement c
      | UpdateEvidence r \<Rightarrow> inStatus c \<noteq> StatusResolved \<and> inStatus n = inStatus c \<and> inAcknowledgement n = inAcknowledgement c)"

lemma prepared_Inr:
  assumes "prepared c pc n d = Inr p"
  shows "Incident_Validate n = Inr () \<and> ValidateSuccessor (inMetadata c) (inMetadata n) d = Inr () \<and> pmNext p = n
    \<and> pmPrecondition p = pc \<and> pmDesiredChanged p = d"
  using assms unfolding prepared_def early_return_Inr by auto

lemma mutation_prepared:
  assumes "prepare_mutation c m = Inr p"
  shows "mutation_base c (mutation_precondition m) (mutation_actor m) (mutation_at m) (omResourceVersion (inMetadata (pmNext p)))
    \<and> prepared c (mutation_precondition m) (pmNext p) (\<not> is_update m) = Inr p"
proof (cases m)
  case (Acknowledge r)
  then show ?thesis using assms acknowledged_accepted[of c r "aqPrecondition r" p]
    by (simp add: prepare_mutation_def PrepareAcknowledgement_iff mutation_views acknowledged_def next_metadata_def)
next
  case (Resolve r)
  then show ?thesis using assms resolved_accepted[of c r "rqPrecondition r" p]
    by (simp add: prepare_mutation_def PrepareResolution_iff mutation_views resolved_def next_metadata_def)
next
  case (UpdateEvidence r)
  then show ?thesis using assms annotated_accepted[of c r "eqPrecondition r" p]
    by (simp add: prepare_mutation_def PrepareEvidenceUpdate_iff mutation_views annotated_def next_metadata_def)
qed

lemma mutation_valid:
  assumes "prepare_mutation c m = Inr p"
  shows "Incident_Validate c = Inr ()" "Incident_Validate (pmNext p) = Inr ()"
    "ObjectPrecondition_ValidateAgainst (mutation_precondition m) (inMetadata c) = Inr ()"
    "ValidateSuccessor (inMetadata c) (inMetadata (pmNext p)) (\<not> is_update m) = Inr ()"
    "omUpdatedAt (inMetadata c) \<le> mutation_at m"
  using mutation_prepared[OF assms] prepared_Inr[of c _ "pmNext p" _ p] by (auto simp: mutation_base_def)

lemma mutation_effect:
  assumes "prepare_mutation c m = Inr p"
  shows "same_observation c (pmNext p)" "status_step c m (pmNext p)"
    "\<exists>e. inTimeline (pmNext p) = inTimeline c @ [e] \<and> records m e"
    "\<exists>es. inEvidence (pmNext p) = inEvidence c @ es"
    "omUpdatedAt (inMetadata (pmNext p)) = mutation_at m"
  using assms
  by (cases m; simp add: prepare_mutation_def PrepareAcknowledgement_iff PrepareResolution_iff PrepareEvidenceUpdate_iff
      mutation_views acknowledged_def resolved_def annotated_def next_metadata_def ack_entry_def resolve_entry_def
      note_entry_def same_observation_def status_step_def records_def; blast?)+

subsection \<open>Histories\<close>

lemma run_mutations_Cons:
  "run_mutations c (m # ms) = Inr i \<longleftrightarrow> (\<exists>p. prepare_mutation c m = Inr p \<and> run_mutations (pmNext p) ms = Inr i)"
  by (simp add: early_return_Inr)

lemma run_mutations_valid: "Incident_Validate c = Inr () \<Longrightarrow> run_mutations c ms = Inr i \<Longrightarrow> Incident_Validate i = Inr ()"
proof (induction ms arbitrary: c)
  case (Cons m ms)
  then show ?case unfolding run_mutations_Cons using mutation_valid(2) by blast
qed simp

lemma run_mutations_kept:
  "run_mutations c ms = Inr i \<Longrightarrow> same_observation c i \<and> (\<exists>es. inEvidence i = inEvidence c @ es)"
proof (induction ms arbitrary: c)
  case (Cons m ms)
  obtain p where p: "prepare_mutation c m = Inr p" "run_mutations (pmNext p) ms = Inr i"
    using Cons.prems unfolding run_mutations_Cons by blast
  obtain e1 e2 where "inEvidence (pmNext p) = inEvidence c @ e1" "inEvidence i = inEvidence (pmNext p) @ e2"
    using mutation_effect(4)[OF p(1)] Cons.IH[OF p(2)] by blast
  then show ?case using same_observation_trans[OF mutation_effect(1)[OF p(1)]] Cons.IH[OF p(2)] by simp
qed (simp add: same_observation_def)

lemma run_mutations_timeline:
  "run_mutations c ms = Inr i \<Longrightarrow> \<exists>ts. inTimeline i = inTimeline c @ ts \<and> list_all2 records ms ts"
proof (induction ms arbitrary: c)
  case (Cons m ms)
  obtain p where p: "prepare_mutation c m = Inr p" "run_mutations (pmNext p) ms = Inr i"
    using Cons.prems unfolding run_mutations_Cons by blast
  obtain e ts where "inTimeline (pmNext p) = inTimeline c @ [e]" "records m e"
      "inTimeline i = inTimeline (pmNext p) @ ts" "list_all2 records ms ts"
    using mutation_effect(3)[OF p(1)] Cons.IH[OF p(2)] by blast
  then have "inTimeline i = inTimeline c @ e # ts \<and> list_all2 records (m # ms) (e # ts)" by simp
  then show ?case by blast
qed simp

lemma run_mutations_generation:
  "run_mutations c ms = Inr i \<Longrightarrow>
   unat (omGeneration (inMetadata i)) = unat (omGeneration (inMetadata c)) + length (filter (\<lambda>m. \<not> is_update m) ms)"
proof (induction ms arbitrary: c)
  case (Cons m ms)
  obtain p where p: "prepare_mutation c m = Inr p" "run_mutations (pmNext p) ms = Inr i"
    using Cons.prems unfolding run_mutations_Cons by blast
  have "unat (omGeneration (inMetadata (pmNext p))) = unat (omGeneration (inMetadata c)) + (if \<not> is_update m then 1 else 0)"
    using mutation_valid(4)[OF p(1)] wantGeneration_unat by (auto simp: ValidateSuccessor_iff)
  then show ?case using Cons.IH[OF p(2)] by simp
qed simp

lemma run_mutations_sorted:
  "run_mutations c ms = Inr i \<Longrightarrow>
   sorted (map mutation_at ms) \<and> (ms \<noteq> [] \<longrightarrow> omUpdatedAt (inMetadata c) \<le> mutation_at (hd ms))"
proof (induction ms arbitrary: c)
  case (Cons m ms)
  obtain p where p: "prepare_mutation c m = Inr p" "run_mutations (pmNext p) ms = Inr i"
    using Cons.prems unfolding run_mutations_Cons by blast
  have "sorted (map mutation_at (m # ms)) \<longleftrightarrow> sorted (map mutation_at ms) \<and> (ms \<noteq> [] \<longrightarrow> mutation_at m \<le> mutation_at (hd ms))"
    by (cases ms) auto
  then show ?case using Cons.IH[OF p(2)] mutation_valid(5)[OF p(1)] mutation_effect(5)[OF p(1)] by simp
qed simp

lemma run_from_resolved: "inStatus c = StatusResolved \<Longrightarrow> run_mutations c ms = Inr i \<Longrightarrow> ms = [] \<and> i = c"
proof (cases ms)
  case (Cons m ms')
  assume "inStatus c = StatusResolved" "run_mutations c ms = Inr i"
  then show ?thesis using mutation_effect(2)[of c m]
    by (auto simp: Cons early_return_Inr status_step_def split: operator_mutation.splits)
qed simp

lemma run_from_acknowledged:
  "inStatus c = StatusAcknowledged \<Longrightarrow> run_mutations c ms = Inr i \<Longrightarrow>
   inAcknowledgement i = inAcknowledgement c
   \<and> (list_all is_update ms \<and> inStatus i = StatusAcknowledged
      \<or> (\<exists>vs r. ms = vs @ [Resolve r] \<and> list_all is_update vs \<and> inStatus i = StatusResolved))"
proof (induction ms arbitrary: c)
  case (Cons m ms)
  obtain p where p: "prepare_mutation c m = Inr p" "run_mutations (pmNext p) ms = Inr i"
    using Cons.prems unfolding run_mutations_Cons by blast
  note st = mutation_effect(2)[OF p(1)]
  show ?case
  proof (cases m)
    case (Resolve r)
    then have "ms = [] \<and> i = pmNext p" using st run_from_resolved[OF _ p(2)] by (simp add: status_step_def)
    then show ?thesis using st by (auto simp: Resolve status_step_def)
  next
    case (UpdateEvidence r)
    then have "inStatus (pmNext p) = StatusAcknowledged" "inAcknowledgement (pmNext p) = inAcknowledgement c"
      using st Cons.prems by (simp_all add: status_step_def)
    then show ?thesis using Cons.IH[OF _ p(2)] by (auto simp: UpdateEvidence is_update_def intro: exI[of _ "UpdateEvidence r # _"])
  qed (use st Cons.prems in \<open>simp add: status_step_def\<close>)
qed simp

lemma run_from_open:
  "inStatus c = StatusOpen \<Longrightarrow> run_mutations c ms = Inr i \<Longrightarrow>
   list_all is_update ms \<and> inStatus i = StatusOpen
   \<or> (\<exists>us a vs. ms = us @ Acknowledge a # vs \<and> list_all is_update us
       \<and> inAcknowledgement i = Some \<lparr>akActorID = aqActorID a, akAt = aqOccurredAt a\<rparr>
       \<and> (list_all is_update vs \<and> inStatus i = StatusAcknowledged
          \<or> (\<exists>ws r. vs = ws @ [Resolve r] \<and> list_all is_update ws \<and> inStatus i = StatusResolved)))"
proof (induction ms arbitrary: c)
  case (Cons m ms)
  obtain p where p: "prepare_mutation c m = Inr p" "run_mutations (pmNext p) ms = Inr i"
    using Cons.prems unfolding run_mutations_Cons by blast
  note st = mutation_effect(2)[OF p(1)]
  show ?case
  proof (cases m)
    case (Acknowledge a)
    then have "inStatus (pmNext p) = StatusAcknowledged"
        "inAcknowledgement (pmNext p) = Some \<lparr>akActorID = aqActorID a, akAt = aqOccurredAt a\<rparr>"
      using st by (simp_all add: status_step_def)
    then show ?thesis using run_from_acknowledged[OF _ p(2)]
      by (intro disjI2 exI[of _ "[]"] exI[of _ a] exI[of _ ms]) (auto simp: Acknowledge)
  next
    case (UpdateEvidence r)
    have "inStatus (pmNext p) = StatusOpen" using st Cons.prems UpdateEvidence by (simp add: status_step_def)
    from Cons.IH[OF this p(2)] show ?thesis
    proof (elim disjE exE conjE, goal_cases)
      case (2 us a vs) then show ?case
        by (intro disjI2 exI[of _ "m # us"] exI[of _ a] exI[of _ vs]) (simp add: UpdateEvidence is_update_def)
    next
      case (3 us a vs ws r) then show ?case
        by (intro disjI2 exI[of _ "m # us"] exI[of _ a] exI[of _ vs]) (simp add: UpdateEvidence is_update_def)
    qed (simp add: UpdateEvidence is_update_def)
  qed (use st Cons.prems in \<open>simp add: status_step_def\<close>)
qed simp

subsection \<open>A concrete history\<close>

text \<open>An incident with one resource and one signal, annotated, acknowledged and resolved.\<close>

definition w_incident :: Incident where
  "w_incident = \<lparr>inMetadata = \<lparr>omObjectID = ''n'', omScopeID = ''s'', omOwnerScope = ''s'', omGeneration = 1,
       omResourceVersion = ''a'', omCreatedAt = 1, omUpdatedAt = 2\<rparr>,
     inSeverity = SeverityCritical, inStatus = StatusOpen, inTitle = ''x'', inStartedAt = 1, inLastObservedAt = 2,
     inAffectedResources = [\<lparr>rrKind = ''n'', rrID = ''n'', rrScopeID = ''s''\<rparr>],
     inSignals = [\<lparr>sgID = ''n'', sgKind = ''n'', sgSource = ''n'', sgObservedAt = 2, sgSummary = ''x'', sgEvidence = []\<rparr>],
     inTimeline = [\<lparr>teKind = TimelineOpened, teAt = 1, teActorID = [], teSummary = [], teEvidence = []\<rparr>],
     inRunbook = None, inAcknowledgement = None, inEvidence = []\<rparr>"

definition w_evidence :: EvidenceRef where
  "w_evidence = \<lparr>erKind = ''n'', erID = ''n'', erSHA256 = [], erCollected = 2, erRedaction = RedactionApplied\<rparr>"

definition w_precondition :: "string \<Rightarrow> ObjectPrecondition" where
  "w_precondition v = \<lparr>opObjectID = ''n'', opResourceVersion = v, opGeneration = None\<rparr>"

definition w_update :: EvidenceUpdateRequest where
  "w_update = \<lparr>eqPrecondition = w_precondition ''a'', eqActorID = ''n'', eqOccurredAt = 3, eqResourceVersion = ''b'',
     eqRunbook = None, eqEvidence = [w_evidence], eqNote = ''x''\<rparr>"

definition w_ack :: AcknowledgeRequest where
  "w_ack = \<lparr>aqPrecondition = w_precondition ''b'', aqActorID = ''n'', aqOccurredAt = 4, aqResourceVersion = ''c'', aqNote = []\<rparr>"

definition w_resolve :: ResolveRequest where
  "w_resolve = \<lparr>rqPrecondition = w_precondition ''c'', rqActorID = ''n'', rqOccurredAt = 5, rqResourceVersion = ''d'',
     rqResolution = ''x'', rqEvidence = []\<rparr>"

definition w_resolved :: Incident where
  "w_resolved = resolved (acknowledged (annotated w_incident w_update) w_ack) w_resolve"

lemmas w_values = w_incident_def w_evidence_def w_precondition_def w_update_def w_ack_def w_resolve_def
lemmas w_successors = acknowledged_def resolved_def annotated_def next_metadata_def ack_entry_def resolve_entry_def
  note_entry_def

lemma w_texts:
  "ref_ok ''n''" "ref_ok ''s''" "text_ok k False []" "0 < k \<Longrightarrow> text_ok k req ''x''"
  "validateIdentifier f ''n'' = Inr ()" "validateIdentifier f ''s'' = Inr ()"
  by (simp_all add: ref_ok_def text_ok_def validateIdentifier_def trim_defs rune_defs refPattern_def identifierPattern_def
      match_identifier_def char_class_defs less_eq_char_def maxReferenceLength_def maxIdentifierLength_def)

lemma w_versions:
  "validateOpaqueVersion ''a'' = Inr ()" "validateOpaqueVersion ''b'' = Inr ()" "validateOpaqueVersion ''c'' = Inr ()"
  "validateOpaqueVersion ''d'' = Inr ()"
  by (rule graphic_version; simp add: graphic_def)+

lemma w_evidence_ok: "evidence_ok w_evidence"
  by (simp add: evidence_ok_def w_evidence_def w_texts RedactionState_Valid_def)

lemma w_incident_valid: "Incident_Validate w_incident = Inr ()"
proof -
  have "metadata_ok (inMetadata w_incident)"
    by (simp add: metadata_ok_def ObjectMetadata_Validate_def w_incident_def w_texts w_versions)
  moreover have "observation_ok w_incident"
    by (simp add: observation_ok_def w_incident_def validateResources_def validateSignals_def w_texts Severity_Valid_def
        incident_limits early_return_Inr Let_def validateSignals_loop_iff signal_ok_def)
  moreover have "timeline_ok w_incident"
    by (simp add: timeline_ok_def w_incident_def entry_ok_def timeline_kind_check_def TimelineKind_Valid_def w_texts
        status_entries_ok_def Let_def)
  ultimately show ?thesis
    by (simp add: Incident_Validate_iff w_incident_def Status_Valid_def incident_limits runbook_ok_def acknowledgement_ok_def)
qed

lemma w_base:
  assumes "Incident_Validate c = Inr ()" "omObjectID (inMetadata c) = ''n''" "omResourceVersion (inMetadata c) = v"
    and "validateOpaqueVersion v = Inr ()" "omUpdatedAt (inMetadata c) \<le> at" "at \<noteq> 0" "rv \<noteq> v"
  shows "mutation_base c (w_precondition v) ''n'' at rv"
  using assms opaque_nonempty[of v]
  by (auto simp: mutation_base_def ObjectPrecondition_ValidateAgainst_def w_precondition_def w_texts Incident_Validate_iff
      metadata_ok_def)

lemma w_updated:
  "prepare_mutation w_incident (UpdateEvidence w_update) =
     Inr \<lparr>pmPrecondition = w_precondition ''a'', pmNext = annotated w_incident w_update, pmDesiredChanged = False\<rparr>"
proof -
  have "mutation_base w_incident (w_precondition ''a'') ''n'' 3 ''b''"
    by (rule w_base) (simp_all add: w_incident_valid w_versions, simp_all add: w_incident_def)
  then show ?thesis
    using w_evidence_ok
    by (simp add: prepare_mutation_def PrepareEvidenceUpdate_iff, simp add: w_update_def w_incident_def w_texts w_versions
        incident_limits runbook_ok_def evidence_set_ok_def not_rebound_def effective_def new_evidence_def w_evidence_def)
qed

lemma w_run: "run_mutations w_incident [UpdateEvidence w_update, Acknowledge w_ack, Resolve w_resolve] = Inr w_resolved"
proof -
  let ?c1 = "annotated w_incident w_update" and ?c2 = "acknowledged (annotated w_incident w_update) w_ack"
  note 1 = w_updated
  have "mutation_base ?c1 (w_precondition ''b'') ''n'' 4 ''c''"
    by (rule w_base) (use mutation_valid(2)[OF 1] in \<open>simp_all add: w_versions\<close>,
      simp_all add: w_successors w_incident_def w_update_def)
  then have 2: "prepare_mutation ?c1 (Acknowledge w_ack) =
      Inr \<lparr>pmPrecondition = w_precondition ''b'', pmNext = ?c2, pmDesiredChanged = True\<rparr>"
    by (simp add: prepare_mutation_def PrepareAcknowledgement_iff, simp add: w_ack_def w_update_def w_incident_def w_texts
        w_versions incident_limits annotated_def next_metadata_def)
  have "mutation_base ?c2 (w_precondition ''c'') ''n'' 5 ''d''"
    by (rule w_base) (use mutation_valid(2)[OF 2] in \<open>simp_all add: w_versions\<close>,
      simp_all add: w_successors w_incident_def w_update_def w_ack_def)
  then have 3: "prepare_mutation ?c2 (Resolve w_resolve) =
      Inr \<lparr>pmPrecondition = w_precondition ''c'', pmNext = w_resolved, pmDesiredChanged = True\<rparr>"
    by (simp add: prepare_mutation_def PrepareResolution_iff w_resolved_def, simp add: w_resolve_def w_ack_def w_update_def
        w_incident_def w_texts w_versions incident_limits annotated_def acknowledged_def next_metadata_def)
  show ?thesis by (simp add: 1 2 3)
qed

subsection \<open>Properties\<close>

text \<open>
  C10: An acknowledgement is accepted exactly when the stored incident is valid and open, the
  precondition names its current version, the actor is a well-formed reference, the time does not
  precede the last update, the new resource version is well-formed and different, the note is a bounded
  text, the generation does not overflow and the timeline has room; then the successor is the
  incident with one more timeline entry and the acknowledgement. A resolution needs an acknowledged
  incident, a text and well-formed evidence collected by then; an evidence update needs an unresolved
  incident, no reference rebound to other metadata and an effective change.
\<close>

theorem incident_mutations_exact:
  "(PrepareAcknowledgement c a = Inr p \<longleftrightarrow>
      mutation_base c (aqPrecondition a) (aqActorID a) (aqOccurredAt a) (aqResourceVersion a)
    \<and> inStatus c = StatusOpen \<and> text_ok maxSummaryLength False (aqNote a) \<and> omGeneration (inMetadata c) \<noteq> - 1
    \<and> validateOpaqueVersion (aqResourceVersion a) = Inr () \<and> length (inTimeline c) < maxTimelineEntries
    \<and> p = \<lparr>pmPrecondition = aqPrecondition a, pmNext = acknowledged c a, pmDesiredChanged = True\<rparr>)
 \<and> (PrepareResolution c r = Inr p \<longleftrightarrow>
      mutation_base c (rqPrecondition r) (rqActorID r) (rqOccurredAt r) (rqResourceVersion r)
    \<and> inStatus c = StatusAcknowledged \<and> text_ok maxSummaryLength True (rqResolution r)
    \<and> evidence_set_ok (rqEvidence r) \<and> length (rqEvidence r) \<le> maxEvidenceRefs
    \<and> list_all (\<lambda>e. erCollected e \<le> rqOccurredAt r) (rqEvidence r) \<and> omGeneration (inMetadata c) \<noteq> - 1
    \<and> validateOpaqueVersion (rqResourceVersion r) = Inr () \<and> length (inTimeline c) < maxTimelineEntries
    \<and> p = \<lparr>pmPrecondition = rqPrecondition r, pmNext = resolved c r, pmDesiredChanged = True\<rparr>)
 \<and> (PrepareEvidenceUpdate c u = Inr p \<longleftrightarrow>
      mutation_base c (eqPrecondition u) (eqActorID u) (eqOccurredAt u) (eqResourceVersion u)
    \<and> inStatus c \<noteq> StatusResolved \<and> text_ok maxSummaryLength True (eqNote u) \<and> runbook_ok (eqRunbook u)
    \<and> evidence_set_ok (eqEvidence u) \<and> list_all (\<lambda>e. erCollected e \<le> eqOccurredAt u) (eqEvidence u)
    \<and> not_rebound c u
    \<and> length (inEvidence c @ new_evidence (inEvidence c) (eqEvidence u)) \<le> maxEvidenceRefs
    \<and> effective c u
    \<and> validateOpaqueVersion (eqResourceVersion u) = Inr () \<and> length (inTimeline c) < maxTimelineEntries
    \<and> p = \<lparr>pmPrecondition = eqPrecondition u, pmNext = annotated c u, pmDesiredChanged = False\<rparr>)"
  by (intro conjI PrepareAcknowledgement_iff PrepareResolution_iff PrepareEvidenceUpdate_iff)

text \<open>
  C34: The record of an incident is append-only. After any accepted operator mutations the incident is
  valid, its identity, scope, creation time and observations are unchanged, every mutation left exactly
  one timeline entry with its kind, its actor and its time, in order and after the entries that were
  there, no recorded evidence is lost or rebound, and the generation counts the acknowledgements and
  resolutions without wrap-around.
\<close>

theorem incident_record_append_only:
  assumes "Incident_Validate c = Inr ()" "run_mutations c ms = Inr i"
  shows "Incident_Validate i = Inr () \<and> same_observation c i
    \<and> (\<exists>ts. inTimeline i = inTimeline c @ ts \<and> list_all2 records ms ts) \<and> sorted (map mutation_at ms)
    \<and> (\<exists>es. inEvidence i = inEvidence c @ es) \<and> distinct (map ident (inEvidence i))
    \<and> unat (omGeneration (inMetadata i)) = unat (omGeneration (inMetadata c)) + length (filter (\<lambda>m. \<not> is_update m) ms)"
proof -
  have v: "Incident_Validate i = Inr ()" by (rule run_mutations_valid[OF assms])
  then have "distinct (map ident (inEvidence i))" by (auto simp: Incident_Validate_iff intro: evidence_set_ident)
  then show ?thesis
    using v run_mutations_kept[OF assms(2)] run_mutations_timeline[OF assms(2)] run_mutations_sorted[OF assms(2)]
      run_mutations_generation[OF assms(2)]
    by simp
qed

theorem incident_record_append_only_witness:
  "Incident_Validate w_resolved = Inr () \<and> same_observation w_incident w_resolved
   \<and> (\<exists>ts. inTimeline w_resolved = inTimeline w_incident @ ts
        \<and> list_all2 records [UpdateEvidence w_update, Acknowledge w_ack, Resolve w_resolve] ts)
   \<and> unat (omGeneration (inMetadata w_resolved)) = unat (omGeneration (inMetadata w_incident)) + 2"
  using incident_record_append_only[OF w_incident_valid w_run] by (simp add: is_update_def)

text \<open>
  A resolution is accountable and final. An incident that was open and is resolved went through
  exactly one acknowledgement, carries the actor and time of it, and was resolved by its last mutation,
  not before the acknowledgement; everything else was an evidence update. No mutation of a resolved
  incident is accepted, and an acknowledgement needs an open incident.
\<close>

lemma resolution_accountable:
  assumes "inStatus c = StatusOpen" "run_mutations c ms = Inr i" "inStatus i = StatusResolved"
  shows "(\<exists>us a vs r. ms = us @ Acknowledge a # vs @ [Resolve r] \<and> list_all is_update us \<and> list_all is_update vs
      \<and> inAcknowledgement i = Some \<lparr>akActorID = aqActorID a, akAt = aqOccurredAt a\<rparr>
      \<and> aqOccurredAt a \<le> rqOccurredAt r)
    \<and> (\<forall>m. \<exists>e. prepare_mutation i m = Inl e)"
proof
  from run_from_open[OF assms(1,2)] assms(3) obtain us a ws r where ms: "ms = us @ Acknowledge a # ws @ [Resolve r]"
      "list_all is_update us" "list_all is_update ws"
      "inAcknowledgement i = Some \<lparr>akActorID = aqActorID a, akAt = aqOccurredAt a\<rparr>"
    by auto
  have "sorted (map mutation_at ms)" using run_mutations_sorted[OF assms(2)] by simp
  then have "aqOccurredAt a \<le> rqOccurredAt r" by (simp add: ms(1) sorted_append mutation_at_def)
  then show "\<exists>us a vs r. ms = us @ Acknowledge a # vs @ [Resolve r] \<and> list_all is_update us \<and> list_all is_update vs
      \<and> inAcknowledgement i = Some \<lparr>akActorID = aqActorID a, akAt = aqOccurredAt a\<rparr> \<and> aqOccurredAt a \<le> rqOccurredAt r"
    using ms by blast
  have "prepare_mutation i m \<noteq> Inr p" for m p
    using mutation_effect(2)[of i m p] assms(3) by (auto simp: status_step_def split: operator_mutation.splits)
  then show "\<forall>m. \<exists>e. prepare_mutation i m = Inl e" by (metis sum.exhaust)
qed

end
