(* ===== verification/Incident_Query.thy ===== *)
theory Incident_Query
  imports Incident_History
begin

text \<open>
  Package \<^verbatim>\<open>internal/incidents\<close>, file \<^verbatim>\<open>query.go\<close>: the bounded list query, its normalization and the
  page it selects, newest incident first, with the keyset cursor of the next page. A Go \<^verbatim>\<open>int\<close> limit
  is an \<open>int\<close>. The result of following the cursors from page to page is at the end.
\<close>

subsection \<open>Data\<close>

definition DefaultListLimit :: int where "DefaultListLimit = 50"
definition MaxListLimit :: int where "MaxListLimit = 100"
definition maxCursorIDBytes :: nat where "maxCursorIDBytes = 255"

record ListCursor =
  lcStartedAt :: "time"
  lcObjectID :: string

record ListQuery =
  lqLimit :: int
  lqStatuses :: "IncidentStatus list"
  lqSeverities :: "Severity list"
  lqScopeID :: string
  lqResourceKind :: string
  lqResourceID :: string
  lqStartedFrom :: "time option"
  lqStartedBefore :: "time option"
  lqBefore :: "ListCursor option"

record ListPage =
  lpItems :: "Incident list"
  lpNext :: "ListCursor option"
  lpHasMore :: bool

datatype query_error = QueryMsg string | QueryItem nat incident_error

definition severity_text :: "Severity \<Rightarrow> string" where
  "severity_text s = (case s of SeverityInfo \<Rightarrow> ''info'' | SeverityWarning \<Rightarrow> ''warning''
     | SeverityCritical \<Rightarrow> ''critical'' | SeverityUnsupported t \<Rightarrow> t)"

subsection \<open>Normalization\<close>

fun normalizeStatuses_loop :: "IncidentStatus list \<Rightarrow> IncidentStatus list \<Rightarrow> query_error + unit" where
  "normalizeStatuses_loop seen [] = Inr ()"
| "normalizeStatuses_loop seen (v # vs) =
     (if \<not> Status_Valid v then Inl (QueryMsg (''unsupported incident status filter '' @ status_text v))
      else if v \<in> set seen then Inl (QueryMsg (''duplicate incident status filter '' @ status_text v))
      else normalizeStatuses_loop (v # seen) vs)"

definition normalizeStatuses :: "IncidentStatus list \<Rightarrow> query_error + IncidentStatus list" where
  "normalizeStatuses vs =
     (if length vs > 3 then Inl (QueryMsg ''incident status filter exceeds supported values'')
      else case normalizeStatuses_loop [] vs of Inl e \<Rightarrow> Inl e | Inr _ \<Rightarrow> Inr (sort_key status_text vs))"

fun normalizeSeverities_loop :: "Severity list \<Rightarrow> Severity list \<Rightarrow> query_error + unit" where
  "normalizeSeverities_loop seen [] = Inr ()"
| "normalizeSeverities_loop seen (v # vs) =
     (if \<not> Severity_Valid v then Inl (QueryMsg (''unsupported incident severity filter '' @ severity_text v))
      else if v \<in> set seen then Inl (QueryMsg (''duplicate incident severity filter '' @ severity_text v))
      else normalizeSeverities_loop (v # seen) vs)"

definition normalizeSeverities :: "Severity list \<Rightarrow> query_error + Severity list" where
  "normalizeSeverities vs =
     (if length vs > 3 then Inl (QueryMsg ''incident severity filter exceeds supported values'')
      else case normalizeSeverities_loop [] vs of Inl e \<Rightarrow> Inl e | Inr _ \<Rightarrow> Inr (sort_key severity_text vs))"

definition validateCursorID :: "string \<Rightarrow> query_error + unit" where
  "validateCursorID v = first_error
     [require (\<not> (v = [] \<or> length v > maxCursorIDBytes \<or> \<not> utf8_ValidString v))
        (QueryMsg ''incident cursor object_id is invalid''),
      require (\<not> list_ex (\<lambda>r. unicode_IsSpace r \<or> unicode_IsControl r) (rune_list v))
        (QueryMsg ''incident cursor object_id contains whitespace or control characters''),
      map_error (\<lambda>m. QueryMsg (''incident cursor object_id is invalid: '' @ m)) (validateRef ''cursor.object_id'' v)]"

definition filter_ref_checks :: "ListQuery \<Rightarrow> query_error + unit" where
  "filter_ref_checks q = first_error
     [(if lqScopeID q \<noteq> [] then map_error (\<lambda>m. QueryMsg (''invalid incident scope filter: '' @ m))
         (validateRef ''scope_id'' (lqScopeID q)) else Inr ()),
      (if lqResourceKind q \<noteq> [] then map_error (\<lambda>m. QueryMsg (''invalid incident resource filter: '' @ m))
         (validateRef ''resource_kind'' (lqResourceKind q)) else Inr ()),
      (if lqResourceID q \<noteq> []
       then first_error
         [require (lqResourceKind q \<noteq> []) (QueryMsg ''incident resource_id filter requires resource_kind''),
          map_error (\<lambda>m. QueryMsg (''invalid incident resource filter: '' @ m))
            (validateRef ''resource_id'' (lqResourceID q))]
       else Inr ())]"

definition time_window_checks :: "ListQuery \<Rightarrow> query_error + unit" where
  "time_window_checks q = first_error
     [require (lqStartedFrom q \<noteq> Some 0) (QueryMsg ''incident started_from must not be zero''),
      require (lqStartedBefore q \<noteq> Some 0) (QueryMsg ''incident started_before must not be zero''),
      require (case (lqStartedFrom q, lqStartedBefore q) of (Some f, Some b) \<Rightarrow> f < b | _ \<Rightarrow> True)
        (QueryMsg ''incident started_from must precede started_before'')]"

definition cursor_checks :: "ListQuery \<Rightarrow> query_error + unit" where
  "cursor_checks q =
     (case lqBefore q of None \<Rightarrow> Inr ()
      | Some c \<Rightarrow> first_error
          [require (\<not> IsZero (lcStartedAt c)) (QueryMsg ''incident cursor started_at is required''),
           validateCursorID (lcObjectID c)])"

definition NormalizeListQuery :: "ListQuery \<Rightarrow> query_error + ListQuery" where
  "NormalizeListQuery query =
     (let limit = (if lqLimit query = 0 then DefaultListLimit else lqLimit query) in
      if limit < 1 \<or> limit > MaxListLimit then Inl (QueryMsg ''incident list limit must be between 1 and 100'')
      else case normalizeStatuses (lqStatuses query) of Inl e \<Rightarrow> Inl e
      | Inr statuses \<Rightarrow>
     (case normalizeSeverities (lqSeverities query) of Inl e \<Rightarrow> Inl e
      | Inr severities \<Rightarrow>
     (case first_error [filter_ref_checks query, time_window_checks query, cursor_checks query] of Inl e \<Rightarrow> Inl e
      | Inr _ \<Rightarrow> Inr (query\<lparr>lqLimit := limit, lqStatuses := statuses, lqSeverities := severities\<rparr>))))"

subsection \<open>Selection\<close>

definition containsStatus :: "IncidentStatus list \<Rightarrow> IncidentStatus \<Rightarrow> bool" where
  "containsStatus vs want \<longleftrightarrow> list_ex (\<lambda>v. v = want) vs"

definition containsSeverity :: "Severity list \<Rightarrow> Severity \<Rightarrow> bool" where
  "containsSeverity vs want \<longleftrightarrow> list_ex (\<lambda>v. v = want) vs"

definition matchesListQuery :: "Incident \<Rightarrow> ListQuery \<Rightarrow> bool" where
  "matchesListQuery i q =
     (if length (lqStatuses q) > 0 \<and> \<not> containsStatus (lqStatuses q) (inStatus i) then False
      else if length (lqSeverities q) > 0 \<and> \<not> containsSeverity (lqSeverities q) (inSeverity i) then False
      else if lqScopeID q \<noteq> [] \<and> omScopeID (inMetadata i) \<noteq> lqScopeID q then False
      else if (case lqStartedFrom q of None \<Rightarrow> False | Some f \<Rightarrow> inStartedAt i < f) then False
      else if (case lqStartedBefore q of None \<Rightarrow> False | Some b \<Rightarrow> \<not> inStartedAt i < b) then False
      else if (case lqBefore q of None \<Rightarrow> False
               | Some c \<Rightarrow> inStartedAt i > lcStartedAt c
                   \<or> inStartedAt i = lcStartedAt c \<and> omObjectID (inMetadata i) \<le> lcObjectID c) then False
      else if lqResourceKind q \<noteq> [] \<and> \<not> list_ex (\<lambda>r. rrKind r = lqResourceKind q
               \<and> \<not> (lqResourceID q \<noteq> [] \<and> rrID r \<noteq> lqResourceID q)) (inAffectedResources i) then False
      else True)"

fun validate_items :: "nat \<Rightarrow> Incident list \<Rightarrow> query_error + unit" where
  "validate_items idx [] = Inr ()"
| "validate_items idx (i # is) =
     (case Incident_Validate i of Inl e \<Rightarrow> Inl (QueryItem idx e) | Inr _ \<Rightarrow> validate_items (Suc idx) is)"

text \<open>The canonical order: \<^verbatim>\<open>StartedAt\<close> descending, \<^verbatim>\<open>ObjectID\<close> ascending; \<open>sort_key\<close> is stable like \<^verbatim>\<open>sort.SliceStable\<close>.\<close>

definition list_key :: "Incident \<Rightarrow> int \<times> string" where
  "list_key i = (- inStartedAt i, omObjectID (inMetadata i))"

text \<open>\<^verbatim>\<open>SortTimeline\<close> of \<^verbatim>\<open>incident.go\<close>: by time, then by the text of the kind, stable.\<close>

definition SortTimeline :: "TimelineEntry list \<Rightarrow> TimelineEntry list" where
  "SortTimeline entries = sort_key (\<lambda>e. (teAt e, kind_text (teKind e))) entries"

fun page_loop :: "ListQuery \<Rightarrow> Incident list \<Rightarrow> Incident list \<Rightarrow> Incident list" where
  "page_loop q items [] = items"
| "page_loop q items (i # is) =
     (if \<not> matchesListQuery i q then page_loop q items is
      else if int (length (items @ [i])) > lqLimit q then items @ [i]
      else page_loop q (items @ [i]) is)"

definition FilterPage :: "Incident list \<Rightarrow> ListQuery \<Rightarrow> query_error + ListPage" where
  "FilterPage input query0 =
     (case NormalizeListQuery query0 of Inl e \<Rightarrow> Inl e
      | Inr query \<Rightarrow>
     (case validate_items 0 input of Inl e \<Rightarrow> Inl e
      | Inr _ \<Rightarrow>
        (let found = page_loop query [] (sort_key list_key input);
             hasMore = int (length found) > lqLimit query;
             items = (if hasMore then take (nat (lqLimit query)) found else found)
         in Inr \<lparr>lpItems = items,
                 lpNext = (if hasMore \<and> length items > 0
                   then Some \<lparr>lcStartedAt = inStartedAt (last items), lcObjectID = omObjectID (inMetadata (last items))\<rparr>
                   else None),
                 lpHasMore = hasMore\<rparr>)))"

subsection \<open>Following the cursors\<close>

text \<open>
  What a caller sees that asks for the next page with the cursor of the last one until there is none;
  \<open>fuel\<close> bounds the number of pages and \<open>None\<close> says that it did not suffice.
\<close>

fun follow_pages :: "nat \<Rightarrow> Incident list \<Rightarrow> ListQuery \<Rightarrow> (query_error + Incident list list) option" where
  "follow_pages 0 input q = None"
| "follow_pages (Suc fuel) input q =
     (case FilterPage input q of Inl e \<Rightarrow> Some (Inl e)
      | Inr page \<Rightarrow>
        (case lpNext page of None \<Rightarrow> Some (Inr [lpItems page])
         | Some cursor \<Rightarrow>
           (case follow_pages fuel input (q\<lparr>lqBefore := Some cursor\<rparr>) of
              Some (Inr pages) \<Rightarrow> Some (Inr (lpItems page # pages))
            | r \<Rightarrow> r)))"

subsection \<open>Lemmas\<close>

lemma page_loop_take:
  assumes "int (length items) \<le> lqLimit q"
  shows "page_loop q items is = items @ take (Suc (nat (lqLimit q)) - length items) (filter (\<lambda>i. matchesListQuery i q) is)"
  using assms
proof (induction q items "is" rule: page_loop.induct)
  case (2 q items i "is")
  then show ?case by (auto simp: Suc_diff_le nat_le_iff le_nat_iff not_less take_Cons' Suc_diff_Suc)
qed simp

text \<open>A sorted timeline has the same entries and passes the chronological part of the validation.\<close>

lemma SortTimeline_chronological: "sorted (map teAt (SortTimeline es)) \<and> mset (SortTimeline es) = mset es"
proof -
  have "sorted (map (\<lambda>e. (teAt e, kind_text (teKind e))) (SortTimeline es))" by (simp add: SortTimeline_def)
  then have "sorted (map fst (map (\<lambda>e. (teAt e, kind_text (teKind e))) (SortTimeline es)))"
    by (rule sorted_map_mono[OF _ mono_onI]) (auto simp: less_eq_prod_def)
  then show ?thesis by (simp add: SortTimeline_def comp_def)
qed

lemma validate_items_iff: "validate_items idx is = Inr () \<longleftrightarrow> list_all (\<lambda>i. Incident_Validate i = Inr ()) is"
  by (induction "is" arbitrary: idx) (auto split: sum.splits)

text \<open>The cursor condition is the strict order of the list keys.\<close>

lemma matches_cursor:
  "matchesListQuery i (q\<lparr>lqBefore := Some c\<rparr>) \<longleftrightarrow>
     matchesListQuery i (q\<lparr>lqBefore := None\<rparr>) \<and> (- lcStartedAt c, lcObjectID c) < list_key i"
  by (auto simp: matchesListQuery_def list_key_def less_prod_def' not_le not_less split: option.splits)

lemma identifier_chars:
  assumes "validateIdentifier f v = Inr ()"
  shows "list_all graphic v" "ref_ok v" "length v \<le> 255" "v \<noteq> []"
proof -
  have v: "v \<noteq> []" "TrimSpace v = v" "length v \<le> 255" "match_identifier ''._:-'' 253 v"
    using assms by (auto simp: validateIdentifier_def maxIdentifierLength_def identifierPattern_def split: if_splits)
  have "list_all (\<lambda>d. alnum d \<or> d \<in> set ''._:-'') v" using match_identifier_chars[OF v(4)] by blast
  then show "list_all graphic v" using alnum_graphic by (auto simp: list_all_iff graphic_def)
  have "match_identifier ''._:/-'' 253 v" using v(4) by (auto simp: match_identifier_def list_all_iff split: list.splits)
  then show "ref_ok v" using v by (simp add: ref_ok_def refPattern_def maxReferenceLength_def)
qed (use assms in \<open>auto simp: validateIdentifier_def maxIdentifierLength_def split: if_splits\<close>)

lemma graphic_runes:
  assumes "list_all graphic v"
  shows "utf8_ValidString v" "\<not> list_ex (\<lambda>r. unicode_IsSpace r \<or> unicode_IsControl r) (rune_list v)"
proof -
  have "runes_of 0 (map of_char v) = map (\<lambda>c. (of_char c, True)) v"
    using assms by (induction v) (auto simp: decode_rune_def graphic_def)
  then show "utf8_ValidString v" by (simp add: utf8_ValidString_def bytes_of_def list_all_iff)
  show "\<not> list_ex (\<lambda>r. unicode_IsSpace r \<or> unicode_IsControl r) (rune_list v)"
    using assms graphic_not_control unfolding rune_list_graphic[OF assms] by (auto simp: list_ex_iff list_all_iff)
qed

definition cursor_key :: "ListCursor \<Rightarrow> int \<times> string" where
  "cursor_key c = (- lcStartedAt c, lcObjectID c)"

definition cursor_of :: "Incident \<Rightarrow> ListCursor" where
  "cursor_of i = \<lparr>lcStartedAt = inStartedAt i, lcObjectID = omObjectID (inMetadata i)\<rparr>"

lemma cursor_key_of [simp]: "cursor_key (cursor_of i) = list_key i"
  by (simp add: cursor_key_def cursor_of_def list_key_def)

lemma matches_split:
  "matchesListQuery i q \<longleftrightarrow> matchesListQuery i (q\<lparr>lqBefore := None\<rparr>)
     \<and> (case lqBefore q of None \<Rightarrow> True | Some c \<Rightarrow> cursor_key c < list_key i)"
proof (cases "lqBefore q")
  case None
  then have "q\<lparr>lqBefore := None\<rparr> = q" by simp
  then show ?thesis by (simp only: None option.case simp_thms)
next
  case (Some c)
  then have same: "q\<lparr>lqBefore := Some c\<rparr> = q" by simp
  show ?thesis using matches_cursor[where i = i and q = q and c = c, unfolded same] by (simp only: Some option.case cursor_key_def)
qed

definition matching :: "Incident list \<Rightarrow> ListQuery \<Rightarrow> Incident list" where
  "matching input q = filter (\<lambda>i. matchesListQuery i q) (sort_key list_key input)"

lemma matching_sorted:
  assumes "distinct (map (\<lambda>i. omObjectID (inMetadata i)) input)"
  shows "sorted_wrt (<) (map list_key (matching input q))"
proof -
  have "inj_on list_key (set input)" "distinct input"
    using assms by (auto simp: distinct_map inj_on_def list_key_def)
  then have "distinct (map list_key (sort_key list_key input))" by (simp add: distinct_map)
  then have "distinct (map list_key (matching input q))" by (simp add: matching_def distinct_map_filter)
  moreover have "sorted (map list_key (matching input q))" by (simp add: matching_def sorted_filter)
  ultimately show ?thesis by (simp add: strict_sorted_iff)
qed

lemma sorted_le_last: "sorted ys \<Longrightarrow> y \<in> set ys \<Longrightarrow> y \<le> last ys"
  by (induction ys) auto

lemma filter_after:
  fixes f :: "'a \<Rightarrow> 'b :: linorder"
  assumes "sorted_wrt (<) (map f xs)" "0 < n" "n \<le> length xs"
  shows "filter (\<lambda>x. f (last (take n xs)) < f x) xs = drop n xs"
proof -
  have ne: "take n xs \<noteq> []" using assms by auto
  have wrt: "sorted_wrt (<) (map f (take n xs) @ map f (drop n xs))" using assms(1) by (simp flip: map_append)
  have "f x \<le> f (last (take n xs))" if "x \<in> set (take n xs)" for x
  proof -
    have "sorted (map f (take n xs))" using wrt by (simp add: sorted_wrt_append strict_sorted_imp_sorted)
    then have "f x \<le> last (map f (take n xs))" using that by (intro sorted_le_last) auto
    then show ?thesis using ne by (simp add: last_map)
  qed
  moreover have "f (last (take n xs)) < f x" if "x \<in> set (drop n xs)" for x
    using wrt that ne by (auto simp: sorted_wrt_append)
  ultimately have "filter (\<lambda>x. f (last (take n xs)) < f x) (take n xs @ drop n xs) = drop n xs"
    unfolding filter_append by (auto simp: filter_empty_conv not_less intro!: filter_True)
  then show ?thesis by simp
qed

lemma matching_next:
  assumes "distinct (map (\<lambda>i. omObjectID (inMetadata i)) input)" "0 < n" "n \<le> length (matching input q)"
  shows "matching input (q\<lparr>lqBefore := Some (cursor_of (last (take n (matching input q))))\<rparr>) = drop n (matching input q)"
proof -
  let ?l = "last (take n (matching input q))"
  have "?l \<in> set (matching input q)" using assms(2,3) by (metis in_set_takeD last_in_set take_eq_Nil not_gr_zero list.size(3) le_zero_eq)
  moreover have "x \<in> set (matching input q) \<Longrightarrow> matchesListQuery x q" for x by (simp add: matching_def)
  ultimately have l: "case lqBefore q of None \<Rightarrow> True | Some c \<Rightarrow> cursor_key c < list_key ?l"
    using matches_split[of ?l q] by blast
  have "matchesListQuery i (q\<lparr>lqBefore := Some (cursor_of ?l)\<rparr>) \<longleftrightarrow> matchesListQuery i q \<and> list_key ?l < list_key i" for i
    using matches_split[of i q] matches_split[of i "q\<lparr>lqBefore := Some (cursor_of ?l)\<rparr>"] l
    by (auto split: option.splits)
  then have "matching input (q\<lparr>lqBefore := Some (cursor_of ?l)\<rparr>) = filter (\<lambda>i. list_key ?l < list_key i) (matching input q)"
    unfolding matching_def by (simp add: conj_commute)
  also have "\<dots> = drop n (matching input q)" by (rule filter_after[OF matching_sorted[OF assms(1)] assms(2,3)])
  finally show ?thesis .
qed

subsection \<open>Pages\<close>

lemma NormalizeListQuery_limit:
  "NormalizeListQuery q = Inr q' \<Longrightarrow> 1 \<le> lqLimit q' \<and> lqLimit q' \<le> MaxListLimit"
  by (auto simp: NormalizeListQuery_def Let_def early_return_Inr split: if_splits)

lemma NormalizeListQuery_cursor:
  assumes "NormalizeListQuery q = Inr q'" "lcStartedAt c \<noteq> 0" "validateCursorID (lcObjectID c) = Inr ()"
  shows "NormalizeListQuery (q\<lparr>lqBefore := Some c\<rparr>) = Inr (q'\<lparr>lqBefore := Some c\<rparr>)"
proof -
  have "filter_ref_checks (q\<lparr>lqBefore := Some c\<rparr>) = filter_ref_checks q"
    "time_window_checks (q\<lparr>lqBefore := Some c\<rparr>) = time_window_checks q"
    by (simp_all add: filter_ref_checks_def time_window_checks_def)
  then show ?thesis using assms
    by (auto simp: NormalizeListQuery_def Let_def early_return_Inr cursor_checks_def split: if_splits)
qed

lemma cursor_of_valid:
  assumes "Incident_Validate i = Inr ()"
  shows "lcStartedAt (cursor_of i) \<noteq> 0" "validateCursorID (lcObjectID (cursor_of i)) = Inr ()"
proof -
  have i: "inStartedAt i \<noteq> 0" "validateIdentifier ''object_id'' (omObjectID (inMetadata i)) = Inr ()"
    using assms by (auto simp: Incident_Validate_iff observation_ok_def metadata_ok_def ObjectMetadata_Validate_def)
  note id = identifier_chars[OF i(2)]
  show "lcStartedAt (cursor_of i) \<noteq> 0" "validateCursorID (lcObjectID (cursor_of i)) = Inr ()"
    using i(1) id graphic_runes[OF id(1)] by (simp_all add: cursor_of_def validateCursorID_def maxCursorIDBytes_def)
qed

lemma FilterPage_eq:
  assumes "NormalizeListQuery q = Inr q'" "list_all (\<lambda>i. Incident_Validate i = Inr ()) input"
  shows "FilterPage input q =
    (let L = nat (lqLimit q'); M = matching input q' in
     Inr \<lparr>lpItems = take L M, lpNext = (if L < length M then Some (cursor_of (last (take L M))) else None),
          lpHasMore = (L < length M)\<rparr>)"
proof -
  have L: "1 \<le> lqLimit q'" using NormalizeListQuery_limit[OF assms(1)] by simp
  have found: "page_loop q' [] (sort_key list_key input) = take (Suc (nat (lqLimit q'))) (matching input q')"
    using page_loop_take[of "[]" q'] L by (simp add: matching_def)
  have v: "validate_items 0 input = Inr ()" using assms(2) by (simp add: validate_items_iff)
  have more: "lqLimit q' < int (length (take (Suc (nat (lqLimit q'))) (matching input q'))) \<longleftrightarrow>
      nat (lqLimit q') < length (matching input q')" using L by (auto simp: min_def)
  show ?thesis
    unfolding FilterPage_def assms(1) v sum.case Let_def found more
    using L by (auto simp: cursor_of_def min_def)
qed

lemma follow_pages_matching:
  assumes "list_all (\<lambda>i. Incident_Validate i = Inr ()) input" "distinct (map (\<lambda>i. omObjectID (inMetadata i)) input)"
    and "NormalizeListQuery q = Inr q'" "length (matching input q') < fuel"
  shows "\<exists>pages. follow_pages fuel input q = Some (Inr pages) \<and> concat pages = matching input q'
      \<and> list_all (\<lambda>p. int (length p) \<le> lqLimit q') pages"
  using assms(3-4)
proof (induction fuel arbitrary: q q')
  case (Suc fuel)
  define L M where "L = nat (lqLimit q')" and "M = matching input q'"
  have L: "0 < L" "int L = lqLimit q'" using NormalizeListQuery_limit[OF Suc.prems(1)] by (simp_all add: L_def)
  note page = FilterPage_eq[OF Suc.prems(1) assms(1), folded L_def M_def, unfolded Let_def]
  show ?case
  proof (cases "L < length M")
    case False
    then show ?thesis using L by (simp add: page flip: M_def)
  next
    case True
    let ?c = "cursor_of (last (take L M))"
    have "last (take L M) \<in> set M" using True L by (metis in_set_takeD last_in_set take_eq_Nil less_zeroE list.size(3) less_irrefl)
    then have "last (take L M) \<in> set input" by (simp add: M_def matching_def)
    then have "Incident_Validate (last (take L M)) = Inr ()" using assms(1) by (simp add: list_all_iff)
    from NormalizeListQuery_cursor[OF Suc.prems(1) cursor_of_valid[OF this]]
    have q: "NormalizeListQuery (q\<lparr>lqBefore := Some ?c\<rparr>) = Inr (q'\<lparr>lqBefore := Some ?c\<rparr>)" .
    have rest: "matching input (q'\<lparr>lqBefore := Some ?c\<rparr>) = drop L M"
      using matching_next[OF assms(2), of L q'] True L by (simp add: M_def)
    have "length (matching input (q'\<lparr>lqBefore := Some ?c\<rparr>)) < fuel" using Suc.prems(2) True L by (simp add: rest flip: M_def)
    from Suc.IH[OF q this] obtain pages where
      "follow_pages fuel input (q\<lparr>lqBefore := Some ?c\<rparr>) = Some (Inr pages)" "concat pages = drop L M"
      "list_all (\<lambda>p. int (length p) \<le> lqLimit q') pages" by (auto simp: rest)
    then show ?thesis using True L by (simp add: page flip: M_def)
  qed
qed simp

text \<open>
  C36: The pages of a list query are complete. Following the cursor of each page to the next one, a
  caller gets every incident that matches the normalized query exactly once, in the canonical order,
  newest first, in pages of at most the limit; one page per stored incident always suffices.
\<close>

theorem pages_complete:
  assumes "NormalizeListQuery q = Inr q'" "list_all (\<lambda>i. Incident_Validate i = Inr ()) input"
    and "distinct (map (\<lambda>i. omObjectID (inMetadata i)) input)"
  shows "\<exists>pages. follow_pages (Suc (length input)) input q = Some (Inr pages)
    \<and> concat pages = filter (\<lambda>i. matchesListQuery i q') (sort_key list_key input)
    \<and> list_all (\<lambda>p. int (length p) \<le> lqLimit q') pages"
proof -
  have "length (matching input q') < Suc (length input)" by (simp add: matching_def less_Suc_eq_le le_trans[OF length_filter_le])
  from follow_pages_matching[OF assms(2,3,1) this] show ?thesis by (simp add: matching_def del: follow_pages.simps)
qed

text \<open>Two incidents, listed one per page.\<close>

definition w_second :: Incident where
  "w_second = w_incident\<lparr>inMetadata := (inMetadata w_incident)\<lparr>omObjectID := ''s''\<rparr>\<rparr>"

definition w_query :: ListQuery where
  "w_query = \<lparr>lqLimit = 1, lqStatuses = [StatusOpen], lqSeverities = [], lqScopeID = ''s'', lqResourceKind = [],
     lqResourceID = [], lqStartedFrom = Some 1, lqStartedBefore = None, lqBefore = None\<rparr>"

lemma w_second_valid: "Incident_Validate w_second = Inr ()"
proof -
  have "metadata_ok (inMetadata w_second)"
    by (simp add: metadata_ok_def ObjectMetadata_Validate_def w_second_def w_incident_def w_texts w_versions)
  moreover have "observation_ok w_second = observation_ok w_incident" by (simp add: observation_ok_def w_second_def)
  moreover have "timeline_ok w_second = timeline_ok w_incident"
    by (simp add: timeline_ok_def w_second_def entry_ok_def cong: list.pred_cong)
  moreover have "acknowledgement_ok w_second = acknowledgement_ok w_incident" by (simp add: acknowledgement_ok_def w_second_def w_incident_def)
  ultimately show ?thesis using w_incident_valid by (simp add: Incident_Validate_iff w_second_def)
qed

lemma w_query_normal: "NormalizeListQuery w_query = Inr w_query"
  by (simp add: NormalizeListQuery_def w_query_def normalizeStatuses_def normalizeSeverities_def filter_ref_checks_def
      time_window_checks_def cursor_checks_def Status_Valid_def MaxListLimit_def w_texts map_error_def require_def
      validateRef_def[of _ "''s''"] w_texts[unfolded ref_ok_def] maxReferenceLength_def)

theorem pages_complete_witness:
  "\<exists>pages. follow_pages 3 [w_second, w_incident] w_query = Some (Inr pages) \<and> concat pages = [w_incident, w_second]
     \<and> list_all (\<lambda>p. length p \<le> 1) pages"
proof -
  have ids: "omObjectID (inMetadata w_incident) = ''n''" "omObjectID (inMetadata w_second) = ''s''"
    by (simp_all add: w_second_def w_incident_def)
  have "matchesListQuery w_incident w_query" "matchesListQuery w_second w_query"
    by (simp_all add: matchesListQuery_def w_query_def w_second_def w_incident_def containsStatus_def)
  moreover have "list_key w_incident \<le> list_key w_second" "\<not> list_key w_second \<le> list_key w_incident"
    by (simp_all add: list_key_def w_second_def w_incident_def)
  ultimately have "filter (\<lambda>i. matchesListQuery i w_query) (sort_key list_key [w_second, w_incident]) = [w_incident, w_second]"
    by (simp add: sort_key_def)
  then show ?thesis
    using pages_complete[OF w_query_normal, of "[w_second, w_incident]"] w_incident_valid w_second_valid
    by (simp add: ids numeral_3_eq_3 w_query_def del: follow_pages.simps)
qed

end
