(* ===== verification/Incident_Operator.thy ===== *)
theory Incident_Operator
  imports Incident_Query Rbac
begin

text \<open>
  Package \<^verbatim>\<open>internal/incidents\<close>, files \<^verbatim>\<open>operator.go\<close> and \<^verbatim>\<open>rbac_policy.go\<close>: the service through which an
  operator reads and changes incidents, and the access policy on top of role based access control.
  The interfaces the service is built from (reader, policy, version generator, committer) are
  functions over an arbitrary state \<open>'s\<close> of the store, or \<open>None\<close> for a nil interface. Between the read
  and the commit other requests may change the store: the service is given the state at each.
\<close>

subsection \<open>Data\<close>

datatype operator_error =
    ErrOperatorIdentityRequired string
  | ErrOperatorAccessDenied string
  | ErrOperatorStepUpRequired
  | ErrOperatorDependencyUnavailable string
  | ErrIncidentNotFound
  | OperatorIncident incident_error
  | OperatorQuery query_error
  | OperatorCtx ctx_error
  | OperatorAdapter string

datatype OperatorCapability =
    CapabilityIncidentRead | CapabilityIncidentList | CapabilityIncidentAcknowledge | CapabilityIncidentResolve
  | CapabilityIncidentEvidenceUpdate | CapabilityOther string

record OperatorAuditRecord =
  arAction :: OperatorCapability
  arActorID :: string
  arIncidentID :: string
  arScopeID :: string
  arOccurredAt :: "time"
  arBeforeStatus :: IncidentStatus
  arAfterStatus :: IncidentStatus
  arBeforeGeneration :: uint64
  arAfterGeneration :: uint64
  arBeforeResourceVersion :: string
  arAfterResourceVersion :: string

record 's Reader =
  rdGet :: "ctx \<Rightarrow> 's \<Rightarrow> string \<Rightarrow> operator_error + Incident"
  rdList :: "ctx \<Rightarrow> 's \<Rightarrow> ListQuery \<Rightarrow> operator_error + ListPage"

record OperatorAccessPolicy =
  apAuthorizeList :: "ctx \<Rightarrow> string \<Rightarrow> OperatorCapability \<Rightarrow> ListQuery \<Rightarrow> operator_error + unit"
  apAuthorizeIncident :: "ctx \<Rightarrow> string \<Rightarrow> OperatorCapability \<Rightarrow> Incident \<Rightarrow> operator_error + unit"

record 's OperatorService =
  osReader :: "'s Reader option"
  osPolicy :: "OperatorAccessPolicy option"
  osVersions :: "(ctx \<Rightarrow> Incident \<Rightarrow> operator_error + string) option"
  osCommitter :: "(ctx \<Rightarrow> 's \<Rightarrow> PreparedMutation \<Rightarrow> OperatorAuditRecord \<Rightarrow> (operator_error + Incident) \<times> 's) option"

record AcknowledgeCommand =
  acPrecondition :: ObjectPrecondition
  acOccurredAt :: "time"
  acNote :: string

record ResolveCommand =
  rcPrecondition :: ObjectPrecondition
  rcOccurredAt :: "time"
  rcResolution :: string
  rcEvidence :: "EvidenceRef list"

record EvidenceUpdateCommand =
  ecPrecondition :: ObjectPrecondition
  ecOccurredAt :: "time"
  ecRunbook :: "RunbookRef option"
  ecEvidence :: "EvidenceRef list"
  ecNote :: string

subsection \<open>Checks\<close>

definition validateOperatorActor :: "string \<Rightarrow> operator_error + unit" where
  "validateOperatorActor actorID =
     (if TrimSpace actorID = [] then Inl (ErrOperatorIdentityRequired [])
      else map_error (\<lambda>_. ErrOperatorIdentityRequired ''invalid actor identity'')
        (validateRef ''operator.actor_id'' actorID))"

definition validateOperatorAuditRecord :: "OperatorAuditRecord \<Rightarrow> string + unit" where
  "validateOperatorAuditRecord r = first_error
     [require (\<not> (arAction r \<noteq> CapabilityIncidentAcknowledge \<and> arAction r \<noteq> CapabilityIncidentResolve
                 \<and> arAction r \<noteq> CapabilityIncidentEvidenceUpdate)) ''unsupported operator audit action'',
      validateRef ''audit.actor_id'' (arActorID r),
      validateRef ''audit.incident_id'' (arIncidentID r),
      validateRef ''audit.scope_id'' (arScopeID r),
      require (\<not> (IsZero (arOccurredAt r) \<or> \<not> Status_Valid (arBeforeStatus r) \<or> \<not> Status_Valid (arAfterStatus r)))
        ''audit timestamp and statuses are required'',
      require (\<not> (arBeforeResourceVersion r = [] \<or> arAfterResourceVersion r = []
                 \<or> arBeforeResourceVersion r = arAfterResourceVersion r))
        ''audit record requires distinct resource versions'',
      require (\<not> arAfterGeneration r < arBeforeGeneration r) ''audit generation cannot move backwards'']"

text \<open>A denial of access is reported as a missing incident.\<close>

definition hide_denied :: "operator_error \<Rightarrow> operator_error" where
  "hide_denied e = (case e of ErrOperatorAccessDenied _ \<Rightarrow> ErrIncidentNotFound | _ \<Rightarrow> e)"

subsection \<open>Reading\<close>

definition OperatorService_Get :: "'s OperatorService \<Rightarrow> ctx \<Rightarrow> 's \<Rightarrow> string \<Rightarrow> string \<Rightarrow> operator_error + Incident" where
  "OperatorService_Get svc ctx s actorID incidentID =
     (case validateOperatorActor actorID of Inl e \<Rightarrow> Inl e
      | Inr _ \<Rightarrow>
     (case (osReader svc, osPolicy svc) of
        (Some reader, Some policy) \<Rightarrow>
          (if TrimSpace incidentID = [] then Inl ErrIncidentNotFound
           else case rdGet reader ctx s incidentID of Inl e \<Rightarrow> Inl e
           | Inr incident \<Rightarrow>
          (case map_error (\<lambda>_. ErrOperatorDependencyUnavailable ''stored incident is invalid'') (Incident_Validate incident)
           of Inl e \<Rightarrow> Inl e
           | Inr _ \<Rightarrow>
          (case map_error hide_denied (apAuthorizeIncident policy ctx actorID CapabilityIncidentRead incident)
           of Inl e \<Rightarrow> Inl e | Inr _ \<Rightarrow> Inr incident)))
      | _ \<Rightarrow> Inl (ErrOperatorDependencyUnavailable [])))"

fun check_page :: "OperatorAccessPolicy \<Rightarrow> ctx \<Rightarrow> string \<Rightarrow> Incident list \<Rightarrow> operator_error + unit" where
  "check_page policy ctx actorID [] = Inr ()"
| "check_page policy ctx actorID (i # is) =
     (case first_error
        [map_error (\<lambda>_. ErrOperatorDependencyUnavailable ''stored incident page contains invalid item'') (Incident_Validate i),
         map_error (\<lambda>_. ErrOperatorDependencyUnavailable ''list scope returned an unauthorized incident'')
           (apAuthorizeIncident policy ctx actorID CapabilityIncidentRead i)]
      of Inl e \<Rightarrow> Inl e | Inr _ \<Rightarrow> check_page policy ctx actorID is)"

definition OperatorService_List :: "'s OperatorService \<Rightarrow> ctx \<Rightarrow> 's \<Rightarrow> string \<Rightarrow> ListQuery \<Rightarrow> operator_error + ListPage" where
  "OperatorService_List svc ctx s actorID query =
     (case validateOperatorActor actorID of Inl e \<Rightarrow> Inl e
      | Inr _ \<Rightarrow>
     (case (osReader svc, osPolicy svc) of
        (Some reader, Some policy) \<Rightarrow>
          (case map_error OperatorQuery (NormalizeListQuery query) of Inl e \<Rightarrow> Inl e
           | Inr normalized \<Rightarrow>
          (case apAuthorizeList policy ctx actorID CapabilityIncidentList normalized of Inl e \<Rightarrow> Inl e
           | Inr _ \<Rightarrow>
          (case rdList reader ctx s normalized of Inl e \<Rightarrow> Inl e
           | Inr page \<Rightarrow>
          (case check_page policy ctx actorID (lpItems page) of Inl e \<Rightarrow> Inl e | Inr _ \<Rightarrow> Inr page))))
      | _ \<Rightarrow> Inl (ErrOperatorDependencyUnavailable [])))"

subsection \<open>Changing\<close>

text \<open>\<^verbatim>\<open>commitMutation\<close> up to the commit: the mutation and the audit record handed to the committer.\<close>

definition prepare_commit ::
  "'s OperatorService \<Rightarrow> ctx \<Rightarrow> 's \<Rightarrow> string \<Rightarrow> string \<Rightarrow> OperatorCapability \<Rightarrow> time \<Rightarrow>
   (Incident \<Rightarrow> string \<Rightarrow> incident_error + PreparedMutation) \<Rightarrow> operator_error + PreparedMutation \<times> OperatorAuditRecord" where
  "prepare_commit svc ctx s actorID incidentID capability occurredAt prepare =
     (case validateOperatorActor actorID of Inl e \<Rightarrow> Inl e
      | Inr _ \<Rightarrow>
     (case (osReader svc, osPolicy svc, osVersions svc, osCommitter svc) of
        (Some reader, Some policy, Some versions, Some _) \<Rightarrow>
          (if TrimSpace incidentID = [] then Inl ErrIncidentNotFound
           else case rdGet reader ctx s incidentID of Inl e \<Rightarrow> Inl e
           | Inr current \<Rightarrow>
          (case first_error
             [map_error (\<lambda>_. ErrOperatorDependencyUnavailable ''stored incident is invalid'') (Incident_Validate current),
              require (omObjectID (inMetadata current) = incidentID)
                (ErrOperatorDependencyUnavailable ''repository returned a different incident''),
              map_error hide_denied (apAuthorizeIncident policy ctx actorID capability current)]
           of Inl e \<Rightarrow> Inl e
           | Inr _ \<Rightarrow>
          (case versions ctx current of
             Inl _ \<Rightarrow> Inl (ErrOperatorDependencyUnavailable ''resource version generation failed'')
           | Inr resourceVersion \<Rightarrow>
             (if TrimSpace resourceVersion = [] \<or> resourceVersion = omResourceVersion (inMetadata current)
              then Inl (ErrOperatorDependencyUnavailable ''resource version generation failed'')
              else case map_error OperatorIncident (prepare current resourceVersion) of Inl e \<Rightarrow> Inl e
              | Inr p \<Rightarrow>
                (let nxt = inMetadata (pmNext p); cur = inMetadata current in
                 if omObjectID nxt \<noteq> omObjectID cur \<or> omScopeID nxt \<noteq> omScopeID cur
                 then Inl (ErrOperatorDependencyUnavailable ''prepared mutation changed incident identity or scope'')
                 else (let auditRecord = \<lparr>arAction = capability, arActorID = actorID, arIncidentID = omObjectID cur,
                         arScopeID = omScopeID cur, arOccurredAt = time_UTC occurredAt, arBeforeStatus = inStatus current,
                         arAfterStatus = inStatus (pmNext p), arBeforeGeneration = omGeneration cur,
                         arAfterGeneration = omGeneration nxt, arBeforeResourceVersion = omResourceVersion cur,
                         arAfterResourceVersion = omResourceVersion nxt\<rparr> in
                    case map_error (\<lambda>m. ErrOperatorDependencyUnavailable (''invalid audit record: '' @ m))
                      (validateOperatorAuditRecord auditRecord) of Inl e \<Rightarrow> Inl e
                    | Inr _ \<Rightarrow> Inr (p, auditRecord)))))))
      | _ \<Rightarrow> Inl (ErrOperatorDependencyUnavailable [])))"

text \<open>The check of what the committer says it stored.\<close>

definition check_persisted :: "PreparedMutation \<Rightarrow> Incident \<Rightarrow> operator_error + Incident" where
  "check_persisted p persisted =
     (case first_error
        [map_error (\<lambda>_. ErrOperatorDependencyUnavailable ''committer returned invalid persisted incident'')
           (Incident_Validate persisted),
         require (\<not> (omObjectID (inMetadata persisted) \<noteq> omObjectID (inMetadata (pmNext p))
                   \<or> omScopeID (inMetadata persisted) \<noteq> omScopeID (inMetadata (pmNext p))
                   \<or> inStatus persisted \<noteq> inStatus (pmNext p)
                   \<or> omGeneration (inMetadata persisted) \<noteq> omGeneration (inMetadata (pmNext p))
                   \<or> omResourceVersion (inMetadata persisted) \<noteq> omResourceVersion (inMetadata (pmNext p))))
           (ErrOperatorDependencyUnavailable ''committer returned a different persisted revision'')]
      of Inl e \<Rightarrow> Inl e | Inr _ \<Rightarrow> Inr persisted)"

definition commitMutation ::
  "'s OperatorService \<Rightarrow> ctx \<Rightarrow> 's \<Rightarrow> 's \<Rightarrow> string \<Rightarrow> string \<Rightarrow> OperatorCapability \<Rightarrow> time \<Rightarrow>
   (Incident \<Rightarrow> string \<Rightarrow> incident_error + PreparedMutation) \<Rightarrow> (operator_error + Incident) \<times> 's" where
  "commitMutation svc ctx s s' actorID incidentID capability occurredAt prepare =
     (case prepare_commit svc ctx s actorID incidentID capability occurredAt prepare of
        Inl e \<Rightarrow> (Inl e, s')
      | Inr (p, auditRecord) \<Rightarrow>
        (case osCommitter svc of
           None \<Rightarrow> (Inl (ErrOperatorDependencyUnavailable []), s')
         | Some committer \<Rightarrow>
           (case committer ctx s' p auditRecord of
              (Inl e, s'') \<Rightarrow> (Inl e, s'')
            | (Inr persisted, s'') \<Rightarrow> (check_persisted p persisted, s''))))"

definition OperatorService_Acknowledge ::
  "'s OperatorService \<Rightarrow> ctx \<Rightarrow> 's \<Rightarrow> 's \<Rightarrow> string \<Rightarrow> string \<Rightarrow> AcknowledgeCommand \<Rightarrow> (operator_error + Incident) \<times> 's" where
  "OperatorService_Acknowledge svc ctx s s' actorID incidentID command =
     commitMutation svc ctx s s' actorID incidentID CapabilityIncidentAcknowledge (acOccurredAt command)
       (\<lambda>current resourceVersion. PrepareAcknowledgement current
          \<lparr>aqPrecondition = acPrecondition command, aqActorID = actorID, aqOccurredAt = acOccurredAt command,
           aqResourceVersion = resourceVersion, aqNote = acNote command\<rparr>)"

definition OperatorService_Resolve ::
  "'s OperatorService \<Rightarrow> ctx \<Rightarrow> 's \<Rightarrow> 's \<Rightarrow> string \<Rightarrow> string \<Rightarrow> ResolveCommand \<Rightarrow> (operator_error + Incident) \<times> 's" where
  "OperatorService_Resolve svc ctx s s' actorID incidentID command =
     commitMutation svc ctx s s' actorID incidentID CapabilityIncidentResolve (rcOccurredAt command)
       (\<lambda>current resourceVersion. PrepareResolution current
          \<lparr>rqPrecondition = rcPrecondition command, rqActorID = actorID, rqOccurredAt = rcOccurredAt command,
           rqResourceVersion = resourceVersion, rqResolution = rcResolution command, rqEvidence = rcEvidence command\<rparr>)"

definition OperatorService_UpdateEvidence ::
  "'s OperatorService \<Rightarrow> ctx \<Rightarrow> 's \<Rightarrow> 's \<Rightarrow> string \<Rightarrow> string \<Rightarrow> EvidenceUpdateCommand \<Rightarrow> (operator_error + Incident) \<times> 's" where
  "OperatorService_UpdateEvidence svc ctx s s' actorID incidentID command =
     commitMutation svc ctx s s' actorID incidentID CapabilityIncidentEvidenceUpdate (ecOccurredAt command)
       (\<lambda>current resourceVersion. PrepareEvidenceUpdate current
          \<lparr>eqPrecondition = ecPrecondition command, eqActorID = actorID, eqOccurredAt = ecOccurredAt command,
           eqResourceVersion = resourceVersion, eqRunbook = ecRunbook command, eqEvidence = ecEvidence command,
           eqNote = ecNote command\<rparr>)"

subsection \<open>The policy on top of role based access control\<close>

record RBACPermissionMap =
  pmRead :: Permission
  pmList :: Permission
  pmAcknowledge :: Permission
  pmResolve :: Permission
  pmEvidenceUpdate :: Permission

definition DefaultRBACPermissionMap :: RBACPermissionMap where
  "DefaultRBACPermissionMap = \<lparr>pmRead = PermissionResourcesRead, pmList = PermissionResourcesRead,
     pmAcknowledge = PermissionCoreObjectsWrite, pmResolve = PermissionCoreObjectsWrite,
     pmEvidenceUpdate = PermissionCoreObjectsWrite\<rparr>"

definition RBACPermissionMap_Validate :: "RBACPermissionMap \<Rightarrow> string + unit" where
  "RBACPermissionMap_Validate m =
     require (\<not> list_ex (\<lambda>p. TrimSpace p = []) [pmRead m, pmList m, pmAcknowledge m, pmResolve m, pmEvidenceUpdate m])
       ''incident RBAC permission map contains an empty permission''"

datatype scope_error = ErrIncidentRBACScopeUnavailable | ScopeCtx ctx_error

definition ScopeIDRBACResolver_resolve :: "ScopeKind \<Rightarrow> string \<Rightarrow> scope_error + Scope" where
  "ScopeIDRBACResolver_resolve kind scopeID0 =
     (let scopeID = TrimSpace scopeID0; scope = \<lparr>scKind = kind, scID = scopeID\<rparr> in
      if scopeID = [] \<or> kind = ScopeGlobal then Inl ErrIncidentRBACScopeUnavailable
      else if \<not> Scope_Valid scope then Inl ErrIncidentRBACScopeUnavailable
      else Inr scope)"

definition ScopeIDRBACResolver_ListScope :: "ScopeKind \<Rightarrow> ctx \<Rightarrow> ListQuery \<Rightarrow> scope_error + Scope" where
  "ScopeIDRBACResolver_ListScope kind ctx query =
     (case ctx of Some e \<Rightarrow> Inl (ScopeCtx e)
      | None \<Rightarrow> if TrimSpace (lqScopeID query) = [] then Inr GlobalScope
                else ScopeIDRBACResolver_resolve kind (lqScopeID query))"

definition ScopeIDRBACResolver_IncidentScope :: "ScopeKind \<Rightarrow> ctx \<Rightarrow> Incident \<Rightarrow> scope_error + Scope" where
  "ScopeIDRBACResolver_IncidentScope kind ctx incident =
     (case ctx of Some e \<Rightarrow> Inl (ScopeCtx e)
      | None \<Rightarrow> ScopeIDRBACResolver_resolve kind (omScopeID (inMetadata incident)))"

record RBACScopeResolver =
  srListScope :: "ctx \<Rightarrow> ListQuery \<Rightarrow> scope_error + Scope"
  srIncidentScope :: "ctx \<Rightarrow> Incident \<Rightarrow> scope_error + Scope"

record RBACOperatorPolicy =
  rpChecker :: "string \<Rightarrow> Permission \<Rightarrow> Scope \<Rightarrow> bool"
  rpScopes :: RBACScopeResolver
  rpPermissions :: RBACPermissionMap

text \<open>The constructor refuses nil dependencies, so the methods run with both present.\<close>

definition NewRBACOperatorPolicy ::
  "(string \<Rightarrow> Permission \<Rightarrow> Scope \<Rightarrow> bool) option \<Rightarrow> RBACScopeResolver option \<Rightarrow> RBACPermissionMap \<Rightarrow>
   operator_error + RBACOperatorPolicy" where
  "NewRBACOperatorPolicy checker scopes permissions =
     (case (checker, scopes) of
        (Some c, Some sc) \<Rightarrow>
          (case map_error ErrOperatorDependencyUnavailable (RBACPermissionMap_Validate permissions) of
             Inl e \<Rightarrow> Inl e
           | Inr _ \<Rightarrow> Inr \<lparr>rpChecker = c, rpScopes = sc, rpPermissions = permissions\<rparr>)
      | _ \<Rightarrow> Inl (ErrOperatorDependencyUnavailable []))"

definition permissionFor :: "RBACOperatorPolicy \<Rightarrow> OperatorCapability \<Rightarrow> operator_error + Permission" where
  "permissionFor p capability =
     (case capability of
        CapabilityIncidentRead \<Rightarrow> Inr (pmRead (rpPermissions p))
      | CapabilityIncidentAcknowledge \<Rightarrow> Inr (pmAcknowledge (rpPermissions p))
      | CapabilityIncidentResolve \<Rightarrow> Inr (pmResolve (rpPermissions p))
      | CapabilityIncidentEvidenceUpdate \<Rightarrow> Inr (pmEvidenceUpdate (rpPermissions p))
      | _ \<Rightarrow> Inl (ErrOperatorDependencyUnavailable ''unsupported incident capability''))"

definition check_scope :: "RBACOperatorPolicy \<Rightarrow> string \<Rightarrow> Permission \<Rightarrow> scope_error + Scope \<Rightarrow> operator_error + unit" where
  "check_scope p actorID permission resolved_scope =
     (case resolved_scope of
        Inl _ \<Rightarrow> Inl (ErrOperatorDependencyUnavailable ''incident RBAC scope unavailable'')
      | Inr target \<Rightarrow>
          (if \<not> Scope_Valid target then Inl (ErrOperatorDependencyUnavailable ''incident RBAC scope unavailable'')
           else if \<not> rpChecker p actorID permission target then Inl (ErrOperatorAccessDenied [])
           else Inr ()))"

definition AuthorizeList ::
  "RBACOperatorPolicy \<Rightarrow> ctx \<Rightarrow> string \<Rightarrow> OperatorCapability \<Rightarrow> ListQuery \<Rightarrow> operator_error + unit" where
  "AuthorizeList p ctx actorID capability query = first_error
     [require (capability = CapabilityIncidentList) (ErrOperatorDependencyUnavailable ''unsupported list capability''),
      validateOperatorActor actorID,
      (case ctx of Some e \<Rightarrow> Inl (OperatorCtx e) | None \<Rightarrow> Inr ()),
      check_scope p actorID (pmList (rpPermissions p)) (srListScope (rpScopes p) ctx query)]"

definition AuthorizeIncident ::
  "RBACOperatorPolicy \<Rightarrow> ctx \<Rightarrow> string \<Rightarrow> OperatorCapability \<Rightarrow> Incident \<Rightarrow> operator_error + unit" where
  "AuthorizeIncident p ctx actorID capability incident =
     (case first_error
        [validateOperatorActor actorID, (case ctx of Some e \<Rightarrow> Inl (OperatorCtx e) | None \<Rightarrow> Inr ())]
      of Inl e \<Rightarrow> Inl e
       | Inr _ \<Rightarrow>
         (case permissionFor p capability of Inl e \<Rightarrow> Inl e
          | Inr permission \<Rightarrow> check_scope p actorID permission (srIncidentScope (rpScopes p) ctx incident)))"

subsection \<open>The commands\<close>

datatype operator_command =
    CommandAcknowledge AcknowledgeCommand
  | CommandResolve ResolveCommand
  | CommandUpdateEvidence EvidenceUpdateCommand

definition run_command ::
  "'s OperatorService \<Rightarrow> ctx \<Rightarrow> 's \<Rightarrow> 's \<Rightarrow> string \<Rightarrow> string \<Rightarrow> operator_command \<Rightarrow> (operator_error + Incident) \<times> 's" where
  "run_command svc ctx s s' actorID incidentID cmd =
     (case cmd of CommandAcknowledge c \<Rightarrow> OperatorService_Acknowledge svc ctx s s' actorID incidentID c
      | CommandResolve c \<Rightarrow> OperatorService_Resolve svc ctx s s' actorID incidentID c
      | CommandUpdateEvidence c \<Rightarrow> OperatorService_UpdateEvidence svc ctx s s' actorID incidentID c)"

definition command_capability :: "operator_command \<Rightarrow> OperatorCapability" where
  "command_capability cmd = (case cmd of CommandAcknowledge c \<Rightarrow> CapabilityIncidentAcknowledge
     | CommandResolve c \<Rightarrow> CapabilityIncidentResolve | CommandUpdateEvidence c \<Rightarrow> CapabilityIncidentEvidenceUpdate)"

definition command_at :: "operator_command \<Rightarrow> time" where
  "command_at cmd = (case cmd of CommandAcknowledge c \<Rightarrow> acOccurredAt c | CommandResolve c \<Rightarrow> rcOccurredAt c
     | CommandUpdateEvidence c \<Rightarrow> ecOccurredAt c)"

definition command_mutation :: "operator_command \<Rightarrow> string \<Rightarrow> string \<Rightarrow> operator_mutation" where
  "command_mutation cmd actor rv =
     (case cmd of
        CommandAcknowledge c \<Rightarrow> Acknowledge \<lparr>aqPrecondition = acPrecondition c, aqActorID = actor,
          aqOccurredAt = acOccurredAt c, aqResourceVersion = rv, aqNote = acNote c\<rparr>
      | CommandResolve c \<Rightarrow> Resolve \<lparr>rqPrecondition = rcPrecondition c, rqActorID = actor, rqOccurredAt = rcOccurredAt c,
          rqResourceVersion = rv, rqResolution = rcResolution c, rqEvidence = rcEvidence c\<rparr>
      | CommandUpdateEvidence c \<Rightarrow> UpdateEvidence \<lparr>eqPrecondition = ecPrecondition c, eqActorID = actor,
          eqOccurredAt = ecOccurredAt c, eqResourceVersion = rv, eqRunbook = ecRunbook c, eqEvidence = ecEvidence c,
          eqNote = ecNote c\<rparr>)"

lemmas command_views = command_capability_def command_at_def command_mutation_def

text \<open>The audit record of a change from \<open>c\<close> to \<open>n\<close>.\<close>

definition audit_of :: "operator_command \<Rightarrow> string \<Rightarrow> Incident \<Rightarrow> Incident \<Rightarrow> OperatorAuditRecord" where
  "audit_of cmd actor c n =
     \<lparr>arAction = command_capability cmd, arActorID = actor, arIncidentID = omObjectID (inMetadata c),
      arScopeID = omScopeID (inMetadata c), arOccurredAt = command_at cmd, arBeforeStatus = inStatus c,
      arAfterStatus = inStatus n, arBeforeGeneration = omGeneration (inMetadata c),
      arAfterGeneration = omGeneration (inMetadata n), arBeforeResourceVersion = omResourceVersion (inMetadata c),
      arAfterResourceVersion = omResourceVersion (inMetadata n)\<rparr>"

definition prepare_command ::
  "'s OperatorService \<Rightarrow> ctx \<Rightarrow> 's \<Rightarrow> string \<Rightarrow> string \<Rightarrow> operator_command \<Rightarrow>
   operator_error + PreparedMutation \<times> OperatorAuditRecord" where
  "prepare_command svc ctx s actor i cmd =
     prepare_commit svc ctx s actor i (command_capability cmd) (command_at cmd)
       (\<lambda>c rv. prepare_mutation c (command_mutation cmd actor rv))"

lemma run_command_eq:
  "run_command svc ctx s s' actor i cmd =
     (case prepare_command svc ctx s actor i cmd of
        Inl e \<Rightarrow> (Inl e, s')
      | Inr (p, r) \<Rightarrow>
        (case osCommitter svc of
           None \<Rightarrow> (Inl (ErrOperatorDependencyUnavailable []), s')
         | Some committer \<Rightarrow>
           (case committer ctx s' p r of
              (Inl e, s'') \<Rightarrow> (Inl e, s'')
            | (Inr persisted, s'') \<Rightarrow> (check_persisted p persisted, s''))))"
  by (cases cmd) (simp_all add: run_command_def OperatorService_Acknowledge_def OperatorService_Resolve_def
      OperatorService_UpdateEvidence_def commitMutation_def prepare_command_def command_views prepare_mutation_def)

lemma validateOperatorActor_iff [simp]: "validateOperatorActor a = Inr () \<longleftrightarrow> ref_ok a"
  by (auto simp: validateOperatorActor_def ref_ok_def)

lemma metadata_refs:
  assumes "metadata_ok m"
  shows "ref_ok (omObjectID m)" "ref_ok (omScopeID m)" "omResourceVersion m \<noteq> []"
proof -
  have "validateIdentifier ''object_id'' (omObjectID m) = Inr ()" "validateIdentifier ''scope_id'' (omScopeID m) = Inr ()"
      "validateOpaqueVersion (omResourceVersion m) = Inr ()"
    using assms by (auto simp: metadata_ok_def ObjectMetadata_Validate_def)
  then show "ref_ok (omObjectID m)" "ref_ok (omScopeID m)" "omResourceVersion m \<noteq> []"
    using identifier_chars(2) opaque_nonempty by blast+
qed

text \<open>The audit record of a prepared change is always well-formed, so the last check refuses nothing.\<close>

lemma audit_record_valid:
  assumes "prepare_mutation c (command_mutation cmd actor rv) = Inr p"
  shows "validateOperatorAuditRecord (audit_of cmd actor c (pmNext p)) = Inr ()"
    and "omObjectID (inMetadata (pmNext p)) = omObjectID (inMetadata c)"
    and "omScopeID (inMetadata (pmNext p)) = omScopeID (inMetadata c)"
proof -
  let ?m = "command_mutation cmd actor rv"
  note v = mutation_valid[OF assms] and base = mutation_prepared[OF assms, THEN conjunct1]
  have c: "metadata_ok (inMetadata c)" "Status_Valid (inStatus c)" and n: "metadata_ok (inMetadata (pmNext p))"
      "Status_Valid (inStatus (pmNext p))"
    using v(1,2) by (simp_all add: Incident_Validate_iff)
  have same: "same_observation c (pmNext p)" by (rule mutation_effect(1)[OF assms])
  then show "omObjectID (inMetadata (pmNext p)) = omObjectID (inMetadata c)"
      "omScopeID (inMetadata (pmNext p)) = omScopeID (inMetadata c)"
    by (simp_all add: same_observation_def)
  have view: "mutation_actor ?m = actor" "mutation_at ?m = command_at cmd"
    by (cases cmd; simp add: command_views mutation_views)+
  have "ref_ok actor" "command_at cmd \<noteq> 0" using base_times(2,4)[OF base] view by simp_all
  moreover have "omResourceVersion (inMetadata (pmNext p)) \<noteq> omResourceVersion (inMetadata c)"
      "omGeneration (inMetadata c) \<le> omGeneration (inMetadata (pmNext p))"
    using v(4) wantGeneration_unat[of "omGeneration (inMetadata c)" "\<not> is_update ?m"]
    by (auto simp: ValidateSuccessor_iff word_le_nat_alt)
  moreover have "command_capability cmd \<in> {CapabilityIncidentAcknowledge, CapabilityIncidentResolve, CapabilityIncidentEvidenceUpdate}"
    by (cases cmd) (simp_all add: command_capability_def)
  ultimately show "validateOperatorAuditRecord (audit_of cmd actor c (pmNext p)) = Inr ()"
    using metadata_refs[OF c(1)] metadata_refs[OF n(1)] c(2) n(2)
    by (auto simp: validateOperatorAuditRecord_def audit_of_def not_less)
qed

text \<open>What has to be true for a command to reach the committer.\<close>

definition admitted ::
  "'s OperatorService \<Rightarrow> ctx \<Rightarrow> 's \<Rightarrow> string \<Rightarrow> string \<Rightarrow> operator_command \<Rightarrow> Incident \<Rightarrow> PreparedMutation \<Rightarrow> bool" where
  "admitted svc ctx s actor i cmd c p \<longleftrightarrow>
     (\<exists>reader policy versions rv. osReader svc = Some reader \<and> osPolicy svc = Some policy \<and> osVersions svc = Some versions
        \<and> osCommitter svc \<noteq> None \<and> rdGet reader ctx s i = Inr c \<and> omObjectID (inMetadata c) = i
        \<and> apAuthorizeIncident policy ctx actor (command_capability cmd) c = Inr ()
        \<and> versions ctx c = Inr rv \<and> prepare_mutation c (command_mutation cmd actor rv) = Inr p)"

lemma prepare_commit_Inr:
  assumes "osReader svc = Some reader" "osPolicy svc = Some policy" "osVersions svc = Some versions"
    "osCommitter svc = Some committer"
  shows "prepare_commit svc ctx s actor i cap at prep = Inr x \<longleftrightarrow>
     (\<exists>c rv p. ref_ok actor \<and> TrimSpace i \<noteq> [] \<and> rdGet reader ctx s i = Inr c \<and> Incident_Validate c = Inr ()
        \<and> omObjectID (inMetadata c) = i \<and> apAuthorizeIncident policy ctx actor cap c = Inr () \<and> versions ctx c = Inr rv
        \<and> TrimSpace rv \<noteq> [] \<and> rv \<noteq> omResourceVersion (inMetadata c) \<and> prep c rv = Inr p
        \<and> omObjectID (inMetadata (pmNext p)) = omObjectID (inMetadata c)
        \<and> omScopeID (inMetadata (pmNext p)) = omScopeID (inMetadata c)
        \<and> (let r = \<lparr>arAction = cap, arActorID = actor, arIncidentID = omObjectID (inMetadata c),
              arScopeID = omScopeID (inMetadata c), arOccurredAt = at, arBeforeStatus = inStatus c,
              arAfterStatus = inStatus (pmNext p), arBeforeGeneration = omGeneration (inMetadata c),
              arAfterGeneration = omGeneration (inMetadata (pmNext p)),
              arBeforeResourceVersion = omResourceVersion (inMetadata c),
              arAfterResourceVersion = omResourceVersion (inMetadata (pmNext p))\<rparr>
           in validateOperatorAuditRecord r = Inr () \<and> x = (p, r)))"
  unfolding prepare_commit_def assms option.case prod.case
  by (cases "rdGet reader ctx s i"; cases "TrimSpace i = []")
     (auto simp: early_return_Inr Let_def split: sum.splits)

lemma prepared_version:
  assumes "prepare_mutation c (command_mutation cmd actor rv) = Inr p"
  shows "TrimSpace rv \<noteq> []" "rv \<noteq> omResourceVersion (inMetadata c)"
proof -
  have rv: "omResourceVersion (inMetadata (pmNext p)) = rv"
    using assms by (cases cmd) (auto simp: command_mutation_def prepare_mutation_def PrepareAcknowledgement_iff
        PrepareResolution_iff PrepareEvidenceUpdate_iff acknowledged_def resolved_def annotated_def next_metadata_def)
  have "validateOpaqueVersion rv = Inr ()"
    using mutation_valid(2)[OF assms] rv by (auto simp: Incident_Validate_iff metadata_ok_def ObjectMetadata_Validate_def)
  then show "TrimSpace rv \<noteq> []" by (auto simp: validateOpaqueVersion_def split: if_splits)
  show "rv \<noteq> omResourceVersion (inMetadata c)" using mutation_valid(4)[OF assms] rv by (simp add: ValidateSuccessor_iff)
qed

lemma prepare_command_iff:
  "prepare_command svc ctx s actor i cmd = Inr (p, r) \<longleftrightarrow>
     (\<exists>c. admitted svc ctx s actor i cmd c p \<and> r = audit_of cmd actor c (pmNext p))"
proof (cases "osReader svc = None \<or> osPolicy svc = None \<or> osVersions svc = None \<or> osCommitter svc = None")
  case True
  then show ?thesis
    by (auto simp: prepare_command_def prepare_commit_def admitted_def early_return_Inr split: option.splits)
next
  case False
  then obtain reader policy versions committer where deps: "osReader svc = Some reader" "osPolicy svc = Some policy"
      "osVersions svc = Some versions" "osCommitter svc = Some committer" by auto
  have implied: "ref_ok actor \<and> TrimSpace (omObjectID (inMetadata c)) \<noteq> [] \<and> Incident_Validate c = Inr ()
      \<and> TrimSpace rv \<noteq> [] \<and> rv \<noteq> omResourceVersion (inMetadata c)
      \<and> omObjectID (inMetadata (pmNext p)) = omObjectID (inMetadata c)
      \<and> omScopeID (inMetadata (pmNext p)) = omScopeID (inMetadata c)
      \<and> validateOperatorAuditRecord (audit_of cmd actor c (pmNext p)) = Inr ()"
    if "prepare_mutation c (command_mutation cmd actor rv) = Inr p" for c rv
  proof -
    have "ref_ok actor" using audit_record_valid(1)[OF that] by (simp add: validateOperatorAuditRecord_def audit_of_def)
    moreover have "ref_ok (omObjectID (inMetadata c))"
      using mutation_valid(1)[OF that] metadata_refs(1) by (simp add: Incident_Validate_iff)
    ultimately show ?thesis using audit_record_valid[OF that] prepared_version[OF that] mutation_valid(1)[OF that]
      by (auto simp: ref_ok_def)
  qed
  show ?thesis
    unfolding prepare_command_def prepare_commit_Inr[OF deps] admitted_def deps Let_def audit_of_def[symmetric]
    using implied by (auto simp: deps)
qed

subsection \<open>Properties\<close>


definition rbac_resolver :: "ScopeKind \<Rightarrow> RBACScopeResolver" where
  "rbac_resolver kind = \<lparr>srListScope = ScopeIDRBACResolver_ListScope kind,
     srIncidentScope = ScopeIDRBACResolver_IncidentScope kind\<rparr>"

definition rbac_checker :: "rbac_op list \<Rightarrow> string \<Rightarrow> Permission \<Rightarrow> Scope \<Rightarrow> bool" where
  "rbac_checker ops u p t = Allowed u p t (run_rbac ops)"

definition rbac_policy :: "RBACOperatorPolicy \<Rightarrow> OperatorAccessPolicy" where
  "rbac_policy p = \<lparr>apAuthorizeList = AuthorizeList p, apAuthorizeIncident = AuthorizeIncident p\<rparr>"

text \<open>A binding of the actor on the scope, or a global one, to a role that may write core objects.\<close>

definition write_grant :: "rbac_op list \<Rightarrow> ScopeKind \<Rightarrow> string \<Rightarrow> string \<Rightarrow> bool" where
  "write_grant ops kind actor scope \<longleftrightarrow>
     (\<exists>b ps. OpBind b \<in> set ops \<and> bnSubjectID b = actor \<and> scopeContains (bnScope b) \<lparr>scKind = kind, scID = scope\<rparr>
        \<and> role_permissions (rev ops) (bnRoleName b) = Some ps \<and> (PermissionAll \<in> ps \<or> PermissionCoreObjectsWrite \<in> ps))"

lemma AuthorizeIncident_grant:
  assumes p: "NewRBACOperatorPolicy (Some (rbac_checker ops)) (Some (rbac_resolver kind)) DefaultRBACPermissionMap = Inr p"
    and c: "Incident_Validate c = Inr ()"
    and ok: "AuthorizeIncident p ctx actor (command_capability cmd) c = Inr ()"
  shows "write_grant ops kind actor (omScopeID (inMetadata c))"
proof -
  have p: "p = \<lparr>rpChecker = rbac_checker ops, rpScopes = rbac_resolver kind, rpPermissions = DefaultRBACPermissionMap\<rparr>"
    using p by (auto simp: NewRBACOperatorPolicy_def early_return_Inr)
  have perm: "permissionFor p (command_capability cmd) = Inr PermissionCoreObjectsWrite"
    by (cases cmd) (simp_all add: p permissionFor_def command_capability_def DefaultRBACPermissionMap_def)
  have trim: "TrimSpace (omScopeID (inMetadata c)) = omScopeID (inMetadata c)"
    using c metadata_refs(2) by (simp add: Incident_Validate_iff ref_ok_def)
  have "check_scope p actor PermissionCoreObjectsWrite (srIncidentScope (rpScopes p) ctx c) = Inr ()"
    using ok perm unfolding AuthorizeIncident_def early_return_Inr by auto
  then have "Allowed actor PermissionCoreObjectsWrite \<lparr>scKind = kind, scID = omScopeID (inMetadata c)\<rparr> (run_rbac ops)"
    by (auto simp: check_scope_def p rbac_resolver_def rbac_checker_def ScopeIDRBACResolver_IncidentScope_def
        ScopeIDRBACResolver_resolve_def Let_def trim split: sum.splits option.splits if_splits)
  then show ?thesis unfolding Allowed_run write_grant_def Bex_def run_rbac_bindings by (metis in_set_conv_decomp)
qed

text \<open>
  C9: With the policy built on role based access control and the default permissions, no command changes
  anything unless the actor has a binding, on the scope of the incident or globally, to a role that
  as last registered may write core objects.
\<close>

theorem incident_change_needs_grant:
  assumes "NewRBACOperatorPolicy (Some (rbac_checker ops)) (Some (rbac_resolver kind)) DefaultRBACPermissionMap = Inr p"
    and "osPolicy svc = Some (rbac_policy p)" "osReader svc = Some reader"
    and "snd (run_command svc ctx s s' actor i cmd) \<noteq> s'"
  shows "\<exists>c. rdGet reader ctx s i = Inr c \<and> omObjectID (inMetadata c) = i
    \<and> write_grant ops kind actor (omScopeID (inMetadata c))"
proof (cases "prepare_command svc ctx s actor i cmd")
  case (Inl e)
  then show ?thesis using assms(4) by (simp add: run_command_eq)
next
  case (Inr x)
  obtain q r where x: "x = (q, r)" by (cases x) simp
  from Inr[unfolded x prepare_command_iff] obtain c where "admitted svc ctx s actor i cmd c q" by blast
  then obtain rv where c: "rdGet reader ctx s i = Inr c" "omObjectID (inMetadata c) = i"
      "AuthorizeIncident p ctx actor (command_capability cmd) c = Inr ()"
      "prepare_mutation c (command_mutation cmd actor rv) = Inr q"
    by (auto simp: admitted_def assms rbac_policy_def)
  from AuthorizeIncident_grant[OF assms(1) mutation_valid(1)[OF c(4)] c(3)] show ?thesis using c by blast
qed

subsection \<open>A concrete service\<close>

text \<open>A store of one incident and the list of audit records, one operator bound to a writing role on its scope.\<close>

definition w_service :: "RBACOperatorPolicy \<Rightarrow> (Incident \<times> OperatorAuditRecord list) OperatorService" where
  "w_service p = \<lparr>osReader = Some \<lparr>rdGet = \<lambda>_ s _. Inr (fst s), rdList = \<lambda>_ s _. Inl ErrIncidentNotFound\<rparr>,
     osPolicy = Some (rbac_policy p), osVersions = Some (\<lambda>_ _. Inr ''b''),
     osCommitter = Some (\<lambda>_ s m r. (Inr (pmNext m), (pmNext m, r # snd s)))\<rparr>"

definition w_rbac :: "rbac_op list" where
  "w_rbac = [OpRole \<lparr>rlName = ''n'', rlDescription = [], rlPermissions = [PermissionCoreObjectsWrite]\<rparr>,
     OpBind \<lparr>bnSubjectID = ''n'', bnRoleName = ''n'', bnScope = \<lparr>scKind = ScopeSite, scID = ''s''\<rparr>\<rparr>]"

definition w_rbac_policy :: RBACOperatorPolicy where
  "w_rbac_policy = \<lparr>rpChecker = rbac_checker w_rbac, rpScopes = rbac_resolver ScopeSite,
     rpPermissions = DefaultRBACPermissionMap\<rparr>"

definition w_command :: operator_command where
  "w_command = CommandUpdateEvidence \<lparr>ecPrecondition = w_precondition ''a'', ecOccurredAt = 3, ecRunbook = None,
     ecEvidence = [w_evidence], ecNote = ''x''\<rparr>"

lemma w_trims: "TrimSpace ''n'' = ''n''" "TrimSpace ''s'' = ''s''" "TrimSpace PermissionCoreObjectsWrite \<noteq> []"
    "TrimSpace PermissionResourcesRead \<noteq> []"
  by code_simp+

lemma w_policy_new:
  "NewRBACOperatorPolicy (Some (rbac_checker w_rbac)) (Some (rbac_resolver ScopeSite)) DefaultRBACPermissionMap = Inr w_rbac_policy"
  by (simp add: NewRBACOperatorPolicy_def w_rbac_policy_def RBACPermissionMap_Validate_def DefaultRBACPermissionMap_def
      w_trims map_error_def require_def)

lemma w_allowed: "Allowed ''n'' PermissionCoreObjectsWrite \<lparr>scKind = ScopeSite, scID = ''s''\<rparr> (run_rbac w_rbac)"
  by (simp add: w_rbac_def run_rbac_def NewAuthorizer_def RegisterRole_def Bind_def Allowed_def Let_def w_trims
      Scope_Valid_def scopeContains_def)

lemma w_authorized:
  "AuthorizeIncident w_rbac_policy None ''n'' CapabilityIncidentEvidenceUpdate w_incident = Inr ()"
proof -
  have "srIncidentScope (rbac_resolver ScopeSite) None w_incident = Inr \<lparr>scKind = ScopeSite, scID = ''s''\<rparr>"
    by (simp add: rbac_resolver_def ScopeIDRBACResolver_IncidentScope_def ScopeIDRBACResolver_resolve_def w_trims
        Scope_Valid_def w_incident_def)
  then show ?thesis using w_allowed w_texts(1) unfolding AuthorizeIncident_def early_return_Inr
    by (simp add: w_rbac_policy_def permissionFor_def DefaultRBACPermissionMap_def check_scope_def
        rbac_checker_def Scope_Valid_def w_trims)
qed

lemma w_admitted:
  "admitted (w_service w_rbac_policy) None (w_incident, []) ''n'' ''n'' w_command w_incident
     \<lparr>pmPrecondition = w_precondition ''a'', pmNext = annotated w_incident w_update, pmDesiredChanged = False\<rparr>"
proof -
  have "command_mutation w_command ''n'' ''b'' = UpdateEvidence w_update"
    by (simp add: command_mutation_def w_command_def w_update_def)
  moreover have "prepare_mutation w_incident (UpdateEvidence w_update) =
      Inr \<lparr>pmPrecondition = w_precondition ''a'', pmNext = annotated w_incident w_update, pmDesiredChanged = False\<rparr>"
    by (rule w_updated)
  moreover have "omObjectID (inMetadata w_incident) = ''n''" "command_capability w_command = CapabilityIncidentEvidenceUpdate"
    by (simp_all add: w_incident_def w_command_def command_capability_def)
  ultimately show ?thesis using w_authorized by (auto simp: admitted_def w_service_def rbac_policy_def)
qed

lemma w_command_run:
  "snd (run_command (w_service w_rbac_policy) None (w_incident, []) (w_incident, []) ''n'' ''n'' w_command) \<noteq> (w_incident, [])"
proof -
  have "prepare_command (w_service w_rbac_policy) None (w_incident, []) ''n'' ''n'' w_command =
      Inr (\<lparr>pmPrecondition = w_precondition ''a'', pmNext = annotated w_incident w_update, pmDesiredChanged = False\<rparr>,
        audit_of w_command ''n'' w_incident (annotated w_incident w_update))"
    unfolding prepare_command_iff using w_admitted by force
  then show ?thesis by (simp add: run_command_eq w_service_def)
qed


theorem incident_change_needs_grant_witness:
  "snd (run_command (w_service w_rbac_policy) None (w_incident, []) (w_incident, []) ''n'' ''n'' w_command) \<noteq> (w_incident, [])
   \<and> write_grant w_rbac ScopeSite ''n'' (omScopeID (inMetadata w_incident))"
proof -
  have "osPolicy (w_service w_rbac_policy) = Some (rbac_policy w_rbac_policy)"
    "osReader (w_service w_rbac_policy) = Some \<lparr>rdGet = \<lambda>_ s _. Inr (fst s), rdList = \<lambda>_ s _. Inl ErrIncidentNotFound\<rparr>"
    by (simp_all add: w_service_def)
  from incident_change_needs_grant[OF w_policy_new this w_command_run] w_command_run show ?thesis by simp
qed

end
