(* ===== verification/Login_Protection.thy ===== *)
theory Login_Protection
  imports Go_Text Go_Sha256
begin

text \<open>
  Package \<^verbatim>\<open>internal/identity/auth\<close>, file \<^verbatim>\<open>login_protection.go\<close>: counting of failed logins per account
  and per source address, and temporary blocking. The methods run under the mutex of the protector,
  so each is one step on its state. The table is a Go map: its list order is the iteration order,
  which changes from one iteration to the next, and the histories below allow any reordering.

  Two parts of Go's library are parameters: \<open>unicode_lower\<close> is \<^verbatim>\<open>strings.ToLower\<close> on strings that are
  not ASCII (it follows the Unicode tables), and \<open>canonical_ip\<close> is \<^verbatim>\<open>net.ParseIP\<close> followed by
  \<^verbatim>\<open>String\<close>, \<open>None\<close> for a string that is no address. Nothing is assumed of either.
\<close>

subsection \<open>Keys\<close>

definition ToLower :: "(string \<Rightarrow> string) \<Rightarrow> string \<Rightarrow> string" where
  "ToLower unicode_lower s =
     (if list_all (\<lambda>c. (of_char c :: nat) < 128) s then map lower_char s else unicode_lower s)"

definition normalizeUsername :: "(string \<Rightarrow> string) \<Rightarrow> string \<Rightarrow> string" where
  "normalizeUsername unicode_lower v = ToLower unicode_lower (TrimSpace v)"

definition protectedLoginKey :: "string \<Rightarrow> string \<Rightarrow> string" where
  "protectedLoginKey kind v = sha256_hex (kind @ [CHR 0x00] @ v)"

definition loginAccountProtectionKey :: "(string \<Rightarrow> string) \<Rightarrow> string \<Rightarrow> string" where
  "loginAccountProtectionKey unicode_lower username =
     protectedLoginKey ''account'' (normalizeUsername unicode_lower username)"

definition loginSourceProtectionKey :: "(string \<Rightarrow> string) \<Rightarrow> (string \<Rightarrow> string option) \<Rightarrow> string \<Rightarrow> string" where
  "loginSourceProtectionKey unicode_lower canonical_ip sourceIP0 =
     (let trimmed = TrimSpace sourceIP0;
          sourceIP = (case canonical_ip trimmed of Some ip \<Rightarrow> ip | None \<Rightarrow> ToLower unicode_lower trimmed)
      in protectedLoginKey ''source'' (if sourceIP = [] then ''unknown'' else sourceIP))"

subsection \<open>State\<close>

record LoginProtectionPolicy =
  ppFailureWindow :: duration
  ppAccountFailureLimit :: int
  ppSourceFailureLimit :: int
  ppBlockDuration :: duration
  ppMaxTrackedKeys :: int

definition DefaultLoginProtectionPolicy :: LoginProtectionPolicy where
  "DefaultLoginProtectionPolicy = \<lparr>ppFailureWindow = 10 * minute, ppAccountFailureLimit = 8, ppSourceFailureLimit = 30,
     ppBlockDuration = 15 * minute, ppMaxTrackedKeys = 10000\<rparr>"

definition LoginProtectionPolicy_validate :: "LoginProtectionPolicy \<Rightarrow> string + unit" where
  "LoginProtectionPolicy_validate p = first_error
     [require (\<not> (ppFailureWindow p < minute \<or> ppFailureWindow p > hour)) ''login failure window outside allowed range'',
      require (\<not> (ppAccountFailureLimit p < 2 \<or> ppAccountFailureLimit p > 100))
        ''login account failure limit outside allowed range'',
      require (\<not> (ppSourceFailureLimit p < ppAccountFailureLimit p \<or> ppSourceFailureLimit p > 1000))
        ''login source failure limit outside allowed range'',
      require (\<not> (ppBlockDuration p < minute \<or> ppBlockDuration p > 24 * hour)) ''login block duration outside allowed range'',
      require (\<not> (ppMaxTrackedKeys p < 128 \<or> ppMaxTrackedKeys p > 1000000)) ''login protection key bound outside allowed range'']"

record loginAttemptBucket =
  lbWindowStartedAt :: "time"
  lbFailures :: int
  lbBlockedUntil :: "time"
  lbTouchedAt :: "time"

definition zero_bucket :: loginAttemptBucket where
  "zero_bucket = \<lparr>lbWindowStartedAt = 0, lbFailures = 0, lbBlockedUntil = 0, lbTouchedAt = 0\<rparr>"

record LoginProtector =
  lrPolicy :: LoginProtectionPolicy
  lrBuckets :: "(string \<times> loginAttemptBucket) list"

definition newLoginProtector :: "LoginProtectionPolicy \<Rightarrow> LoginProtector" where
  "newLoginProtector policy = \<lparr>lrPolicy = policy, lrBuckets = []\<rparr>"

subsection \<open>Methods\<close>

definition normalizeBucket :: "LoginProtectionPolicy \<Rightarrow> loginAttemptBucket \<Rightarrow> time \<Rightarrow> loginAttemptBucket" where
  "normalizeBucket policy bucket now =
     (if \<not> IsZero (lbBlockedUntil bucket) \<and> \<not> now < lbBlockedUntil bucket then zero_bucket
      else if IsZero (lbBlockedUntil bucket) \<and> \<not> IsZero (lbWindowStartedAt bucket)
           \<and> \<not> now < time_Add (lbWindowStartedAt bucket) (ppFailureWindow policy) then zero_bucket
      else bucket)"

definition blockedLocked :: "string \<Rightarrow> time \<Rightarrow> LoginProtector \<Rightarrow> bool \<times> LoginProtector" where
  "blockedLocked key now p =
     (case gget (lrBuckets p) key of
        None \<Rightarrow> (False, p)
      | Some stored \<Rightarrow>
        (let bucket = normalizeBucket (lrPolicy p) stored now in
         if lbFailures bucket = 0 \<and> IsZero (lbBlockedUntil bucket)
         then (False, p\<lparr>lrBuckets := gdel key (lrBuckets p)\<rparr>)
         else (\<not> IsZero (lbBlockedUntil bucket) \<and> now < lbBlockedUntil bucket,
               p\<lparr>lrBuckets := gput key (bucket\<lparr>lbTouchedAt := now\<rparr>) (lrBuckets p)\<rparr>)))"

text \<open>
  The loop of \<^verbatim>\<open>evictOldestEvictableLocked\<close>: the key to delete. An expired bucket ends the loop at once,
  a blocked one is passed over, otherwise the one touched first wins.
\<close>

fun evict_loop ::
  "LoginProtectionPolicy \<Rightarrow> time \<Rightarrow> (string \<times> time) option \<Rightarrow> (string \<times> loginAttemptBucket) list \<Rightarrow> string option" where
  "evict_loop policy now oldest [] = map_option fst oldest"
| "evict_loop policy now oldest ((key, bucket) # bs) =
     (let normalized = normalizeBucket policy bucket now in
      if lbFailures normalized = 0 \<and> IsZero (lbBlockedUntil normalized) then Some key
      else if \<not> IsZero (lbBlockedUntil normalized) \<and> now < lbBlockedUntil normalized
      then evict_loop policy now oldest bs
      else if oldest = None \<or> lbTouchedAt normalized < snd (the oldest)
      then evict_loop policy now (Some (key, lbTouchedAt normalized)) bs
      else evict_loop policy now oldest bs)"

definition evictOldestEvictableLocked :: "time \<Rightarrow> LoginProtector \<Rightarrow> LoginProtector" where
  "evictOldestEvictableLocked now p =
     (case evict_loop (lrPolicy p) now None (lrBuckets p) of
        None \<Rightarrow> p
      | Some key \<Rightarrow> p\<lparr>lrBuckets := gdel key (lrBuckets p)\<rparr>)"

definition putBucketLocked :: "string \<Rightarrow> loginAttemptBucket \<Rightarrow> time \<Rightarrow> LoginProtector \<Rightarrow> bool \<times> LoginProtector" where
  "putBucketLocked key bucket now p =
     (if gget (lrBuckets p) key \<noteq> None then (True, p\<lparr>lrBuckets := gput key bucket (lrBuckets p)\<rparr>)
      else (let q = (if int (length (lrBuckets p)) \<ge> ppMaxTrackedKeys (lrPolicy p)
                     then evictOldestEvictableLocked now p else p) in
        if int (length (lrBuckets q)) \<ge> ppMaxTrackedKeys (lrPolicy q) then (False, q)
        else (True, q\<lparr>lrBuckets := gput key bucket (lrBuckets q)\<rparr>)))"

definition recordFailureLocked :: "string \<Rightarrow> int \<Rightarrow> time \<Rightarrow> LoginProtector \<Rightarrow> bool \<times> LoginProtector" where
  "recordFailureLocked key limit now p =
     (let stored = (case gget (lrBuckets p) key of None \<Rightarrow> zero_bucket | Some b \<Rightarrow> b);
          bucket = normalizeBucket (lrPolicy p) stored now in
      if \<not> IsZero (lbBlockedUntil bucket) \<and> now < lbBlockedUntil bucket
      then (True, snd (putBucketLocked key (bucket\<lparr>lbTouchedAt := now\<rparr>) now p))
      else
       (let started = (if IsZero (lbWindowStartedAt bucket) then now else lbWindowStartedAt bucket);
            failures = lbFailures bucket + 1;
            blockedUntil = (if failures \<ge> limit then time_Add now (ppBlockDuration (lrPolicy p)) else lbBlockedUntil bucket);
            counted = \<lparr>lbWindowStartedAt = started, lbFailures = failures, lbBlockedUntil = blockedUntil, lbTouchedAt = now\<rparr>;
            (stored_ok, q) = putBucketLocked key counted now p in
        if \<not> stored_ok then (True, q)
        else (\<not> IsZero blockedUntil \<and> now < blockedUntil, q)))"

definition Blocked ::
  "(string \<Rightarrow> string) \<Rightarrow> (string \<Rightarrow> string option) \<Rightarrow> string \<Rightarrow> string \<Rightarrow> time \<Rightarrow> LoginProtector \<Rightarrow> bool \<times> LoginProtector" where
  "Blocked unicode_lower canonical_ip username sourceIP now p =
     (let (accountBlocked, p1) = blockedLocked (loginAccountProtectionKey unicode_lower username) (time_UTC now) p;
          (sourceBlocked, p2) = blockedLocked (loginSourceProtectionKey unicode_lower canonical_ip sourceIP) (time_UTC now) p1
      in (accountBlocked \<or> sourceBlocked, p2))"

definition RecordFailure ::
  "(string \<Rightarrow> string) \<Rightarrow> (string \<Rightarrow> string option) \<Rightarrow> string \<Rightarrow> string \<Rightarrow> time \<Rightarrow> LoginProtector \<Rightarrow> bool \<times> LoginProtector" where
  "RecordFailure unicode_lower canonical_ip username sourceIP now p =
     (let (accountBlocked, p1) = recordFailureLocked (loginAccountProtectionKey unicode_lower username)
            (ppAccountFailureLimit (lrPolicy p)) (time_UTC now) p;
          (sourceBlocked, p2) = recordFailureLocked (loginSourceProtectionKey unicode_lower canonical_ip sourceIP)
            (ppSourceFailureLimit (lrPolicy p)) (time_UTC now) p1
      in (accountBlocked \<or> sourceBlocked, p2))"

definition RecordSuccess :: "(string \<Rightarrow> string) \<Rightarrow> string \<Rightarrow> LoginProtector \<Rightarrow> LoginProtector" where
  "RecordSuccess unicode_lower username p =
     p\<lparr>lrBuckets := gdel (loginAccountProtectionKey unicode_lower username) (lrBuckets p)\<rparr>"

subsection \<open>Histories of a protector\<close>

datatype protector_op =
    CallBlocked string string "time"
  | CallRecordFailure string string "time"
  | CallRecordSuccess string
  | Reorder "(string \<times> loginAttemptBucket) list"

fun apply_protector ::
  "(string \<Rightarrow> string) \<Rightarrow> (string \<Rightarrow> string option) \<Rightarrow> protector_op \<Rightarrow> LoginProtector \<Rightarrow> LoginProtector" where
  "apply_protector unicode_lower canonical_ip (CallBlocked u ip now) p = snd (Blocked unicode_lower canonical_ip u ip now p)"
| "apply_protector unicode_lower canonical_ip (CallRecordFailure u ip now) p =
     snd (RecordFailure unicode_lower canonical_ip u ip now p)"
| "apply_protector unicode_lower canonical_ip (CallRecordSuccess u) p = RecordSuccess unicode_lower u p"
| "apply_protector unicode_lower canonical_ip (Reorder bs) p =
     (if mset bs = mset (lrBuckets p) then p\<lparr>lrBuckets := bs\<rparr> else p)"

definition run_protector ::
  "(string \<Rightarrow> string) \<Rightarrow> (string \<Rightarrow> string option) \<Rightarrow> protector_op list \<Rightarrow> LoginProtector \<Rightarrow> LoginProtector" where
  "run_protector unicode_lower canonical_ip ops p = fold (apply_protector unicode_lower canonical_ip) ops p"

text \<open>The calls that may happen during a block of \<open>key\<close> until \<open>T\<close>: all but the success of that account, and none later.\<close>

fun during_block :: "(string \<Rightarrow> string) \<Rightarrow> string \<Rightarrow> time \<Rightarrow> protector_op \<Rightarrow> bool" where
  "during_block unicode_lower key T (CallBlocked u ip now) \<longleftrightarrow> now < T"
| "during_block unicode_lower key T (CallRecordFailure u ip now) \<longleftrightarrow> now < T"
| "during_block unicode_lower key T (CallRecordSuccess u) \<longleftrightarrow> loginAccountProtectionKey unicode_lower u \<noteq> key"
| "during_block unicode_lower key T (Reorder bs) \<longleftrightarrow> True"

definition blocked_until :: "LoginProtector \<Rightarrow> string \<Rightarrow> time \<Rightarrow> bool" where
  "blocked_until p key T \<longleftrightarrow> gmap_ok (lrBuckets p) \<and> (\<exists>b. gget (lrBuckets p) key = Some b \<and> lbBlockedUntil b = T)"

lemma normalize_blocked: "lbBlockedUntil b = T \<Longrightarrow> T \<noteq> 0 \<Longrightarrow> now < T \<Longrightarrow> normalizeBucket policy b now = b"
  by (simp add: normalizeBucket_def)

lemma blockedLocked_during:
  assumes "blocked_until p key T" "T \<noteq> 0" "now < T"
  shows "blocked_until (snd (blockedLocked k now p)) key T" "fst (blockedLocked key now p)"
  using assms normalize_blocked
  by (auto simp: blocked_until_def blockedLocked_def Let_def split: option.splits)

lemma evict_loop_candidate:
  "evict_loop policy now oldest bs = Some key \<Longrightarrow>
   (\<exists>t. oldest = Some (key, t))
   \<or> (\<exists>b. (key, b) \<in> set bs \<and> \<not> (lbBlockedUntil b \<noteq> 0 \<and> now < lbBlockedUntil b))"
proof (induction policy now oldest bs rule: evict_loop.induct)
  case (2 policy now oldest k b bs)
  have "normalizeBucket policy b now = b" if "lbBlockedUntil b \<noteq> 0" "now < lbBlockedUntil b"
    using that by (simp add: normalizeBucket_def)
  then show ?case using 2 by (auto simp: Let_def split: if_splits)
qed auto

lemma evict_during:
  assumes "blocked_until p key T" "T \<noteq> 0" "now < T"
  shows "blocked_until (evictOldestEvictableLocked now p) key T"
proof (cases "evict_loop (lrPolicy p) now None (lrBuckets p)")
  case None
  then show ?thesis using assms by (simp add: evictOldestEvictableLocked_def)
next
  case (Some k)
  obtain b where b: "gget (lrBuckets p) key = Some b" "lbBlockedUntil b = T" "gmap_ok (lrBuckets p)"
    using assms(1) by (auto simp: blocked_until_def)
  have "k \<noteq> key"
  proof
    assume "k = key"
    with evict_loop_candidate[OF Some] obtain b' where "(key, b') \<in> set (lrBuckets p)"
        "\<not> (lbBlockedUntil b' \<noteq> 0 \<and> now < lbBlockedUntil b')" by auto
    moreover from this have "b' = b" using b gmap_ok_gget_iff[OF b(3)] by (metis option.inject)
    ultimately show False using b assms by simp
  qed
  then show ?thesis using b by (auto simp: evictOldestEvictableLocked_def Some blocked_until_def)
qed

lemma putBucketLocked_during:
  assumes "blocked_until p key T" "T \<noteq> 0" "now < T" "k = key \<longrightarrow> lbBlockedUntil b = T"
  shows "blocked_until (snd (putBucketLocked k b now p)) key T"
proof (cases "k = key")
  case True
  then show ?thesis using assms by (auto simp: putBucketLocked_def blocked_until_def)
next
  case False
  have put: "blocked_until (q\<lparr>lrBuckets := gput k b (lrBuckets q)\<rparr>) key T" if "blocked_until q key T" for q
    using that False by (auto simp: blocked_until_def)
  show ?thesis
    using put assms(1) evict_during[OF assms(1-3)] by (simp add: putBucketLocked_def Let_def)
qed

lemma recordFailureLocked_put: "\<exists>c. snd (recordFailureLocked k limit now p) = snd (putBucketLocked k c now p)"
  unfolding recordFailureLocked_def Let_def case_prod_beta
  by (auto simp del: split_paired_Ex split: if_split)

lemma recordFailureLocked_during:
  assumes "blocked_until p key T" "T \<noteq> 0" "now < T"
  shows "blocked_until (snd (recordFailureLocked k limit now p)) key T"
proof (cases "k = key")
  case True
  obtain b where b: "gget (lrBuckets p) key = Some b" "lbBlockedUntil b = T" using assms(1) by (auto simp: blocked_until_def)
  then show ?thesis using assms True putBucketLocked_during[OF assms, of key "b\<lparr>lbTouchedAt := now\<rparr>"]
    by (simp add: recordFailureLocked_def Let_def normalize_blocked)
next
  case False
  then have "blocked_until (snd (putBucketLocked k c now p)) key T" for c
    by (rule_tac putBucketLocked_during[OF assms]) simp
  then show ?thesis using recordFailureLocked_put[of k limit now p] by metis
qed

lemma blocked_until_reorder:
  assumes "blocked_until p key T" "mset bs = mset (lrBuckets p)"
  shows "blocked_until (p\<lparr>lrBuckets := bs\<rparr>) key T"
proof -
  have ok: "gmap_ok (lrBuckets p)" and "\<exists>b. gget (lrBuckets p) key = Some b \<and> lbBlockedUntil b = T"
    using assms(1) by (auto simp: blocked_until_def)
  moreover have "gmap_ok bs" using ok assms(2) unfolding gmap_ok_def by (metis mset_eq_imp_distinct_iff mset_map)
  moreover have "gget bs = gget (lrBuckets p)"
    using ok \<open>gmap_ok bs\<close> assms(2) unfolding gmap_ok_def by (metis map_of_inject_set mset_eq_setD)
  ultimately show ?thesis by (simp add: blocked_until_def)
qed

lemma apply_protector_during:
  assumes "blocked_until p key T" "T \<noteq> 0" "during_block unicode_lower key T op"
  shows "blocked_until (apply_protector unicode_lower canonical_ip op p) key T"
proof (cases op)
  case (CallBlocked u ip now)
  then show ?thesis using assms blockedLocked_during(1)[OF blockedLocked_during(1)]
    by (simp add: Blocked_def Let_def split: prod.split) (metis snd_conv)
next
  case (CallRecordFailure u ip now)
  then show ?thesis using assms recordFailureLocked_during[OF recordFailureLocked_during]
    by (simp add: RecordFailure_def Let_def split: prod.split) (metis snd_conv)
next
  case (CallRecordSuccess u)
  then show ?thesis using assms by (auto simp: RecordSuccess_def blocked_until_def)
next
  case (Reorder bs)
  then show ?thesis using assms blocked_until_reorder by simp
qed

lemma run_protector_during:
  "blocked_until p key T \<Longrightarrow> T \<noteq> 0 \<Longrightarrow> list_all (during_block unicode_lower key T) ops \<Longrightarrow>
   blocked_until (run_protector unicode_lower canonical_ip ops p) key T"
  unfolding run_protector_def by (induction ops arbitrary: p) (auto intro: apply_protector_during)

subsection \<open>Lockout\<close>

text \<open>A series of failed logins of one account: the source address and the time of each.\<close>

definition record_failures ::
  "(string \<Rightarrow> string) \<Rightarrow> (string \<Rightarrow> string option) \<Rightarrow> string \<Rightarrow> (string \<times> time) list \<Rightarrow> LoginProtector \<Rightarrow> LoginProtector" where
  "record_failures unicode_lower canonical_ip u attempts p =
     fold (\<lambda>(ip, t) q. snd (RecordFailure unicode_lower canonical_ip u ip t q)) attempts p"

lemma RecordFailure_parts:
  "snd (RecordFailure unicode_lower canonical_ip u ip now p) =
   snd (recordFailureLocked (loginSourceProtectionKey unicode_lower canonical_ip ip) (ppSourceFailureLimit (lrPolicy p)) now
     (snd (recordFailureLocked (loginAccountProtectionKey unicode_lower u) (ppAccountFailureLimit (lrPolicy p)) now p)))"
  by (simp add: RecordFailure_def Let_def case_prod_beta)

text \<open>A failure of another key leaves a bucket alone as long as the table has room.\<close>

lemma other_failure:
  assumes "gget (lrBuckets p) key = Some b" "k \<noteq> key" "gmap_ok (lrBuckets p)"
    and "int (length (lrBuckets p)) < ppMaxTrackedKeys (lrPolicy p)"
  shows "gget (lrBuckets (snd (recordFailureLocked k limit now p))) key = Some b"
    and "gmap_ok (lrBuckets (snd (recordFailureLocked k limit now p)))"
    and "lrPolicy (snd (recordFailureLocked k limit now p)) = lrPolicy p"
    and "length (lrBuckets (snd (recordFailureLocked k limit now p))) \<le> Suc (length (lrBuckets p))"
proof -
  obtain c where "snd (recordFailureLocked k limit now p) = snd (putBucketLocked k c now p)"
    using recordFailureLocked_put by blast
  also have "\<dots> = p\<lparr>lrBuckets := gput k c (lrBuckets p)\<rparr>" using assms(4) by (simp add: putBucketLocked_def Let_def)
  finally have q: "snd (recordFailureLocked k limit now p) = p\<lparr>lrBuckets := gput k c (lrBuckets p)\<rparr>" .
  show "gget (lrBuckets (snd (recordFailureLocked k limit now p))) key = Some b"
    "gmap_ok (lrBuckets (snd (recordFailureLocked k limit now p)))"
    "lrPolicy (snd (recordFailureLocked k limit now p)) = lrPolicy p"
    using assms by (simp_all add: q)
  show "length (lrBuckets (snd (recordFailureLocked k limit now p))) \<le> Suc (length (lrBuckets p))"
    by (cases "gget (lrBuckets p) k = None") (simp_all add: q length_gput length_gput_present)
qed

lemma first_failure:
  assumes "gget (lrBuckets p) key = None" "int (length (lrBuckets p)) < ppMaxTrackedKeys (lrPolicy p)"
  shows "snd (recordFailureLocked key limit now p) = p\<lparr>lrBuckets := gput key
    \<lparr>lbWindowStartedAt = now, lbFailures = 1, lbBlockedUntil = (if 1 \<ge> limit then now + ppBlockDuration (lrPolicy p) else 0),
     lbTouchedAt = now\<rparr> (lrBuckets p)\<rparr>"
  using assms by (simp add: recordFailureLocked_def Let_def normalizeBucket_def zero_bucket_def putBucketLocked_def)

lemma next_failure:
  assumes "gget (lrBuckets p) key = Some b" "lbBlockedUntil b = 0" "lbWindowStartedAt b = t1" "t1 \<noteq> 0"
    "now < t1 + ppFailureWindow (lrPolicy p)"
  shows "snd (recordFailureLocked key limit now p) = p\<lparr>lrBuckets := gput key
    \<lparr>lbWindowStartedAt = t1, lbFailures = lbFailures b + 1,
     lbBlockedUntil = (if lbFailures b + 1 \<ge> limit then now + ppBlockDuration (lrPolicy p) else 0),
     lbTouchedAt = now\<rparr> (lrBuckets p)\<rparr>"
  using assms by (simp add: recordFailureLocked_def Let_def normalizeBucket_def putBucketLocked_def)

text \<open>
  The bucket of the account after \<open>n\<close> failures since \<open>t1\<close>, \<open>room\<close> more keys fitting in the table.
\<close>

definition counting :: "LoginProtector \<Rightarrow> string \<Rightarrow> time \<Rightarrow> int \<Rightarrow> int \<Rightarrow> LoginProtectionPolicy \<Rightarrow> bool" where
  "counting p key t1 n room policy \<longleftrightarrow> lrPolicy p = policy \<and> gmap_ok (lrBuckets p)
     \<and> int (length (lrBuckets p)) + room \<le> ppMaxTrackedKeys policy
     \<and> (\<exists>b. gget (lrBuckets p) key = Some b \<and> lbWindowStartedAt b = t1 \<and> lbFailures b = n \<and> lbBlockedUntil b = 0)"

text \<open>What the source part of \<^verbatim>\<open>RecordFailure\<close> leaves of the account's bucket.\<close>

lemma after_source_failure:
  assumes "gget (lrBuckets p) key = Some b" "k \<noteq> key" "gmap_ok (lrBuckets p)" "lrPolicy p = policy"
    and "int (length (lrBuckets p)) + 1 + room \<le> ppMaxTrackedKeys policy" "0 \<le> room"
  shows "lbBlockedUntil b = 0 \<Longrightarrow> counting (snd (recordFailureLocked k limit now p)) key (lbWindowStartedAt b) (lbFailures b) room policy"
    and "blocked_until (snd (recordFailureLocked k limit now p)) key (lbBlockedUntil b)"
proof -
  have "int (length (lrBuckets p)) < ppMaxTrackedKeys (lrPolicy p)" using assms by simp
  note other = other_failure[OF assms(1-3) this, of limit now]
  show "lbBlockedUntil b = 0 \<Longrightarrow> counting (snd (recordFailureLocked k limit now p)) key (lbWindowStartedAt b) (lbFailures b) room policy"
    using other assms(4,5) by (simp add: counting_def)
  show "blocked_until (snd (recordFailureLocked k limit now p)) key (lbBlockedUntil b)"
    using other by (simp add: blocked_until_def)
qed

lemma RecordFailure_counts:
  assumes "counting p (loginAccountProtectionKey unicode_lower u) t1 n (1 + room) policy" "t1 \<noteq> 0" "0 \<le> room"
    and "t < t1 + ppFailureWindow policy"
    and "loginSourceProtectionKey unicode_lower canonical_ip ip \<noteq> loginAccountProtectionKey unicode_lower u"
  defines "q \<equiv> snd (RecordFailure unicode_lower canonical_ip u ip t p)"
  shows "n + 1 < ppAccountFailureLimit policy \<Longrightarrow> counting q (loginAccountProtectionKey unicode_lower u) t1 (n + 1) room policy"
    and "n + 1 = ppAccountFailureLimit policy \<Longrightarrow>
      blocked_until q (loginAccountProtectionKey unicode_lower u) (t + ppBlockDuration policy)"
proof -
  let ?key = "loginAccountProtectionKey unicode_lower u"
  from assms(1) obtain b where b: "gget (lrBuckets p) ?key = Some b" "lbWindowStartedAt b = t1" "lbFailures b = n" "lbBlockedUntil b = 0"
    and p: "lrPolicy p = policy" "gmap_ok (lrBuckets p)" "int (length (lrBuckets p)) + (1 + room) \<le> ppMaxTrackedKeys policy"
    by (auto simp: counting_def)
  let ?b = "\<lparr>lbWindowStartedAt = t1, lbFailures = n + 1,
     lbBlockedUntil = (if n + 1 \<ge> ppAccountFailureLimit policy then t + ppBlockDuration policy else 0), lbTouchedAt = t\<rparr>"
  have step: "snd (recordFailureLocked ?key (ppAccountFailureLimit policy) t p) = p\<lparr>lrBuckets := gput ?key ?b (lrBuckets p)\<rparr>"
    using next_failure[OF b(1,4,2) assms(2), of t "ppAccountFailureLimit policy"] assms(4) b p by simp
  let ?p1 = "p\<lparr>lrBuckets := gput ?key ?b (lrBuckets p)\<rparr>"
  have "int (length (lrBuckets ?p1)) + 1 + room \<le> ppMaxTrackedKeys policy" using p(3) b(1) by (simp add: length_gput_present)
  note source = after_source_failure[of ?p1 ?key ?b _ policy room, OF _ assms(5) _ _ this assms(3)]
  show "n + 1 < ppAccountFailureLimit policy \<Longrightarrow> counting q ?key t1 (n + 1) room policy"
    using source(1) p(1,2) by (simp add: q_def RecordFailure_parts step)
  show "n + 1 = ppAccountFailureLimit policy \<Longrightarrow> blocked_until q ?key (t + ppBlockDuration policy)"
    using source(2) p(1,2) by (simp add: q_def RecordFailure_parts step)
qed

lemma failures_count:
  assumes "counting p (loginAccountProtectionKey unicode_lower u) t1 n (int (length as)) policy" "t1 \<noteq> 0" "as \<noteq> []"
    and "n + int (length as) = ppAccountFailureLimit policy"
    and "\<forall>(ip, t) \<in> set as. t < t1 + ppFailureWindow policy
      \<and> loginSourceProtectionKey unicode_lower canonical_ip ip \<noteq> loginAccountProtectionKey unicode_lower u"
  shows "blocked_until (record_failures unicode_lower canonical_ip u as p) (loginAccountProtectionKey unicode_lower u)
    (snd (last as) + ppBlockDuration policy)"
  using assms
proof (induction as arbitrary: p n)
  case (Cons a as)
  obtain ip t where a: "a = (ip, t)" by force
  have now: "t < t1 + ppFailureWindow policy"
    "loginSourceProtectionKey unicode_lower canonical_ip ip \<noteq> loginAccountProtectionKey unicode_lower u"
    using Cons.prems(5) by (auto simp: a)
  have "counting p (loginAccountProtectionKey unicode_lower u) t1 n (1 + int (length as)) policy" using Cons.prems(1) by simp
  note step = RecordFailure_counts[OF this Cons.prems(2) _ now]
  show ?case
  proof (cases "as = []")
    case True
    then show ?thesis using step(2) Cons.prems(4) by (simp add: record_failures_def a)
  next
    case False
    then have "0 < int (length as)" by simp
    then have "n + 1 < ppAccountFailureLimit policy" using Cons.prems(4) unfolding list.size of_nat_add of_nat_1 by linarith
    with step(1) have "counting (snd (RecordFailure unicode_lower canonical_ip u ip t p))
        (loginAccountProtectionKey unicode_lower u) t1 (n + 1) (int (length as)) policy" by simp
    from Cons.IH[OF this Cons.prems(2) False] Cons.prems(4,5) False show ?thesis by (simp add: record_failures_def a)
  qed
qed simp

lemma failures_block:
  assumes "gmap_ok (lrBuckets p)" "gget (lrBuckets p) (loginAccountProtectionKey unicode_lower u) = None"
    and "int (length (lrBuckets p)) + 1 + int (length as) \<le> ppMaxTrackedKeys (lrPolicy p)"
    and "int (length as) = ppAccountFailureLimit (lrPolicy p)" "2 \<le> length as" "snd (hd as) \<noteq> 0"
    and "\<forall>(ip, t) \<in> set as. t < snd (hd as) + ppFailureWindow (lrPolicy p)
      \<and> loginSourceProtectionKey unicode_lower canonical_ip ip \<noteq> loginAccountProtectionKey unicode_lower u"
  shows "blocked_until (record_failures unicode_lower canonical_ip u as p) (loginAccountProtectionKey unicode_lower u)
    (snd (last as) + ppBlockDuration (lrPolicy p))"
proof -
  let ?key = "loginAccountProtectionKey unicode_lower u"
  obtain ip t bs where as: "as = (ip, t) # bs" using assms(5) by (cases as) auto
  have bs: "bs \<noteq> []" using assms(5) by (auto simp: as)
  have lim: "1 + int (length bs) = ppAccountFailureLimit (lrPolicy p)" "1 < ppAccountFailureLimit (lrPolicy p)"
    using assms(4,5) by (simp_all add: as)
  let ?b = "\<lparr>lbWindowStartedAt = t, lbFailures = 1, lbBlockedUntil = 0, lbTouchedAt = t\<rparr>"
  let ?p1 = "p\<lparr>lrBuckets := gput ?key ?b (lrBuckets p)\<rparr>"
  have step: "snd (recordFailureLocked ?key (ppAccountFailureLimit (lrPolicy p)) t p) = ?p1"
    using first_failure[OF assms(2)] assms(3) lim by simp
  have "int (length (lrBuckets ?p1)) + 1 + int (length bs) \<le> ppMaxTrackedKeys (lrPolicy p)"
    using assms(2,3) by (simp add: length_gput as)
  moreover have "loginSourceProtectionKey unicode_lower canonical_ip ip \<noteq> ?key" using assms(7) by (simp add: as)
  ultimately have "counting (snd (RecordFailure unicode_lower canonical_ip u ip t p)) ?key t 1 (int (length bs)) (lrPolicy p)"
    using after_source_failure(1)[of ?p1 ?key ?b _ "lrPolicy p" "int (length bs)"] assms(1) by (simp add: RecordFailure_parts step)
  from failures_count[OF this _ bs lim(1)] show ?thesis
    using assms(6,7) bs by (simp add: record_failures_def as)
qed


definition lockout_attempts :: "(string \<times> time) list" where
  "lockout_attempts = [(''i'', 1), (''j'', 2), (''i'', 3), (''j'', 4), (''i'', 5), (''j'', 6), (''i'', 7), (''j'', 8)]"


end
