(* ===== verification/Auth_Store.thy ===== *)
theory Auth_Store
  imports Login_Protection
begin

text \<open>
  Package \<^verbatim>\<open>internal/identity/auth\<close>, files \<^verbatim>\<open>types.go\<close> and \<^verbatim>\<open>memory_store.go\<close>: users, sessions and the
  store that holds them. Every method of the store runs under its mutex and is one step; a method
  that fails leaves the store as it was, so it returns the error or the new store. The maps are
  association lists whose order stands for the iteration order.
\<close>

subsection \<open>Data\<close>

datatype auth_error =
    ErrInvalidCredentials | ErrUnauthenticated | ErrNotFound | ErrConflict | ErrAuditUnavailable
  | ErrInvalidCurrentPassword | ErrPasswordPolicy string | AuthWrapped string auth_error | AuthOther string

record User =
  usID :: string
  usUsername :: string
  usDisplayName :: string
  usPasswordHash :: string
  usEnabled :: bool
  usPasswordChangeRequired :: bool
  usCreatedAt :: "time"
  usPasswordChangedAt :: "time"
  usLastLoginAt :: "time option"

record Identity =
  idID :: string
  idUsername :: string
  idDisplayName :: string
  idCreatedAt :: "time"

definition User_Identity :: "User \<Rightarrow> Identity" where
  "User_Identity u = \<lparr>idID = usID u, idUsername = usUsername u, idDisplayName = usDisplayName u, idCreatedAt = usCreatedAt u\<rparr>"

record Session =
  ssID :: string
  ssUserID :: string
  ssTokenDigest :: string
  ssCredentialVersion :: "time"
  ssCreatedAt :: "time"
  ssLastActivityAt :: "time"
  ssExpiresAt :: "time"
  ssRevokedAt :: "time option"
  ssSourceIP :: string
  ssUserAgent :: string

record SessionView =
  svID :: string
  svCreatedAt :: "time"
  svExpiresAt :: "time"

definition Session_View :: "Session \<Rightarrow> SessionView" where
  "Session_View s = \<lparr>svID = ssID s, svCreatedAt = ssCreatedAt s, svExpiresAt = ssExpiresAt s\<rparr>"

definition activityAt :: "Session \<Rightarrow> time" where
  "activityAt s = (if IsZero (ssLastActivityAt s) then time_UTC (ssCreatedAt s) else time_UTC (ssLastActivityAt s))"

definition idleExpiresAt :: "Session \<Rightarrow> duration \<Rightarrow> time" where
  "idleExpiresAt s idleTimeout =
     (let idleExpiry = time_Add (activityAt s) idleTimeout in
      if \<not> IsZero (ssExpiresAt s) \<and> ssExpiresAt s < idleExpiry then time_UTC (ssExpiresAt s) else time_UTC idleExpiry)"

definition activeAt :: "Session \<Rightarrow> time \<Rightarrow> duration \<Rightarrow> bool" where
  "activeAt s now idleTimeout \<longleftrightarrow> ssRevokedAt s = None \<and> now < ssExpiresAt s \<and> now < idleExpiresAt s idleTimeout"

record SessionSecurityView =
  xvID :: string
  xvCreatedAt :: "time"
  xvLastActivityAt :: "time"
  xvIdleExpiresAt :: "time"
  xvExpiresAt :: "time"
  xvSourceIP :: string
  xvUserAgent :: string
  xvCurrent :: bool

definition SecurityView :: "Session \<Rightarrow> string \<Rightarrow> duration \<Rightarrow> SessionSecurityView" where
  "SecurityView s currentSessionID idleTimeout =
     \<lparr>xvID = ssID s, xvCreatedAt = ssCreatedAt s, xvLastActivityAt = activityAt s,
      xvIdleExpiresAt = idleExpiresAt s idleTimeout, xvExpiresAt = ssExpiresAt s, xvSourceIP = ssSourceIP s,
      xvUserAgent = ssUserAgent s, xvCurrent = (ssID s = currentSessionID)\<rparr>"

record MemoryStore =
  msUsers :: "(string \<times> User) list"
  msNames :: "(string \<times> string) list"
  msSessions :: "(string \<times> Session) list"

definition NewMemoryStore :: MemoryStore where
  "NewMemoryStore = \<lparr>msUsers = [], msNames = [], msSessions = []\<rparr>"

subsection \<open>Users\<close>

definition CreateUser :: "(string \<Rightarrow> string) \<Rightarrow> User \<Rightarrow> MemoryStore \<Rightarrow> auth_error + MemoryStore" where
  "CreateUser unicode_lower user st =
     (let username = normalizeUsername unicode_lower (usUsername user) in
      if usID user = [] \<or> username = [] \<or> usPasswordHash user = [] then Inl ErrConflict
      else if gget (msUsers st) (usID user) \<noteq> None then Inl ErrConflict
      else if gget (msNames st) username \<noteq> None then Inl ErrConflict
      else Inr (st\<lparr>msUsers := gput (usID user) (user\<lparr>usUsername := username\<rparr>) (msUsers st),
                   msNames := gput username (usID user) (msNames st)\<rparr>))"

text \<open>A missing user under a known name would be Go's zero value; \<open>store_ok\<close> below excludes it.\<close>

definition zero_user :: User where
  "zero_user = \<lparr>usID = [], usUsername = [], usDisplayName = [], usPasswordHash = [], usEnabled = False,
     usPasswordChangeRequired = False, usCreatedAt = 0, usPasswordChangedAt = 0, usLastLoginAt = None\<rparr>"

definition FindUserByUsername :: "(string \<Rightarrow> string) \<Rightarrow> string \<Rightarrow> MemoryStore \<Rightarrow> auth_error + User" where
  "FindUserByUsername unicode_lower username st =
     (case gget (msNames st) (normalizeUsername unicode_lower username) of
        None \<Rightarrow> Inl ErrNotFound
      | Some i \<Rightarrow> Inr (case gget (msUsers st) i of None \<Rightarrow> zero_user | Some u \<Rightarrow> u))"

definition FindUserByID :: "string \<Rightarrow> MemoryStore \<Rightarrow> auth_error + User" where
  "FindUserByID i st = (case gget (msUsers st) i of None \<Rightarrow> Inl ErrNotFound | Some u \<Rightarrow> Inr u)"

definition SetLastLogin :: "string \<Rightarrow> time \<Rightarrow> MemoryStore \<Rightarrow> auth_error + MemoryStore" where
  "SetLastLogin i at st =
     (case gget (msUsers st) i of None \<Rightarrow> Inl ErrNotFound
      | Some u \<Rightarrow> Inr (st\<lparr>msUsers := gput i (u\<lparr>usLastLoginAt := Some (time_UTC at)\<rparr>) (msUsers st)\<rparr>))"

text \<open>The loop over the sessions that revokes those of one user.\<close>

definition revoke_user_sessions :: "string \<Rightarrow> time \<Rightarrow> (string \<times> Session) list \<Rightarrow> (string \<times> Session) list" where
  "revoke_user_sessions i at =
     map (\<lambda>(digest, s). (digest, if ssUserID s = i \<and> ssRevokedAt s = None then s\<lparr>ssRevokedAt := Some at\<rparr> else s))"

definition ChangePasswordAndRevokeSessions ::
  "string \<Rightarrow> string \<Rightarrow> string \<Rightarrow> time \<Rightarrow> MemoryStore \<Rightarrow> auth_error + MemoryStore" where
  "ChangePasswordAndRevokeSessions i expectedHash newHash at st =
     (case gget (msUsers st) i of None \<Rightarrow> Inl ErrNotFound
      | Some u \<Rightarrow>
        (if usPasswordHash u \<noteq> expectedHash then Inl ErrConflict
         else Inr (st\<lparr>msUsers := gput i (u\<lparr>usPasswordHash := newHash, usPasswordChangeRequired := False,
                          usPasswordChangedAt := time_UTC at\<rparr>) (msUsers st),
                      msSessions := revoke_user_sessions i (time_UTC at) (msSessions st)\<rparr>)))"

subsection \<open>Sessions\<close>

definition CreateSession :: "Session \<Rightarrow> string \<Rightarrow> MemoryStore \<Rightarrow> auth_error + MemoryStore" where
  "CreateSession session expectedPasswordHash st =
     (if ssID session = [] \<or> ssTokenDigest session = [] \<or> ssUserID session = [] then Inl ErrConflict
      else if (case gget (msUsers st) (ssUserID session) of None \<Rightarrow> True
               | Some u \<Rightarrow> usPasswordHash u \<noteq> expectedPasswordHash) then Inl ErrConflict
      else if gget (msSessions st) (ssTokenDigest session) \<noteq> None then Inl ErrConflict
      else (let s = session\<lparr>ssLastActivityAt :=
                  (if IsZero (ssLastActivityAt session) then ssCreatedAt session else time_UTC (ssLastActivityAt session))\<rparr> in
        if ssLastActivityAt s < ssCreatedAt s \<or> ssLastActivityAt s > ssExpiresAt s then Inl ErrConflict
        else Inr (st\<lparr>msSessions := gput (ssTokenDigest s) s (msSessions st)\<rparr>)))"

definition FindSessionByDigest :: "string \<Rightarrow> MemoryStore \<Rightarrow> auth_error + Session" where
  "FindSessionByDigest digest st =
     (case gget (msSessions st) digest of None \<Rightarrow> Inl ErrNotFound | Some s \<Rightarrow> Inr s)"

definition FindSessionForUserByID :: "string \<Rightarrow> string \<Rightarrow> MemoryStore \<Rightarrow> auth_error + Session" where
  "FindSessionForUserByID userID sessionID st =
     (case find (\<lambda>(_, s). ssUserID s = userID \<and> ssID s = sessionID) (msSessions st) of
        None \<Rightarrow> Inl ErrNotFound | Some (_, s) \<Rightarrow> Inr s)"

definition ListActiveSessionsForUser :: "string \<Rightarrow> time \<Rightarrow> MemoryStore \<Rightarrow> Session list" where
  "ListActiveSessionsForUser userID now st =
     sort_key (\<lambda>s. (- ssCreatedAt s, ssID s))
       (filter (\<lambda>s. \<not> (ssUserID s \<noteq> userID \<or> ssRevokedAt s \<noteq> None \<or> \<not> time_UTC now < ssExpiresAt s))
         (map snd (msSessions st)))"

definition TouchSessionByDigest :: "string \<Rightarrow> time \<Rightarrow> MemoryStore \<Rightarrow> auth_error + MemoryStore" where
  "TouchSessionByDigest digest at st =
     (case gget (msSessions st) digest of None \<Rightarrow> Inl ErrNotFound
      | Some s \<Rightarrow>
        (if ssRevokedAt s \<noteq> None then Inl ErrNotFound
         else if \<not> time_UTC at < ssExpiresAt s then Inl ErrNotFound
         else if time_UTC at > activityAt s
         then Inr (st\<lparr>msSessions := gput digest (s\<lparr>ssLastActivityAt := time_UTC at\<rparr>) (msSessions st)\<rparr>)
         else Inr st))"

definition RevokeSessionByDigest :: "string \<Rightarrow> time \<Rightarrow> MemoryStore \<Rightarrow> auth_error + MemoryStore" where
  "RevokeSessionByDigest digest at st =
     (case gget (msSessions st) digest of None \<Rightarrow> Inl ErrNotFound
      | Some s \<Rightarrow>
        (if ssRevokedAt s = None
         then Inr (st\<lparr>msSessions := gput digest (s\<lparr>ssRevokedAt := Some (time_UTC at)\<rparr>) (msSessions st)\<rparr>)
         else Inr st))"

definition RevokeSessionForUserByID :: "string \<Rightarrow> string \<Rightarrow> time \<Rightarrow> MemoryStore \<Rightarrow> auth_error + MemoryStore" where
  "RevokeSessionForUserByID userID sessionID at st =
     (case find (\<lambda>(_, s). \<not> (ssUserID s \<noteq> userID \<or> ssID s \<noteq> sessionID \<or> ssRevokedAt s \<noteq> None
                          \<or> \<not> time_UTC at < ssExpiresAt s)) (msSessions st) of
        None \<Rightarrow> Inl ErrNotFound
      | Some (digest, s) \<Rightarrow>
          Inr (st\<lparr>msSessions := gput digest (s\<lparr>ssRevokedAt := Some (time_UTC at)\<rparr>) (msSessions st)\<rparr>))"

definition RevokeSessionsForUser :: "string \<Rightarrow> time \<Rightarrow> MemoryStore \<Rightarrow> int \<times> MemoryStore" where
  "RevokeSessionsForUser userID at st =
     (int (length (filter (\<lambda>(_, s). ssUserID s = userID \<and> ssRevokedAt s = None) (msSessions st))),
      st\<lparr>msSessions := revoke_user_sessions userID (time_UTC at) (msSessions st)\<rparr>)"

subsection \<open>Histories of a store\<close>

datatype store_op =
    CallCreateUser User
  | CallSetLastLogin string "time"
  | CallChangePassword string string string "time"
  | CallCreateSession Session string
  | CallTouchSession string "time"
  | CallRevokeSession string "time"
  | CallRevokeSessionForUser string string "time"
  | CallRevokeSessionsForUser string "time"
  | ReorderSessions "(string \<times> Session) list"

definition accepted_store :: "MemoryStore \<Rightarrow> auth_error + MemoryStore \<Rightarrow> MemoryStore" where
  "accepted_store st r = (case r of Inl _ \<Rightarrow> st | Inr st' \<Rightarrow> st')"

fun apply_store :: "(string \<Rightarrow> string) \<Rightarrow> store_op \<Rightarrow> MemoryStore \<Rightarrow> MemoryStore" where
  "apply_store unicode_lower (CallCreateUser u) st = accepted_store st (CreateUser unicode_lower u st)"
| "apply_store unicode_lower (CallSetLastLogin i at) st = accepted_store st (SetLastLogin i at st)"
| "apply_store unicode_lower (CallChangePassword i h h' at) st =
     accepted_store st (ChangePasswordAndRevokeSessions i h h' at st)"
| "apply_store unicode_lower (CallCreateSession s h) st = accepted_store st (CreateSession s h st)"
| "apply_store unicode_lower (CallTouchSession d at) st = accepted_store st (TouchSessionByDigest d at st)"
| "apply_store unicode_lower (CallRevokeSession d at) st = accepted_store st (RevokeSessionByDigest d at st)"
| "apply_store unicode_lower (CallRevokeSessionForUser u i at) st = accepted_store st (RevokeSessionForUserByID u i at st)"
| "apply_store unicode_lower (CallRevokeSessionsForUser u at) st = snd (RevokeSessionsForUser u at st)"
| "apply_store unicode_lower (ReorderSessions ss) st =
     (if mset ss = mset (msSessions st) then st\<lparr>msSessions := ss\<rparr> else st)"

definition run_store :: "(string \<Rightarrow> string) \<Rightarrow> store_op list \<Rightarrow> MemoryStore \<Rightarrow> MemoryStore" where
  "run_store unicode_lower ops st = fold (apply_store unicode_lower) ops st"

subsection \<open>Invariant\<close>

definition user_entry_ok :: "MemoryStore \<Rightarrow> string \<Rightarrow> User \<Rightarrow> bool" where
  "user_entry_ok st i u \<longleftrightarrow> usID u = i \<and> i \<noteq> [] \<and> gget (msNames st) (usUsername u) = Some i"

definition session_entry_ok :: "MemoryStore \<Rightarrow> string \<Rightarrow> Session \<Rightarrow> bool" where
  "session_entry_ok st d s \<longleftrightarrow> ssTokenDigest s = d \<and> d \<noteq> [] \<and> ssID s \<noteq> [] \<and> gget (msUsers st) (ssUserID s) \<noteq> None
     \<and> ssCreatedAt s \<le> ssLastActivityAt s \<and> ssLastActivityAt s \<le> ssExpiresAt s"

definition store_ok :: "MemoryStore \<Rightarrow> bool" where
  "store_ok st \<longleftrightarrow> gmap_ok (msUsers st) \<and> gmap_ok (msNames st) \<and> gmap_ok (msSessions st)
     \<and> (\<forall>i u. gget (msUsers st) i = Some u \<longrightarrow> user_entry_ok st i u)
     \<and> (\<forall>n i. gget (msNames st) n = Some i \<longrightarrow> n \<noteq> [] \<and> (\<exists>u. gget (msUsers st) i = Some u \<and> usUsername u = n))
     \<and> (\<forall>d s. gget (msSessions st) d = Some s \<longrightarrow> session_entry_ok st d s)"

lemma store_okD:
  assumes "store_ok st"
  shows "gmap_ok (msUsers st)" "gmap_ok (msNames st)" "gmap_ok (msSessions st)"
    "gget (msUsers st) i = Some u \<Longrightarrow> user_entry_ok st i u"
    "gget (msNames st) n = Some i \<Longrightarrow> n \<noteq> [] \<and> (\<exists>u. gget (msUsers st) i = Some u \<and> usUsername u = n)"
    "gget (msSessions st) d = Some s \<Longrightarrow> session_entry_ok st d s"
  using assms by (auto simp: store_ok_def)

lemma gget_revoke:
  "gget (revoke_user_sessions i at ss) d =
     map_option (\<lambda>s. if ssUserID s = i \<and> ssRevokedAt s = None then s\<lparr>ssRevokedAt := Some at\<rparr> else s) (gget ss d)"
  by (induction ss) (auto simp: revoke_user_sessions_def)

lemma gmap_ok_revoke: "gmap_ok ss \<Longrightarrow> gmap_ok (revoke_user_sessions i at ss)"
proof -
  have "gkeys (revoke_user_sessions i at ss) = gkeys ss" by (induction ss) (auto simp: revoke_user_sessions_def)
  then show "gmap_ok ss \<Longrightarrow> gmap_ok (revoke_user_sessions i at ss)" by (simp add: gmap_ok_def)
qed

lemma reordered_map:
  assumes "gmap_ok m" "mset m' = mset m"
  shows "gmap_ok m'" "gget m' = gget m"
proof -
  show ok: "gmap_ok m'" using assms unfolding gmap_ok_def by (metis mset_eq_imp_distinct_iff mset_map)
  show "gget m' = gget m" using ok assms unfolding gmap_ok_def by (metis map_of_inject_set mset_eq_setD)
qed

text \<open>A store whose sessions alone changed.\<close>

lemma store_ok_sessions:
  assumes "store_ok st" "gmap_ok ss" "\<And>d s. gget ss d = Some s \<Longrightarrow> session_entry_ok st d s"
  shows "store_ok (st\<lparr>msSessions := ss\<rparr>)"
  using assms by (auto simp: store_ok_def user_entry_ok_def session_entry_ok_def)

text \<open>A store in which the entry of one known user changed, its id and its name excepted.\<close>

lemma store_ok_user:
  assumes "store_ok st" "gget (msUsers st) i = Some u" "usID u' = usID u" "usUsername u' = usUsername u"
  shows "store_ok (st\<lparr>msUsers := gput i u' (msUsers st)\<rparr>)"
proof -
  let ?st = "st\<lparr>msUsers := gput i u' (msUsers st)\<rparr>"
  note ok = store_okD[OF assms(1)]
  have "user_entry_ok ?st j v" if "gget (msUsers ?st) j = Some v" for j v
    using that ok(4)[OF assms(2)] ok(4)[of j v] assms(3,4) by (auto simp: user_entry_ok_def split: if_splits)
  moreover have "n \<noteq> [] \<and> (\<exists>v. gget (msUsers ?st) j = Some v \<and> usUsername v = n)" if "gget (msNames ?st) n = Some j" for n j
    using ok(5)[of n j] that assms by auto
  moreover have "session_entry_ok ?st d s" if "gget (msSessions ?st) d = Some s" for d s
    using ok(6)[of d s] that by (auto simp: session_entry_ok_def)
  ultimately show ?thesis using ok(1-3) unfolding store_ok_def by (simp add: gmap_ok_gput)
qed

lemma CreateUser_ok:
  assumes "store_ok st" "CreateUser unicode_lower u st = Inr st'"
  shows "store_ok st'"
proof -
  define n where "n = normalizeUsername unicode_lower (usUsername u)"
  have fresh: "usID u \<noteq> []" "n \<noteq> []" "gget (msUsers st) (usID u) = None" "gget (msNames st) n = None"
    and st': "st' = st\<lparr>msUsers := gput (usID u) (u\<lparr>usUsername := n\<rparr>) (msUsers st), msNames := gput n (usID u) (msNames st)\<rparr>"
    using assms(2) by (auto simp: CreateUser_def Let_def n_def split: if_splits)
  note ok = store_okD[OF assms(1)]
  have "user_entry_ok st' i v" if "gget (msUsers st') i = Some v" for i v
    using that ok(4)[of i v] fresh by (auto simp: st' user_entry_ok_def split: if_splits)
  moreover have "m \<noteq> [] \<and> (\<exists>v. gget (msUsers st') i = Some v \<and> usUsername v = m)" if "gget (msNames st') m = Some i" for m i
    using that ok(5)[of m i] fresh by (auto simp: st' split: if_splits)
  moreover have "session_entry_ok st' d s" if "gget (msSessions st') d = Some s" for d s
    using ok(6)[of d s] that by (auto simp: st' session_entry_ok_def)
  ultimately show ?thesis using ok(1-3) unfolding store_ok_def by (simp add: st' gmap_ok_gput)
qed

lemma put_session_ok:
  assumes "store_ok st" "session_entry_ok st d s"
  shows "store_ok (st\<lparr>msSessions := gput d s (msSessions st)\<rparr>)"
  using assms store_okD[OF assms(1)] by (intro store_ok_sessions) (auto split: if_splits)

lemma revoke_sessions_ok:
  assumes "store_ok st" shows "store_ok (st\<lparr>msSessions := revoke_user_sessions i at (msSessions st)\<rparr>)"
proof (rule store_ok_sessions[OF assms])
  show "gmap_ok (revoke_user_sessions i at (msSessions st))" by (rule gmap_ok_revoke[OF store_okD(3)[OF assms]])
  fix d s assume "gget (revoke_user_sessions i at (msSessions st)) d = Some s"
  then obtain s0 where s0: "gget (msSessions st) d = Some s0"
      "s = (if ssUserID s0 = i \<and> ssRevokedAt s0 = None then s0\<lparr>ssRevokedAt := Some at\<rparr> else s0)"
    by (auto simp: gget_revoke)
  then show "session_entry_ok st d s" using store_okD(6)[OF assms s0(1)] by (auto simp: session_entry_ok_def)
qed

lemma found_session:
  assumes "gmap_ok ss" "find P ss = Some (d, s)"
  shows "gget ss d = Some s" "P (d, s)"
  using assms by (auto simp: find_Some_iff gmap_ok_gget_iff in_set_conv_nth)

lemma apply_store_ok:
  assumes ok: "store_ok st"
  shows "store_ok (apply_store unicode_lower op st)"
proof (cases op)
  case (CallCreateUser u)
  then show ?thesis using ok CreateUser_ok[OF ok] by (auto simp: accepted_store_def split: sum.splits)
next
  case (CallSetLastLogin i at)
  then show ?thesis using ok store_ok_user[OF ok]
    by (auto simp: accepted_store_def SetLastLogin_def split: sum.splits option.splits)
next
  case (CallChangePassword i h h' at)
  have "store_ok ((st\<lparr>msUsers := gput i (u\<lparr>usPasswordHash := h', usPasswordChangeRequired := False, usPasswordChangedAt := at\<rparr>)
      (msUsers st)\<rparr>)\<lparr>msSessions := revoke_user_sessions i at (msSessions st)\<rparr>)" if "gget (msUsers st) i = Some u" for u
    using revoke_sessions_ok[OF store_ok_user[OF ok that]] by simp
  then show ?thesis using ok
    by (auto simp: CallChangePassword accepted_store_def ChangePasswordAndRevokeSessions_def split: sum.splits option.splits if_splits)
next
  case (CallCreateSession s h)
  then show ?thesis using ok
    by (auto simp: accepted_store_def CreateSession_def Let_def session_entry_ok_def
        intro!: put_session_ok split: sum.splits option.splits if_splits)
next
  case (CallTouchSession d at)
  have "session_entry_ok st d (s\<lparr>ssLastActivityAt := at\<rparr>)"
    if "gget (msSessions st) d = Some s" "at < ssExpiresAt s" "activityAt s < at" for s
    using store_okD(6)[OF ok that(1)] that by (auto simp: session_entry_ok_def activityAt_def split: if_splits)
  then show ?thesis using ok
    by (auto simp: CallTouchSession accepted_store_def TouchSessionByDigest_def intro!: put_session_ok
        split: sum.splits option.splits if_splits)
next
  case (CallRevokeSession d at)
  have "session_entry_ok st d (s\<lparr>ssRevokedAt := Some at\<rparr>)" if "gget (msSessions st) d = Some s" for s
    using store_okD(6)[OF ok that] by (simp add: session_entry_ok_def)
  then show ?thesis using ok
    by (auto simp: CallRevokeSession accepted_store_def RevokeSessionByDigest_def intro!: put_session_ok
        split: sum.splits option.splits if_splits)
next
  case (CallRevokeSessionForUser u i at)
  have "session_entry_ok st d (s\<lparr>ssRevokedAt := Some at\<rparr>)" if "find P (msSessions st) = Some (d, s)" for P d s
    using store_okD(6)[OF ok found_session(1)[OF store_okD(3)[OF ok] that]] by (simp add: session_entry_ok_def)
  then show ?thesis using ok
    by (auto simp: CallRevokeSessionForUser accepted_store_def RevokeSessionForUserByID_def intro!: put_session_ok
        split: sum.splits option.splits)
next
  case (CallRevokeSessionsForUser u at)
  then show ?thesis using revoke_sessions_ok[OF ok] by (simp add: RevokeSessionsForUser_def)
next
  case (ReorderSessions ss)
  then show ?thesis using ok reordered_map[OF store_okD(3)[OF ok], of ss] store_okD(6)[OF ok]
    by (auto intro!: store_ok_sessions)
qed

lemma new_store_ok: "store_ok NewMemoryStore"
  by (simp add: NewMemoryStore_def store_ok_def)

interpretation session_store: step_system "\<lambda>st. st = NewMemoryStore" "\<lambda>st st'. \<exists>op. st' = apply_store unicode_lower op st" store_ok
  for unicode_lower
  by unfold_locales (auto intro: apply_store_ok simp: new_store_ok)

lemma run_store_steps: "(\<lambda>st st'. \<exists>op. st' = apply_store unicode_lower op st)\<^sup>*\<^sup>* st (run_store unicode_lower ops st)"
proof (induction ops rule: rev_induct)
  case (snoc op ops)
  have "run_store unicode_lower (ops @ [op]) st = apply_store unicode_lower op (run_store unicode_lower ops st)"
    by (simp add: run_store_def)
  then show ?case using snoc by (metis (mono_tags, lifting) rtranclp.simps)
qed (simp add: run_store_def)

lemma run_store_ok: "store_ok st \<Longrightarrow> store_ok (run_store unicode_lower ops st)"
  by (rule session_store.steps_inv[OF run_store_steps])

subsection \<open>Sessions over time\<close>

text \<open>What never changes of a session, and that a revocation is final.\<close>

definition session_kept :: "Session \<Rightarrow> Session \<Rightarrow> bool" where
  "session_kept s s' \<longleftrightarrow> ssID s' = ssID s \<and> ssUserID s' = ssUserID s \<and> ssTokenDigest s' = ssTokenDigest s
     \<and> ssCredentialVersion s' = ssCredentialVersion s \<and> ssCreatedAt s' = ssCreatedAt s \<and> ssExpiresAt s' = ssExpiresAt s
     \<and> (ssRevokedAt s = None \<or> ssRevokedAt s' = ssRevokedAt s)"

lemma session_kept_refl [simp]: "session_kept s s"
  by (simp add: session_kept_def)

lemma session_kept_trans: "session_kept a b \<Longrightarrow> session_kept b c \<Longrightarrow> session_kept a c"
  by (auto simp: session_kept_def)

lemma put_session_kept:
  assumes "gget ss d = Some s" "gget ss d' = Some s'" "session_kept s' s''"
  shows "\<exists>t. gget (gput d' s'' ss) d = Some t \<and> session_kept s t"
  using assms by (cases "d = d'") auto

lemma apply_store_session:
  assumes ok: "store_ok st" and d: "gget (msSessions st) d = Some s"
  shows "\<exists>s'. gget (msSessions (apply_store unicode_lower op st)) d = Some s' \<and> session_kept s s'"
proof (cases op)
  case (CallCreateUser u)
  then show ?thesis using d by (auto simp: accepted_store_def CreateUser_def Let_def)
next
  case (CallSetLastLogin i at)
  then show ?thesis using d by (auto simp: accepted_store_def SetLastLogin_def split: option.splits)
next
  case (CallChangePassword i h h' at)
  then show ?thesis using d
    by (auto simp: accepted_store_def ChangePasswordAndRevokeSessions_def gget_revoke session_kept_def split: option.splits)
next
  case (CallCreateSession t h)
  then show ?thesis using d
    by (cases "ssTokenDigest t = d") (auto simp: accepted_store_def CreateSession_def Let_def split: option.splits)
next
  case (CallTouchSession e at)
  then show ?thesis using d
    by (auto simp: accepted_store_def TouchSessionByDigest_def session_kept_def split: option.splits)
next
  case (CallRevokeSession e at)
  then show ?thesis using d
    by (auto simp: accepted_store_def RevokeSessionByDigest_def session_kept_def split: option.splits)
next
  case (CallRevokeSessionForUser u i at)
  have "\<exists>s'. gget (gput e (t\<lparr>ssRevokedAt := Some at\<rparr>) (msSessions st)) d = Some s' \<and> session_kept s s'"
    if "find (\<lambda>(_, s). \<not> (ssUserID s \<noteq> u \<or> ssID s \<noteq> i \<or> ssRevokedAt s \<noteq> None \<or> \<not> at < ssExpiresAt s)) (msSessions st) = Some (e, t)"
    for e t
    using found_session[OF store_okD(3)[OF ok] that] by (intro put_session_kept[OF d]) (auto simp: session_kept_def)
  then show ?thesis using d
    by (auto simp: CallRevokeSessionForUser accepted_store_def RevokeSessionForUserByID_def split: option.splits)
next
  case (CallRevokeSessionsForUser u at)
  then show ?thesis using d by (auto simp: RevokeSessionsForUser_def gget_revoke session_kept_def)
next
  case (ReorderSessions ss)
  then show ?thesis using d reordered_map(2)[OF store_okD(3)[OF ok], of ss] by simp
qed

lemma run_store_session:
  assumes "store_ok st" "gget (msSessions st) d = Some s"
  shows "\<exists>s'. gget (msSessions (run_store unicode_lower ops st)) d = Some s' \<and> session_kept s s'"
proof (induction ops rule: rev_induct)
  case (snoc op ops)
  then obtain s' where "gget (msSessions (run_store unicode_lower ops st)) d = Some s'" "session_kept s s'" by blast
  then show ?case
    using apply_store_session[OF run_store_ok[OF assms(1)], of unicode_lower ops d s' unicode_lower op] session_kept_trans
    by (simp add: run_store_def) blast
qed (use assms in \<open>simp add: run_store_def\<close>)

definition revoked_session :: "string \<Rightarrow> MemoryStore \<Rightarrow> bool" where
  "revoked_session d st \<longleftrightarrow> (\<exists>s. gget (msSessions st) d = Some s \<and> ssRevokedAt s \<noteq> None)"

interpretation revoked: frozen_system "\<lambda>st. st = NewMemoryStore" "\<lambda>st st'. \<exists>op. st' = apply_store unicode_lower op st" store_ok
  "revoked_session d" for unicode_lower d
proof (unfold_locales, elim exE)
  fix st st' op assume "store_ok st" "revoked_session d st" "st' = apply_store unicode_lower op st"
  then show "revoked_session d st'"
    using apply_store_session[of st d _ unicode_lower op] by (fastforce simp: revoked_session_def session_kept_def)
qed

lemma run_store_revoked: "store_ok st \<Longrightarrow> revoked_session d st \<Longrightarrow> revoked_session d (run_store unicode_lower ops st)"
  by (rule revoked.frozen_steps[OF run_store_steps])

end
