(* ===== verification/Audit_Redaction.thy ===== *)
theory Audit_Redaction
  imports Go_Text Go_Json_Encode
begin

text \<open>
  Package \<^verbatim>\<open>internal/identity/audit\<close>, file \<^verbatim>\<open>audit.go\<close>, the redaction: \<^verbatim>\<open>Redact\<close> and \<^verbatim>\<open>redactValue\<close> with their two
  regular expressions. Both expressions ignore case, so Go lets the letter s also match U+017F and the
  letter k also match U+212A. They are written out as functions on bytes: a match starts at an ASCII
  byte or at a leading byte, so scanning bytes finds what scanning runes finds.

  A detail value is a \<^verbatim>\<open>map[string]any\<close>, an \<^verbatim>\<open>[]any\<close>, a string, or a value of another type, which the code
  leaves alone and which has the JSON encoding \<open>Some j\<close>, or none. A nil map is the empty list.
\<close>

datatype any_value =
    AnyMap "(string \<times> any_value) list"
  | AnyList "any_value list"
  | AnyString string
  | AnyOther "json option"

subsection \<open>Matching without case\<close>

definition fold_char :: "char \<Rightarrow> string \<Rightarrow> string option" where
  "fold_char p s =
     (case s of [] \<Rightarrow> None
      | c # r \<Rightarrow>
        if lower_char c = p then Some r
        else if p = CHR ''s'' \<and> take 2 s = [CHR 0xC5, CHR 0xBF] then Some (drop 2 s)
        else if p = CHR ''k'' \<and> take 3 s = [CHR 0xE2, CHR 0x84, CHR 0xAA] then Some (drop 3 s)
        else None)"

text \<open>The rest of \<open>s\<close> behind the lower-case literal, when it starts with the literal.\<close>

fun fold_prefix :: "string \<Rightarrow> string \<Rightarrow> string option" where
  "fold_prefix [] s = Some s"
| "fold_prefix (p # ps) s = (case fold_char p s of None \<Rightarrow> None | Some r \<Rightarrow> fold_prefix ps r)"

text \<open>The alternatives of \<^verbatim>\<open>sensitiveKey\<close>, with the optional hyphen or underscore written out.\<close>

definition sensitive_words :: "string list" where
  "sensitive_words = [''password'', ''passwd'', ''secret'', ''token'', ''authorization'', ''cookie'',
     ''apikey'', ''api-key'', ''api_key'', ''privatekey'', ''private-key'', ''private_key'', ''credential'']"

fun sensitiveKey :: "string \<Rightarrow> bool" where
  "sensitiveKey [] = False"
| "sensitiveKey (c # s) = (list_ex (\<lambda>w. fold_prefix w (c # s) \<noteq> None) sensitive_words \<or> sensitiveKey s)"

subsection \<open>Bearer credentials\<close>

definition re_space :: "char \<Rightarrow> bool" where
  "re_space c \<longleftrightarrow> c \<in> {CHR 0x09, CHR 0x0A, CHR 0x0C, CHR 0x0D, CHR '' ''}"

definition re_word :: "char \<Rightarrow> bool" where
  "re_word c \<longleftrightarrow> alnum c \<or> c = CHR ''_''"

definition token_char :: "char \<Rightarrow> bool" where
  "token_char c \<longleftrightarrow> alnum c \<or> c \<in> set ''._~+/=-''"

text \<open>What is left behind the longest run of the class \<^verbatim>\<open>[a-z0-9._~+/=-]\<close>.\<close>

fun drop_token :: "string \<Rightarrow> string" where
  "drop_token [] = []"
| "drop_token (c # s) =
     (if token_char c then drop_token s
      else if c = CHR 0xC5 \<and> take 1 s = [CHR 0xBF] then drop_token (drop 1 s)
      else if c = CHR 0xE2 \<and> take 2 s = [CHR 0x84, CHR 0xAA] then drop_token (drop 2 s)
      else c # s)"

text \<open>The rest behind a match of \<^verbatim>\<open>bearer\s+[a-z0-9._~+/=-]+\<close> at the start of \<open>s\<close>.\<close>

definition bearer_at :: "string \<Rightarrow> string option" where
  "bearer_at s =
     (case fold_prefix ''bearer'' s of None \<Rightarrow> None
      | Some r \<Rightarrow>
        (let t = dropWhile re_space r in
         if t = r \<or> drop_token t = t then None else Some (drop_token t)))"

lemma fold_char_length: "fold_char p s = Some r \<Longrightarrow> length r < length s"
  by (auto simp: fold_char_def split: list.splits if_splits)

lemma fold_prefix_length: "fold_prefix ps s = Some r \<Longrightarrow> length r \<le> length s"
  by (induction ps arbitrary: s) (fastforce split: option.splits dest!: fold_char_length)+

lemma drop_token_length: "length (drop_token s) \<le> length s"
  by (induction s rule: drop_token.induct) auto

lemma dropWhile_shorter: "dropWhile P xs \<noteq> xs \<Longrightarrow> length (dropWhile P xs) < length xs"
  by (cases xs) (auto simp: le_imp_less_Suc length_dropWhile_le split: if_splits)

lemma bearer_at_length:
  assumes "bearer_at s = Some r"
  shows "length r < length s"
proof -
  obtain q where q: "fold_prefix ''bearer'' s = Some q" "dropWhile re_space q \<noteq> q" "r = drop_token (dropWhile re_space q)"
    using assms by (auto simp: bearer_at_def Let_def split: option.splits if_splits)
  then show ?thesis
    using fold_prefix_length[OF q(1)] drop_token_length[of "dropWhile re_space q"] dropWhile_shorter[OF q(2)] by simp
qed

text \<open>
  \<^verbatim>\<open>bearerValue.ReplaceAllString\<close>: every match is replaced, from left to right. A match starts at a word boundary,
  and its first letter is a word character, so the flag \<open>w\<close>, whether the byte before is one, decides.
\<close>

function redact_bearer :: "bool \<Rightarrow> string \<Rightarrow> string" where
  "redact_bearer w [] = []"
| "redact_bearer w (c # s) =
     (case (if w then None else bearer_at (c # s)) of
        None \<Rightarrow> c # redact_bearer (re_word c) s
      | Some rest \<Rightarrow> ''Bearer [REDACTED]'' @
          redact_bearer (re_word (last (take (length (c # s) - length rest) (c # s)))) rest)"
  by pat_completeness auto
termination
  by (relation "measure (length \<circ> snd)") (auto dest!: bearer_at_length split: if_splits)

fun redactValue :: "any_value \<Rightarrow> any_value" where
  "redactValue (AnyMap m) =
     AnyMap (map (\<lambda>(k, v). (k, if sensitiveKey k then AnyString ''[REDACTED]'' else redactValue v)) m)"
| "redactValue (AnyList vs) = AnyList (map redactValue vs)"
| "redactValue (AnyString s) = AnyString (redact_bearer False s)"
| "redactValue (AnyOther j) = AnyOther j"

definition Redact :: "(string \<times> any_value) list \<Rightarrow> (string \<times> any_value) list" where
  "Redact input = map (\<lambda>(k, v). (k, if sensitiveKey k then AnyString ''[REDACTED]'' else redactValue v)) input"

lemma redactValue_map: "redactValue (AnyMap m) = AnyMap (Redact m)"
  by (simp add: Redact_def)

subsection \<open>What is left after redaction\<close>

text \<open>Whether the expression still matches somewhere.\<close>

fun has_bearer :: "bool \<Rightarrow> string \<Rightarrow> bool" where
  "has_bearer w [] = False"
| "has_bearer w (c # s) = (\<not> w \<and> bearer_at (c # s) \<noteq> None \<or> has_bearer (re_word c) s)"

fun clean :: "any_value \<Rightarrow> bool" where
  "clean (AnyMap m) = list_all (\<lambda>(k, v). if sensitiveKey k then v = AnyString ''[REDACTED]'' else clean v) m"
| "clean (AnyList vs) = list_all clean vs"
| "clean (AnyString s) = (\<not> has_bearer False s)"
| "clean (AnyOther j) = True"

lemma bearer_at_b: "bearer_at (c # s) = Some r \<Longrightarrow> lower_char c = CHR ''b''"
  by (auto simp: bearer_at_def fold_char_def Let_def split: option.splits if_splits)

lemma lower_char_letter: "lower_char c = p \<Longrightarrow> ascii_lower p \<Longrightarrow> alnum c"
  by (auto simp: lower_char_def alnum_def split: if_splits)

lemma b_token: "lower_char c = CHR ''b'' \<Longrightarrow> token_char c"
  using lower_char_letter[of c "CHR ''b''"] by (simp add: token_char_def ascii_lower_def less_eq_char_def)

lemma redact_copies: "w \<or> bearer_at (c # s) = None \<Longrightarrow> redact_bearer w (c # s) = c # redact_bearer (re_word c) s"
  by auto

lemma redact_not_b: "lower_char c \<noteq> CHR ''b'' \<Longrightarrow> redact_bearer w (c # s) = c # redact_bearer (re_word c) s"
  using bearer_at_b by (intro redact_copies) (metis not_None_eq)

declare redact_bearer.simps(2) [simp del]

lemma redact_first:
  assumes "redact_bearer w s = d # out" "d \<noteq> CHR ''B''"
  shows "\<exists>s'. s = d # s' \<and> out = redact_bearer (re_word d) s'"
  using assms by (cases s) (auto simp: redact_bearer.simps(2) split: option.splits)

lemma fold_prefix_redacted:
  assumes "list_all (\<lambda>p. ascii_lower p \<and> p \<noteq> CHR ''s'' \<and> p \<noteq> CHR ''k'') ps" "fold_prefix ps (redact_bearer True s) = Some r"
  shows "\<exists>t. fold_prefix ps s = Some t \<and> r = redact_bearer True t"
  using assms
proof (induction ps arbitrary: s)
  case (Cons p ps)
  then obtain d s' where s: "s = d # s'" by (cases s) (auto simp: fold_char_def)
  have out: "redact_bearer True (d # s') = d # redact_bearer (re_word d) s'" by (simp add: redact_copies)
  have d: "lower_char d = p" using Cons.prems by (auto simp: s out fold_char_def split: option.splits if_splits)
  then have "re_word d" using lower_char_letter Cons.prems(1) by (auto simp: re_word_def)
  then show ?case using Cons.IH[of s'] Cons.prems d by (simp add: out s fold_char_def)
qed simp

lemma spaces_redacted: "dropWhile re_space (redact_bearer False u) = redact_bearer False (dropWhile re_space u)"
proof (induction u)
  case (Cons x u)
  show ?case
  proof (cases "re_space x")
    case True
    then have "lower_char x \<noteq> CHR ''b''" "\<not> re_word x"
      by (auto simp: re_space_def lower_char_def re_word_def char_class_defs less_eq_char_def)
    then show ?thesis using True Cons by (simp add: redact_not_b)
  next
    case False
    then show ?thesis by (auto simp: redact_bearer.simps(2) re_space_def split: option.splits)
  qed
qed simp

lemma starts_token:
  "drop_token (c # s) \<noteq> c # s \<longleftrightarrow> token_char c \<or> c = CHR 0xC5 \<and> take 1 s = [CHR 0xBF]
     \<or> c = CHR 0xE2 \<and> take 2 s = [CHR 0x84, CHR 0xAA]"
proof -
  have "drop_token t \<noteq> c # s" if "length t \<le> length s" for t
    using drop_token_length[of t] that by (metis Suc_n_not_le_n le_trans length_Cons)
  then show ?thesis by auto
qed

lemma take1_redacted: "take 1 (redact_bearer w s) = [d] \<Longrightarrow> d \<noteq> CHR ''B'' \<Longrightarrow> take 1 s = [d]"
  by (cases "redact_bearer w s") (auto dest!: redact_first)

lemma take2_redacted:
  assumes "take 2 (redact_bearer w s) = [d, e]" "d \<noteq> CHR ''B''" "e \<noteq> CHR ''B''"
  shows "take 2 s = [d, e]"
proof -
  obtain out where "redact_bearer w s = d # out" "take 1 out = [e]"
    using assms(1) by (cases "redact_bearer w s") (auto simp: numeral_2_eq_2)
  then obtain s' where "s = d # s'" "take 1 (redact_bearer (re_word d) s') = [e]" using redact_first assms(2) by blast
  then show ?thesis using take1_redacted[of _ s' e] assms(3) by (simp add: numeral_2_eq_2)
qed

lemma token_redacted:
  assumes "drop_token (redact_bearer w u) \<noteq> redact_bearer w u"
  shows "drop_token u \<noteq> u"
proof (cases u)
  case (Cons c s)
  show ?thesis
  proof (cases "w \<or> bearer_at u = None")
    case True
    then have "redact_bearer w u = c # redact_bearer (re_word c) s" by (simp add: Cons redact_copies)
    then have "token_char c \<or> c = CHR 0xC5 \<and> take 1 (redact_bearer (re_word c) s) = [CHR 0xBF]
        \<or> c = CHR 0xE2 \<and> take 2 (redact_bearer (re_word c) s) = [CHR 0x84, CHR 0xAA]"
      using assms unfolding starts_token[symmetric] by simp
    then show ?thesis
      using take1_redacted[of "re_word c" s "CHR 0xBF"] take2_redacted[of "re_word c" s "CHR 0x84" "CHR 0xAA"]
      unfolding Cons starts_token by auto
  next
    case False
    then have "token_char c" using bearer_at_b b_token by (metis Cons not_None_eq)
    then show ?thesis unfolding Cons starts_token by blast
  qed
qed (use assms in simp)

text \<open>Redacting what follows a character creates no match at this character.\<close>

lemma match_reflected:
  assumes "bearer_at (c # redact_bearer (re_word c) s) \<noteq> None"
  shows "bearer_at (c # s) \<noteq> None"
proof -
  let ?out = "redact_bearer (re_word c) s"
  have c: "lower_char c = CHR ''b''" using assms bearer_at_b by (metis not_None_eq)
  then have w: "re_word c" using lower_char_letter[OF c] by (simp add: re_word_def ascii_lower_def less_eq_char_def)
  obtain r where r: "fold_prefix ''earer'' ?out = Some r" "dropWhile re_space r \<noteq> r"
      "drop_token (dropWhile re_space r) \<noteq> dropWhile re_space r"
    using assms c by (auto simp: bearer_at_def fold_char_def[of "CHR ''b''"] Let_def split: option.splits if_splits)
  have "list_all (\<lambda>p. ascii_lower p \<and> p \<noteq> CHR ''s'' \<and> p \<noteq> CHR ''k'') ''earer''"
    by (simp add: ascii_lower_def less_eq_char_def)
  then obtain t where t: "fold_prefix ''earer'' s = Some t" "r = redact_bearer True t"
    using fold_prefix_redacted[of "''earer''" s r] r(1) w by auto
  obtain x u where u: "t = x # u" "re_space x"
    using r(2) t(2) by (cases t) (auto simp: redact_copies split: if_splits)
  then have "\<not> re_word x" by (auto simp: re_space_def re_word_def char_class_defs less_eq_char_def)
  then have "dropWhile re_space r = redact_bearer False (dropWhile re_space t)"
    using u by (simp add: t(2) redact_copies spaces_redacted)
  then have "drop_token (dropWhile re_space t) \<noteq> dropWhile re_space t" using token_redacted r(3) by metis
  moreover have "dropWhile re_space t \<noteq> t"
    using length_dropWhile_le[of re_space u] u by (metis Suc_n_not_le_n dropWhile.simps(2) length_Cons)
  ultimately show ?thesis using t(1) c by (simp add: bearer_at_def fold_char_def[of "CHR ''b''"] Let_def)
qed

lemma no_token_first: "drop_token s = d # r \<Longrightarrow> \<not> token_char d"
  by (induction s rule: drop_token.induct) (auto split: if_splits)

lemma bearer_at_rest: "bearer_at s = Some (d # r) \<Longrightarrow> lower_char d \<noteq> CHR ''b''"
  using b_token no_token_first by (auto simp: bearer_at_def Let_def split: option.splits if_splits)

lemma has_bearer_not_b: "lower_char c \<noteq> CHR ''b'' \<Longrightarrow> has_bearer w (c # s) = has_bearer (re_word c) s"
  using bearer_at_b by auto

lemma replacement_clean: "has_bearer False (''Bearer [REDACTED]'' @ s) = has_bearer False s"
proof -
  have "bearer_at (''Bearer [REDACTED]'' @ s) = None"
    by (simp add: bearer_at_def fold_char_def lower_char_def char_class_defs less_eq_char_def re_space_def token_char_def char_of_def bit_0)
  then show ?thesis
    by (simp add: bearer_at_def fold_char_def lower_char_def char_class_defs less_eq_char_def re_word_def char_of_def bit_0)
qed

lemma redacted_no_bearer: "\<not> has_bearer w (redact_bearer w s)"
proof (induction w s rule: redact_bearer.induct)
  case (2 w c s)
  show ?case
  proof (cases "if w then None else bearer_at (c # s)")
    case None
    then have "\<not> (\<not> w \<and> bearer_at (c # redact_bearer (re_word c) s) \<noteq> None)"
      using match_reflected[of c s] by (auto simp del: not_None_eq split: if_splits)
    then show ?thesis using 2(1)[OF None] None by (simp add: redact_bearer.simps(2))
  next
    case (Some rest)
    let ?w = "re_word (last (take (length (c # s) - length rest) (c # s)))"
    have "bearer_at (c # s) = Some rest" "\<not> w" using Some by (auto split: if_splits)
    then have "has_bearer False (redact_bearer ?w rest) = has_bearer ?w (redact_bearer ?w rest)"
      using bearer_at_rest by (cases rest) (auto simp: redact_not_b has_bearer_not_b simp del: has_bearer.simps(2))
    then show ?thesis using 2(2)[OF Some] \<open>\<not> w\<close>
      unfolding redact_bearer.simps(2) Some option.case by (simp only: replacement_clean) simp
  qed
qed simp

lemma redact_no_bearer: "\<not> has_bearer w s \<Longrightarrow> redact_bearer w s = s"
  by (induction s arbitrary: w) (auto simp: redact_copies)

lemma clean_redacted: "clean (redactValue v)"
  by (induction v) (auto simp: list_all_iff redacted_no_bearer)

lemma redact_clean: "clean v \<Longrightarrow> redactValue v = v"
  by (induction v) (auto simp: list_all_iff redact_no_bearer intro!: map_idI split: if_splits)


end
