(* ===== verification/Audit_Log.thy ===== *)
theory Audit_Log
  imports Audit_Redaction Go_Sha256
begin

text \<open>
  Package \<^verbatim>\<open>internal/identity/audit\<close>, files \<^verbatim>\<open>audit.go\<close> and \<^verbatim>\<open>integrity.go\<close>: audit events linked by their SHA-256
  hashes, the memory log and the inspection of its chain. The clock and the random id of a new event
  are arguments. The hash covers the JSON encoding of the event; the code ignores an encoding error,
  in which case the text hashed is empty.
\<close>

subsection \<open>Events\<close>

record Event =
  evID :: string
  evOccurredAt :: "time"
  evAction :: string
  evOutcome :: string
  evActorID :: string
  evSubjectID :: string
  evSourceIP :: string
  evCorrelationID :: string
  evDetails :: "(string \<times> any_value) list"
  evPreviousHash :: string
  evHash :: string

text \<open>\<^verbatim>\<open>json.Marshal\<close> of a detail value; a map is written in the order of its keys.\<close>

fun any_json :: "any_value \<Rightarrow> json option" where
  "any_json (AnyMap m) = map_option (\<lambda>fields. JObject (sort_key fst fields))
     (those (map (\<lambda>(k, v). map_option (Pair k) (any_json v)) m))"
| "any_json (AnyList vs) = map_option JArray (those (map any_json vs))"
| "any_json (AnyString s) = Some (JString s)"
| "any_json (AnyOther j) = j"

definition omit_empty :: "string \<Rightarrow> string \<Rightarrow> (string \<times> json) list" where
  "omit_empty name v = (if v = [] then [] else [(name, JString v)])"

definition event_fields :: "Event \<Rightarrow> string \<Rightarrow> json \<Rightarrow> (string \<times> json) list" where
  "event_fields e at details =
     [(''id'', JString (evID e)), (''occurred_at'', JString at), (''action'', JString (evAction e)), (''outcome'', JString (evOutcome e))]
     @ omit_empty ''actor_id'' (evActorID e) @ omit_empty ''subject_id'' (evSubjectID e)
     @ omit_empty ''source_ip'' (evSourceIP e) @ omit_empty ''correlation_id'' (evCorrelationID e)
     @ (if evDetails e = [] then [] else [(''details'', details)])"

definition event_text :: "Event \<Rightarrow> string" where
  "event_text e =
     (case (time_RFC3339 (evOccurredAt e), any_json (AnyMap (evDetails e))) of
        (Some at, Some details) \<Rightarrow> json_Marshal (JObject
          (event_fields e at details @ omit_empty ''previous_hash'' (evPreviousHash e) @ [(''hash'', JString (evHash e))]))
      | _ \<Rightarrow> [])"

definition hashEvent :: "Event \<Rightarrow> string" where
  "hashEvent e = sha256_hex (event_text (e\<lparr>evHash := []\<rparr>))"

definition microsecond :: duration where "microsecond = 1000"

definition time_Truncate :: "time \<Rightarrow> duration \<Rightarrow> time" where
  "time_Truncate t d = t - t mod d"

definition Prepare :: "time \<Rightarrow> string \<Rightarrow> Event \<Rightarrow> string \<Rightarrow> string + Event" where
  "Prepare now randomID event previousHash =
     (if TrimSpace (evAction event) = [] \<or> TrimSpace (evOutcome event) = [] then Inl ''audit action and outcome are required''
      else
       (let e = event\<lparr>evID := (if evID event = [] then randomID else evID event),
              evOccurredAt := time_Truncate (if IsZero (evOccurredAt event) then now else evOccurredAt event) microsecond,
              evDetails := Redact (evDetails event), evPreviousHash := previousHash\<rparr>
        in Inr (e\<lparr>evHash := hashEvent e\<rparr>)))"

definition hex_value :: "char \<Rightarrow> bool" where
  "hex_value c \<longleftrightarrow> ascii_digit c \<or> CHR ''a'' \<le> c \<and> c \<le> CHR ''f'' \<or> CHR ''A'' \<le> c \<and> c \<le> CHR ''F''"

definition legacyUnhyphenatedUUID :: "string \<Rightarrow> string option" where
  "legacyUnhyphenatedUUID v =
     (if length v \<noteq> 36 \<or> v ! 8 \<noteq> CHR ''-'' \<or> v ! 13 \<noteq> CHR ''-'' \<or> v ! 18 \<noteq> CHR ''-'' \<or> v ! 23 \<noteq> CHR ''-'' then None
      else (let compact = filter (\<lambda>c. c \<noteq> CHR ''-'') v in
        if length compact \<noteq> 32 then None else if \<not> list_all hex_value compact then None else Some compact))"

text \<open>Times of the model are in UTC, so the check of the location always passes.\<close>

definition Verify :: "Event \<Rightarrow> string \<Rightarrow> string + unit" where
  "Verify event expectedPreviousHash = first_error
     [require (\<not> IsZero (evOccurredAt event)) ''audit timestamp is required'',
      require (\<not> evOccurredAt event mod second mod 1000 \<noteq> 0) ''audit timestamp is not canonical PostgreSQL microsecond UTC'',
      require (evOccurredAt event = time_Truncate (time_UTC (evOccurredAt event)) microsecond) ''audit timestamp is not canonical'',
      require (evPreviousHash event = expectedPreviousHash) ''audit previous hash mismatch'',
      require (evHash event \<noteq> []) ''audit event hash mismatch'',
      require (hashEvent event = evHash event
        \<or> (case legacyUnhyphenatedUUID (evID event) of None \<Rightarrow> False
           | Some legacyID \<Rightarrow> hashEvent (event\<lparr>evID := legacyID\<rparr>) = evHash event)) ''audit event hash mismatch'']"

subsection \<open>Memory log\<close>

type_synonym MemoryLog = "Event list"

datatype log_error = LogContext ctx_error | LogError string

definition Append :: "ctx \<Rightarrow> time \<Rightarrow> string \<Rightarrow> Event \<Rightarrow> MemoryLog \<Rightarrow> log_error + MemoryLog" where
  "Append ctx now randomID event l =
     (case ctx of Some e \<Rightarrow> Inl (LogContext e)
      | None \<Rightarrow>
        (let previousHash = (if length l > 0 then evHash (last l) else []) in
         case Prepare now randomID event previousHash of Inl e \<Rightarrow> Inl (LogError e) | Inr e \<Rightarrow> Inr (l @ [e])))"

record Query =
  auLimit :: int
  auBeforeSequenceID :: int
  auAction :: string
  auOutcome :: string
  auActorID :: string
  auSubjectID :: string

record Entry =
  enSequenceID :: int
  enEvent :: Event

record Page =
  pgEntries :: "Entry list"
  pgHasMore :: bool

definition DefaultReadLimit :: int where "DefaultReadLimit = 50"
definition MaxReadLimit :: int where "MaxReadLimit = 100"

definition NormalizeQuery :: "Query \<Rightarrow> string + Query" where
  "NormalizeQuery query =
     (let limit = (if auLimit query = 0 then DefaultReadLimit else auLimit query);
          q = query\<lparr>auLimit := limit, auAction := TrimSpace (auAction query), auOutcome := TrimSpace (auOutcome query),
                auActorID := TrimSpace (auActorID query), auSubjectID := TrimSpace (auSubjectID query)\<rparr> in
      case first_error
        [require (\<not> (limit < 1 \<or> limit > MaxReadLimit)) ''audit read limit must be between 1 and 100'',
         require (\<not> auBeforeSequenceID query < 0) ''audit cursor must be non-negative'',
         require (\<not> length (auAction q) > 192) ''audit action filter is too long'',
         require (\<not> length (auOutcome q) > 32) ''audit outcome filter is too long'',
         require (\<not> (length (auActorID q) > 128 \<or> length (auSubjectID q) > 256)) ''audit identity filter is too long'']
      of Inl e \<Rightarrow> Inl e | Inr _ \<Rightarrow> Inr q)"

definition queryMatches :: "Event \<Rightarrow> Query \<Rightarrow> bool" where
  "queryMatches e q \<longleftrightarrow> (auAction q = [] \<or> evAction e = auAction q) \<and> (auOutcome q = [] \<or> evOutcome e = auOutcome q)
     \<and> (auActorID q = [] \<or> evActorID e = auActorID q) \<and> (auSubjectID q = [] \<or> evSubjectID e = auSubjectID q)"

text \<open>The loop of \<^verbatim>\<open>Read\<close>, from the newest record down: the records with their sequence ids.\<close>

fun read_loop :: "Query \<Rightarrow> Entry list \<Rightarrow> (int \<times> Event) list \<Rightarrow> Entry list" where
  "read_loop q entries [] = entries"
| "read_loop q entries ((sequenceID, event) # rs) =
     (if \<not> int (length entries) \<le> auLimit q then entries
      else if auBeforeSequenceID q > 0 \<and> sequenceID \<ge> auBeforeSequenceID q then read_loop q entries rs
      else if \<not> queryMatches event q then read_loop q entries rs
      else read_loop q (entries @ [\<lparr>enSequenceID = sequenceID, enEvent = event\<lparr>evDetails := Redact (evDetails event)\<rparr>\<rparr>]) rs)"

definition numbered :: "MemoryLog \<Rightarrow> (int \<times> Event) list" where
  "numbered l = map (\<lambda>i. (int (i + 1), l ! i)) (rev [0..<length l])"

definition Log_Read :: "ctx \<Rightarrow> Query \<Rightarrow> MemoryLog \<Rightarrow> log_error + Page" where
  "Log_Read ctx query0 l =
     (case ctx of Some e \<Rightarrow> Inl (LogContext e)
      | None \<Rightarrow>
     (case NormalizeQuery query0 of Inl e \<Rightarrow> Inl (LogError e)
      | Inr query \<Rightarrow>
        (let entries = read_loop query [] (numbered l);
             hasMore = int (length entries) > auLimit query in
         Inr \<lparr>pgEntries = (if hasMore then take (nat (auLimit query)) entries else entries), pgHasMore = hasMore\<rparr>)))"

subsection \<open>Inspection\<close>

record IntegrityReport =
  irEventsChecked :: int
  irHeadHash :: string

text \<open>\<open>ctx k\<close> is the state of the context at its \<open>k\<close>-th query.\<close>

fun inspect_loop :: "(nat \<Rightarrow> ctx) \<Rightarrow> nat \<Rightarrow> string \<Rightarrow> Event list \<Rightarrow> log_error + string" where
  "inspect_loop ctx offset previousHash [] = Inr previousHash"
| "inspect_loop ctx offset previousHash (e # es) =
     (case ctx (Suc offset) of Some err \<Rightarrow> Inl (LogContext err)
      | None \<Rightarrow>
     (case Verify e previousHash of
        Inl m \<Rightarrow> Inl (LogError (''verify audit event at offset '' @ show_nat offset @ '': '' @ m))
      | Inr _ \<Rightarrow> inspect_loop ctx (Suc offset) (evHash e) es))"

definition InspectChain :: "(nat \<Rightarrow> ctx) \<Rightarrow> MemoryLog \<Rightarrow> log_error + IntegrityReport" where
  "InspectChain ctx l =
     (case ctx 0 of Some err \<Rightarrow> Inl (LogContext err)
      | None \<Rightarrow>
     (case inspect_loop ctx 0 [] l of Inl e \<Rightarrow> Inl e
      | Inr h \<Rightarrow> Inr \<lparr>irEventsChecked = int (length l), irHeadHash = h\<rparr>))"

subsection \<open>The chain\<close>

fun linked :: "string \<Rightarrow> Event list \<Rightarrow> bool" where
  "linked p [] = True"
| "linked p (e # es) = (Verify e p = Inr () \<and> linked (evHash e) es)"

definition head_hash :: "string \<Rightarrow> Event list \<Rightarrow> string" where
  "head_hash p es = (if es = [] then p else evHash (last es))"

lemma linked_snoc: "linked p (es @ [e]) \<longleftrightarrow> linked p es \<and> Verify e (head_hash p es) = Inr ()"
  by (induction es arbitrary: p) (auto simp: head_hash_def)

lemma inspect_loop_linked: "inspect_loop ctx offset p es = Inr h \<Longrightarrow> linked p es \<and> h = head_hash p es"
  by (induction es arbitrary: p offset) (auto simp: head_hash_def split: option.splits sum.splits)

lemma linked_inspect: "linked p es \<Longrightarrow> inspect_loop (\<lambda>_. None) offset p es = Inr (head_hash p es)"
  by (induction es arbitrary: p offset) (auto simp: head_hash_def)

lemma InspectChain_linked:
  "InspectChain ctx l = Inr r \<Longrightarrow> linked [] l \<and> r = \<lparr>irEventsChecked = int (length l), irHeadHash = head_hash [] l\<rparr>"
  using inspect_loop_linked by (auto simp: InspectChain_def split: option.splits sum.splits)

lemma InspectChain_ok:
  "linked [] l \<Longrightarrow> InspectChain (\<lambda>_. None) l = Inr \<lparr>irEventsChecked = int (length l), irHeadHash = head_hash [] l\<rparr>"
  using linked_inspect[of "[]" l 0] by (simp add: InspectChain_def)

lemma truncated_canonical:
  "time_Truncate t microsecond mod second mod 1000 = 0" "time_Truncate (time_Truncate t microsecond) microsecond = time_Truncate t microsecond"
proof -
  have t: "time_Truncate t microsecond mod 1000 = 0" by (simp add: time_Truncate_def microsecond_def minus_mod_eq_mult_div)
  then show "time_Truncate (time_Truncate t microsecond) microsecond = time_Truncate t microsecond"
    by (simp add: time_Truncate_def microsecond_def)
  have "(1000 :: int) dvd second" by (simp add: second_def)
  then show "time_Truncate t microsecond mod second mod 1000 = 0" using t by (simp add: mod_mod_cancel)
qed

lemma hashEvent_nonempty [simp]: "hashEvent e \<noteq> []"
  unfolding hashEvent_def by (metis sha256_hex_length list.size(3) zero_neq_numeral)

lemma hashEvent_hash [simp]: "hashEvent (e\<lparr>evHash := h\<rparr>) = hashEvent e"
  by (simp add: hashEvent_def)

definition occurs :: "time \<Rightarrow> Event \<Rightarrow> time" where
  "occurs now e = time_Truncate (if IsZero (evOccurredAt e) then now else evOccurredAt e) microsecond"

lemma Prepare_verifies:
  assumes "Prepare now i e p = Inr e'" "occurs now e \<noteq> 0"
  shows "Verify e' p = Inr ()"
  using assms truncated_canonical by (auto simp: Prepare_def Let_def Verify_def occurs_def split: if_splits)

subsection \<open>Histories of a log\<close>

type_synonym append_call = "ctx \<times> time \<times> string \<times> Event"

fun apply_append :: "append_call \<Rightarrow> MemoryLog \<Rightarrow> MemoryLog" where
  "apply_append (ctx, now, i, e) l = (case Append ctx now i e l of Inl _ \<Rightarrow> l | Inr l' \<Rightarrow> l')"

fun timed :: "append_call \<Rightarrow> bool" where
  "timed (ctx, now, i, e) \<longleftrightarrow> occurs now e \<noteq> 0"

definition run_appends :: "append_call list \<Rightarrow> MemoryLog \<Rightarrow> MemoryLog" where
  "run_appends calls l = fold apply_append calls l"

definition redacted_log :: "MemoryLog \<Rightarrow> bool" where
  "redacted_log l \<longleftrightarrow> list_all (\<lambda>e. clean (AnyMap (evDetails e))) l"

definition log_ok :: "MemoryLog \<Rightarrow> bool" where
  "log_ok l \<longleftrightarrow> linked [] l \<and> redacted_log l"

lemma clean_Redact: "clean (AnyMap (Redact d))" "Redact (Redact d) = Redact d" "clean (AnyMap d) \<Longrightarrow> Redact d = d"
  using clean_redacted[of "AnyMap d"] redact_clean[of "AnyMap d"] redact_clean[of "redactValue (AnyMap d)"]
  unfolding redactValue_map any_value.inject by blast+

lemma Append_Inr:
  assumes "Append ctx now i e l = Inr l'"
  obtains e' where "Prepare now i e (head_hash [] l) = Inr e'" "l' = l @ [e']"
  using assms by (auto simp: Append_def head_hash_def Let_def split: option.splits sum.splits if_splits)

lemma Prepare_clean: "Prepare now i e p = Inr e' \<Longrightarrow> clean (AnyMap (evDetails e'))"
  using clean_Redact(1) by (auto simp: Prepare_def Let_def simp del: clean.simps split: if_splits)

lemma apply_append_ok:
  assumes "log_ok l" "timed call"
  shows "log_ok (apply_append call l)"
proof -
  obtain ctx now i e where call: "call = (ctx, now, i, e)" by (metis prod_cases4)
  show ?thesis
  proof (cases "Append ctx now i e l")
    case (Inr l')
    then obtain e' where "Prepare now i e (head_hash [] l) = Inr e'" "l' = l @ [e']" by (rule Append_Inr)
    then show ?thesis using assms Prepare_verifies Prepare_clean
      by (auto simp: call Inr log_ok_def linked_snoc redacted_log_def simp del: clean.simps)
  qed (use assms in \<open>simp add: call\<close>)
qed

interpretation audit_history: step_system "\<lambda>l. l = []" "\<lambda>l l'. \<exists>call. timed call \<and> l' = apply_append call l" log_ok
proof (unfold_locales, goal_cases)
  case 1
  then show ?case by (simp add: log_ok_def redacted_log_def)
next
  case 2
  then show ?case using apply_append_ok by blast
qed

lemma run_appends_ok: "list_all timed calls \<Longrightarrow> log_ok l \<Longrightarrow> log_ok (run_appends calls l)"
proof (induction calls arbitrary: l)
  case (Cons c calls)
  have "timed c" using Cons.prems(1) by simp
  then have "log_ok (apply_append c l)" by (intro audit_history.step_inv[OF Cons.prems(2)] exI[of _ c] conjI refl)
  then show ?case using Cons by (simp add: run_appends_def)
qed (simp add: run_appends_def)

lemma run_appends_grows: "\<exists>new. run_appends calls l = l @ new"
proof (induction calls arbitrary: l)
  case (Cons c calls)
  obtain ctx now i e where c: "c = (ctx, now, i, e)" by (metis prod_cases4)
  have "\<exists>new. apply_append c l = l @ new" by (auto simp: c split: sum.splits elim!: Append_Inr)
  then show ?case using Cons[of "apply_append c l"] by (auto simp: run_appends_def)
qed (simp add: run_appends_def)

text \<open>
  The audit log only grows and its chain stays intact. After any calls of \<^verbatim>\<open>Append\<close>, accepted or not, on a log that passed the
  inspection, the earlier records are the same, the chain passes the inspection again, and the
  report gives the number of records and the hash of the newest. The calls have a time that does not
  truncate to the zero time.
\<close>

lemma audit_chain_intact:
  assumes "log_ok l" "list_all timed calls"
  shows "\<exists>new. run_appends calls l = l @ new
    \<and> InspectChain (\<lambda>_. None) (l @ new) = Inr \<lparr>irEventsChecked = int (length (l @ new)), irHeadHash = head_hash [] (l @ new)\<rparr>"
proof -
  obtain new where new: "run_appends calls l = l @ new" using run_appends_grows by blast
  then have "linked [] (l @ new)" using run_appends_ok[OF assms(2,1)] by (simp add: log_ok_def)
  then show ?thesis using new InspectChain_ok by blast
qed

definition w_event :: Event where
  "w_event = \<lparr>evID = [], evOccurredAt = 0, evAction = ''auth.login'', evOutcome = ''denied'', evActorID = [], evSubjectID = [],
     evSourceIP = ''10.0.0.1'', evCorrelationID = [], evDetails = [(''token'', AnyString ''x'')], evPreviousHash = [], evHash = []\<rparr>"

subsection \<open>Tamper evidence\<close>

text \<open>The text whose hash \<^verbatim>\<open>Verify\<close> accepted: that of the event, or that of its old form of the id.\<close>

definition signed_text :: "Event \<Rightarrow> string" where
  "signed_text e =
     (let own = event_text (e\<lparr>evHash := []\<rparr>) in
      if hashEvent e = evHash e then own
      else case legacyUnhyphenatedUUID (evID e) of None \<Rightarrow> own | Some i \<Rightarrow> event_text (e\<lparr>evID := i, evHash := []\<rparr>))"

definition encodable :: "Event \<Rightarrow> bool" where
  "encodable e \<longleftrightarrow> time_RFC3339 (evOccurredAt e) \<noteq> None \<and> any_json (AnyMap (evDetails e)) \<noteq> None"

lemma Verify_signed:
  assumes "Verify e p = Inr ()"
  shows "evPreviousHash e = p" "evHash e = sha256_hex (signed_text e)"
proof -
  show "evPreviousHash e = p" using assms by (simp add: Verify_def)
  have "e\<lparr>evHash := [], evID := i\<rparr> = e\<lparr>evID := i, evHash := []\<rparr>" for i by simp
  then show "evHash e = sha256_hex (signed_text e)"
    using assms by (auto simp: Verify_def signed_text_def hashEvent_def Let_def split: option.splits)
qed

lemma join_last_two: "xs \<noteq> [] \<Longrightarrow> join sep (xs @ [x, y]) = join sep xs @ sep @ x @ sep @ y"
  by (induction sep xs rule: join.induct) auto

lemma json_escape_hex: "list_all lower_hex s \<Longrightarrow> json_escape 0 s = s"
proof (induction s)
  case (Cons c s)
  have c: "of_char c < (128 :: nat)" "json_escape_ascii c = [c]"
    using Cons.prems by (auto simp: lower_hex_def less_eq_char_def json_escape_ascii_def Let_def)
  then show ?case using Cons by simp
qed simp

lemma event_text_suffix:
  assumes "encodable e" "list_all lower_hex (evPreviousHash e)" "evPreviousHash e \<noteq> []"
  shows "\<exists>head tail. event_text (e\<lparr>evHash := []\<rparr>) = head @ evPreviousHash e @ tail \<and> tail = [CHR 0x22] @ '','' @ json_string ''hash'' @ '':'' @ json_string [] @ ''}''"
proof -
  obtain at details where at: "time_RFC3339 (evOccurredAt e) = Some at" "any_json (AnyMap (evDetails e)) = Some details"
    using assms(1) by (auto simp: encodable_def simp del: any_json.simps)
  let ?show = "\<lambda>(k, v). json_string k @ '':'' @ json_Marshal v"
  let ?fs = "map ?show (event_fields e at details)"
  have fs: "?fs \<noteq> []" by (simp add: event_fields_def)
  have "event_text (e\<lparr>evHash := []\<rparr>) = ''{'' @ join '','' (?fs @ [json_string ''previous_hash'' @ '':'' @ json_string (evPreviousHash e),
      json_string ''hash'' @ '':'' @ json_string []]) @ ''}''"
    using at assms(3) by (simp add: event_text_def omit_empty_def event_fields_def del: any_json.simps)
  also have "\<dots> = (''{'' @ join '','' ?fs @ '','' @ json_string ''previous_hash'' @ '':'' @ [CHR 0x22]) @ evPreviousHash e
      @ [CHR 0x22] @ '','' @ json_string ''hash'' @ '':'' @ json_string [] @ ''}''"
    unfolding join_last_two[OF fs] json_string_def[of "evPreviousHash e"] json_escape_hex[OF assms(2)] append_assoc ..
  finally show ?thesis by blast
qed

lemma legacy_encodable: "encodable (e\<lparr>evID := i\<rparr>) = encodable e"
  by (simp add: encodable_def)

lemma signed_text_suffix:
  assumes "encodable e" "list_all lower_hex (evPreviousHash e)" "evPreviousHash e \<noteq> []"
  shows "\<exists>head. signed_text e = head @ evPreviousHash e @ [CHR 0x22] @ '','' @ json_string ''hash'' @ '':'' @ json_string [] @ ''}''"
  using event_text_suffix[OF assms] event_text_suffix[of "e\<lparr>evID := i\<rparr>" for i] assms
  by (auto simp: signed_text_def Let_def legacy_encodable split: option.splits)

text \<open>The text that is hashed determines the hash of the predecessor.\<close>

lemma signed_text_previous:
  assumes "encodable e" "encodable f" "signed_text e = signed_text f" "evPreviousHash e = sha256_hex x" "evPreviousHash f = sha256_hex y"
  shows "evPreviousHash e = evPreviousHash f"
proof -
  let ?tail = "[CHR 0x22] @ '','' @ json_string ''hash'' @ '':'' @ json_string [] @ ''}''"
  have hex: "list_all lower_hex (sha256_hex z)" "sha256_hex z \<noteq> []" for z
    using sha256_hex_chars sha256_hex_length[of z] by (auto simp: list_all_iff)
  obtain a where a: "signed_text e = a @ sha256_hex x @ ?tail"
    using signed_text_suffix[OF assms(1)] hex unfolding assms(4) by blast
  obtain b where b: "signed_text f = b @ sha256_hex y @ ?tail"
    using signed_text_suffix[OF assms(2)] hex unfolding assms(5) by blast
  have "a @ sha256_hex x = b @ sha256_hex y" using a b assms(3) by simp
  then show ?thesis unfolding assms(4,5) by (simp add: append_eq_append_conv sha256_hex_length)
qed

definition same_records :: "MemoryLog \<Rightarrow> MemoryLog \<Rightarrow> bool" where
  "same_records l l' \<longleftrightarrow> map signed_text l = map signed_text l' \<and> map evHash l = map evHash l'"

lemma linked_same:
  assumes "linked [] l" "linked [] l'" "length l = length l'" "head_hash [] l = head_hash [] l'"
    and "list_all encodable l" "list_all encodable l'"
  shows "same_records l l' \<or> (\<exists>i < length l. sha256_collision (signed_text (l ! i)) (signed_text (l' ! i)))"
  using assms
proof (induction l arbitrary: l' rule: rev_induct)
  case (snoc e l)
  obtain f m where l': "l' = m @ [f]" using snoc.prems(3) by (metis length_append_singleton length_0_conv nat.distinct(1) rev_exhaust)
  have len: "length l = length m" using snoc.prems(3) by (simp add: l')
  have e: "linked [] l" "Verify e (head_hash [] l) = Inr ()" and f: "linked [] m" "Verify f (head_hash [] m) = Inr ()"
    using snoc.prems(1,2) by (simp_all add: l' linked_snoc)
  have hash: "evHash e = evHash f" using snoc.prems(4) by (simp add: l' head_hash_def)
  show ?case
  proof (cases "signed_text e = signed_text f")
    case False
    then have "sha256_collision (signed_text e) (signed_text f)"
      using hash Verify_signed(2)[OF e(2)] Verify_signed(2)[OF f(2)] by (simp add: sha256_collision_def)
    then have "sha256_collision (signed_text ((l @ [e]) ! length l)) (signed_text (l' ! length l))"
      unfolding l' using len by (simp add: nth_append)
    then show ?thesis by (metis length_append_singleton lessI)
  next
    case True
    have "head_hash [] l = head_hash [] m"
    proof (cases "l = []")
      case False
      then have "\<exists>x y. head_hash [] l = sha256_hex x \<and> head_hash [] m = sha256_hex y"
        using e(1) f(1) len Verify_signed(2) by (cases l rule: rev_cases; cases m rule: rev_cases) (auto simp: head_hash_def linked_snoc)
      then show ?thesis
        using signed_text_previous[OF _ _ True] snoc.prems(5,6) Verify_signed(1)[OF e(2)] Verify_signed(1)[OF f(2)] by (auto simp: l')
    qed (use len in \<open>simp add: head_hash_def\<close>)
    then have "same_records l m \<or> (\<exists>i < length l. sha256_collision (signed_text (l ! i)) (signed_text (m ! i)))"
      using snoc.IH[of m] e(1) f(1) len snoc.prems(5,6) by (simp add: l')
    then show ?thesis
    proof
      assume "same_records l m"
      then show ?thesis using True hash by (simp add: l' same_records_def)
    next
      assume "\<exists>i < length l. sha256_collision (signed_text (l ! i)) (signed_text (m ! i))"
      then obtain i where "i < length l" "sha256_collision (signed_text ((l @ [e]) ! i)) (signed_text (l' ! i))"
        using len by (auto simp: l' nth_append)
      then show ?thesis by (metis length_append_singleton less_SucI)
    qed
  qed
qed (simp add: same_records_def)


text \<open>Calls whose event can be encoded keep a log encodable.\<close>

fun encodable_call :: "append_call \<Rightarrow> bool" where
  "encodable_call (ctx, now, i, e) \<longleftrightarrow> time_RFC3339 (occurs now e) \<noteq> None \<and> any_json (AnyMap (Redact (evDetails e))) \<noteq> None"

lemma run_appends_encodable:
  "list_all encodable_call calls \<Longrightarrow> list_all encodable l \<Longrightarrow> list_all encodable (run_appends calls l)"
proof (induction calls arbitrary: l)
  case (Cons c calls)
  obtain ctx now i e where c: "c = (ctx, now, i, e)" by (metis prod_cases4)
  have "encodable e'" if "Prepare now i e p = Inr e'" for p e'
    using that Cons.prems(1) by (auto simp: c Prepare_def Let_def encodable_def occurs_def simp del: any_json.simps split: if_splits)
  then have "list_all encodable (apply_append c l)"
    using Cons.prems(2) by (auto simp: c split: sum.splits elim!: Append_Inr)
  then show ?case using Cons by (simp add: run_appends_def)
qed (simp add: run_appends_def)

definition w_log :: MemoryLog where
  "w_log = run_appends [(None, 2000000, ''a'', w_event), (None, 4000000, ''c'', w_event)] []"

lemma w_redacted: "Redact (evDetails w_event) = [(''token'', AnyString ''[REDACTED]'')]"
  by code_simp

lemma w_times: "time_RFC3339 (occurs 2000000 w_event) \<noteq> None" "time_RFC3339 (occurs 4000000 w_event) \<noteq> None"
  using small_time[of 2000000] small_time[of 4000000]
  by (auto simp: occurs_def w_event_def time_Truncate_def microsecond_def second_def)


subsection \<open>Reading\<close>

definition selected :: "Query \<Rightarrow> int \<times> Event \<Rightarrow> bool" where
  "selected q r \<longleftrightarrow> \<not> (auBeforeSequenceID q > 0 \<and> fst r \<ge> auBeforeSequenceID q) \<and> queryMatches (snd r) q"

definition entry_of :: "int \<times> Event \<Rightarrow> Entry" where
  "entry_of r = \<lparr>enSequenceID = fst r, enEvent = (snd r)\<lparr>evDetails := Redact (evDetails (snd r))\<rparr>\<rparr>"

lemma read_loop_take:
  assumes "0 \<le> auLimit q" "length acc \<le> nat (auLimit q) + 1"
  shows "read_loop q acc rs = take (nat (auLimit q) + 1) (acc @ map entry_of (filter (selected q) rs))"
  using assms(2)
proof (induction rs arbitrary: acc)
  case (Cons r rs)
  obtain i e where r: "r = (i, e)" by force
  show ?case
  proof (cases "int (length acc) \<le> auLimit q")
    case True
    then have len: "length acc \<le> nat (auLimit q)" by simp
    have "read_loop q acc (r # rs) = read_loop q (if selected q r then acc @ [entry_of r] else acc) rs"
      using True by (auto simp: r selected_def entry_of_def)
    then show ?thesis using Cons.IH[of "acc @ [entry_of r]"] Cons.IH[of acc] len by (cases "selected q r") simp_all
  next
    case False
    then have "length acc = nat (auLimit q) + 1" using Cons.prems assms(1) by linarith
    then show ?thesis using False by (simp add: r)
  qed
qed simp

lemma entry_of_clean:
  assumes "redacted_log l" "r \<in> set (numbered l)"
  shows "entry_of r = \<lparr>enSequenceID = fst r, enEvent = snd r\<rparr>"
proof -
  have "snd r \<in> set l" using assms(2) by (auto simp: numbered_def)
  then have "clean (AnyMap (evDetails (snd r)))" using assms(1) by (auto simp: redacted_log_def list_all_iff simp del: clean.simps)
  then have "Redact (evDetails (snd r)) = evDetails (snd r)" by (rule clean_Redact(3))
  then show ?thesis by (simp add: entry_of_def)
qed

text \<open>
  C39: Reading the audit log is exact. A read with an accepted query of a log the program wrote returns the newest matching records before the
  cursor, newest first, up to the limit, exactly as they were stored and hashed, under their sequence
  ids, and says whether there are more.
\<close>

theorem audit_read_exact:
  assumes "list_all timed calls" "l = run_appends calls []" "NormalizeQuery query = Inr q"
    and "found = map (\<lambda>r. \<lparr>enSequenceID = fst r, enEvent = snd r\<rparr>) (filter (selected q) (numbered l))"
  shows "Log_Read None query l = Inr \<lparr>pgEntries = take (nat (auLimit q)) found, pgHasMore = (nat (auLimit q) < length found)\<rparr>
    \<and> 1 \<le> auLimit q \<and> auLimit q \<le> 100"
proof -
  have limit: "1 \<le> auLimit q" "auLimit q \<le> 100"
    using assms(3) by (auto simp: NormalizeQuery_def Let_def early_return_Inr MaxReadLimit_def)
  have "redacted_log l" using run_appends_ok[OF assms(1), of "[]"] assms(2) by (simp add: log_ok_def redacted_log_def)
  note stored = entry_of_clean[OF this]
  have "map entry_of (filter (selected q) (numbered l)) = found"
    unfolding assms(4) by (rule map_cong[OF refl]) (simp add: stored)
  then have "read_loop q [] (numbered l) = take (nat (auLimit q) + 1) found"
    using read_loop_take[of q "[]" "numbered l"] limit by simp
  then show ?thesis using limit assms(3) by (auto simp: Log_Read_def Let_def min_def)
qed

definition w_read :: Query where
  "w_read = \<lparr>auLimit = 1, auBeforeSequenceID = 0, auAction = ''auth.login'', auOutcome = [], auActorID = [], auSubjectID = []\<rparr>"

theorem audit_read_exact_witness:
  "\<exists>page. Log_Read None w_read w_log = Inr page \<and> length (pgEntries page) = 1 \<and> pgHasMore page"
proof -
  let ?found = "map (\<lambda>r. \<lparr>enSequenceID = fst r, enEvent = snd r\<rparr>) (filter (selected w_read) (numbered w_log))"
  have normal: "NormalizeQuery w_read = Inr w_read"
    by (simp add: NormalizeQuery_def w_read_def MaxReadLimit_def Let_def trim_defs require_def)
  have timed: "list_all timed [(None, 2000000, ''a'', w_event), (None, 4000000, ''c'', w_event)]"
    by (simp add: occurs_def w_event_def time_Truncate_def microsecond_def)
  have two: "length w_log = 2" and "list_all (\<lambda>e. evAction e = ''auth.login'') w_log"
    by (simp_all add: w_log_def run_appends_def Append_def Prepare_def Let_def w_event_def trim_defs)
  then have "selected w_read r" if "r \<in> set (numbered w_log)" for r
    using that by (auto simp: selected_def queryMatches_def w_read_def numbered_def list_all_iff)
  then have "length ?found = 2" using two by (simp add: filter_id_conv[THEN iffD2] numbered_def)
  then show ?thesis using audit_read_exact[OF timed w_log_def normal refl] by (auto simp: w_read_def)
qed

end
