(* ===== verification/Auth_Service.thy ===== *)
theory Auth_Service
  imports Auth_Store Audit_Log
begin

text \<open>
  Package \<^verbatim>\<open>internal/identity/auth\<close>, files \<^verbatim>\<open>service.go\<close> and \<^verbatim>\<open>session_policy.go\<close>: login, authentication,
  password change and the handling of sessions, on the memory store. A request makes several calls
  to the shared state, and other requests run between them: \<open>env k\<close> is what they do before
  the \<open>k\<close>-th call of this one. The sequential behaviour is \<open>env = (\<lambda>_ s. s)\<close>.

  The password hasher, the audit logger, the clock and the random source are parameters: \<open>scVerify\<close>
  and \<open>scHash\<close>; \<open>scAudit\<close>, which appends to a log of any type and says whether it succeeded; the time
  \<open>now\<close>; and the random bytes of the token and the session id of a login.
\<close>

subsection \<open>Tokens\<close>

definition b64_alphabet :: string where
  "b64_alphabet = ''ABCDEFGHIJKLMNOPQRSTUVWXYZabcdefghijklmnopqrstuvwxyz0123456789-_''"

definition b64_char :: "nat \<Rightarrow> char" where
  "b64_char n = b64_alphabet ! (n mod 64)"

text \<open>\<^verbatim>\<open>base64.RawURLEncoding\<close>: encoding of a byte list, and the length of what a string decodes to.\<close>

fun b64_encode :: "nat list \<Rightarrow> string" where
  "b64_encode (a # b # c # r) =
     [b64_char (a div 4), b64_char (a mod 4 * 16 + b div 16), b64_char (b mod 16 * 4 + c div 64), b64_char (c mod 64)]
     @ b64_encode r"
| "b64_encode [a, b] = [b64_char (a div 4), b64_char (a mod 4 * 16 + b div 16), b64_char (b mod 16 * 4)]"
| "b64_encode [a] = [b64_char (a div 4), b64_char (a mod 4 * 16)]"
| "b64_encode [] = []"

definition b64_decoded_length :: "string \<Rightarrow> nat option" where
  "b64_decoded_length s =
     (let cs = filter (\<lambda>c. c \<noteq> CHR 0x0A \<and> c \<noteq> CHR 0x0D) s in
      if list_all (\<lambda>c. c \<in> set b64_alphabet) cs \<and> length cs mod 4 \<noteq> 1 then Some (length cs * 6 div 8) else None)"

definition digestToken :: "string \<Rightarrow> string" where
  "digestToken token = sha256_hex token"

definition validatedTokenDigest :: "string \<Rightarrow> string option" where
  "validatedTokenDigest token0 =
     (let token = TrimSpace token0 in if b64_decoded_length token \<noteq> Some 32 then None else Some (digestToken token))"

definition validSessionID :: "string \<Rightarrow> bool" where
  "validSessionID v0 =
     (let v = TrimSpace v0 in
      if length v = 36 \<and> (v ! 8 \<noteq> CHR ''-'' \<or> v ! 13 \<noteq> CHR ''-'' \<or> v ! 18 \<noteq> CHR ''-'' \<or> v ! 23 \<noteq> CHR ''-'') then False
      else (let w = (if length v = 36 then filter (\<lambda>c. c \<noteq> CHR ''-'') v else v) in
        length w = 32 \<and> list_all hex_value w))"

subsection \<open>Service\<close>

record 'l Service =
  scVerify :: "string \<Rightarrow> string \<Rightarrow> string + bool"
  scHash :: "string \<Rightarrow> string + string"
  scAudit :: "Event \<Rightarrow> 'l \<Rightarrow> bool \<times> 'l"
  scLower :: "string \<Rightarrow> string"
  scIP :: "string \<Rightarrow> string option"
  scDummyHash :: string
  scSessionTTL :: duration
  scSessionIdleTimeout :: duration

record 'l auth_state =
  asStore :: MemoryStore
  asProtector :: LoginProtector
  asLog :: 'l

type_synonym 'l env = "nat \<Rightarrow> 'l auth_state \<Rightarrow> 'l auth_state"

definition DefaultSessionTTL :: duration where "DefaultSessionTTL = 8 * hour"
definition DefaultSessionIdleTimeout :: duration where "DefaultSessionIdleTimeout = 2 * hour"

text \<open>
  \<^verbatim>\<open>NewService\<close>: \<open>deps\<close> says that no store and no logger is nil, \<open>dummySecret\<close> is the random token, \<open>None\<close>
  when the source fails, and an option is the timeout of \<^verbatim>\<open>WithSessionIdleTimeout\<close>, \<open>None\<close> when it is nil.
\<close>

definition NewService ::
  "bool \<Rightarrow> (string \<Rightarrow> string \<Rightarrow> string + bool) \<Rightarrow> (string \<Rightarrow> string + string) \<Rightarrow> (Event \<Rightarrow> 'l \<Rightarrow> bool \<times> 'l) \<Rightarrow>
   (string \<Rightarrow> string) \<Rightarrow> (string \<Rightarrow> string option) \<Rightarrow> duration \<Rightarrow> string option \<Rightarrow> duration option list \<Rightarrow>
   string + 'l Service \<times> LoginProtector" where
  "NewService deps verify hash log lower ip sessionTTL0 dummySecret options =
     (if \<not> deps then Inl ''auth stores and audit logger are required''
      else let sessionTTL = (if sessionTTL0 = 0 then DefaultSessionTTL else sessionTTL0) in
      if sessionTTL < minute \<or> sessionTTL > 7 * (24 * hour) then Inl ''session TTL outside allowed range''
      else let idleTimeout = (if DefaultSessionIdleTimeout > sessionTTL then sessionTTL else DefaultSessionIdleTimeout) in
      case dummySecret of None \<Rightarrow> Inl ''generate secure random token''
      | Some secret \<Rightarrow>
     (case hash secret of Inl e \<Rightarrow> Inl (''prepare timing equalizer: '' @ e)
      | Inr dummyHash \<Rightarrow>
        (let service = \<lparr>scVerify = verify, scHash = hash, scAudit = log, scLower = lower, scIP = ip, scDummyHash = dummyHash,
               scSessionTTL = sessionTTL, scSessionIdleTimeout = idleTimeout\<rparr>;
             configured = fold (\<lambda>opt svc. case opt of None \<Rightarrow> svc | Some timeout \<Rightarrow> svc\<lparr>scSessionIdleTimeout := timeout\<rparr>)
               options service in
         if scSessionIdleTimeout configured < minute \<or> scSessionIdleTimeout configured > scSessionTTL configured
         then Inl ''session idle timeout outside allowed range''
         else Inr (configured, newLoginProtector DefaultLoginProtectionPolicy))))"

definition audit_append :: "'l Service \<Rightarrow> Event \<Rightarrow> 'l auth_state \<Rightarrow> bool \<times> 'l auth_state" where
  "audit_append svc ev s = (let (ok, log) = scAudit svc ev (asLog s) in (ok, s\<lparr>asLog := log\<rparr>))"

definition audit_event :: "string \<Rightarrow> string \<Rightarrow> string \<Rightarrow> string \<Rightarrow> string \<Rightarrow> (string \<times> any_value) list \<Rightarrow> Event" where
  "audit_event action outcome actor subject ip details =
     \<lparr>evID = [], evOccurredAt = 0, evAction = action, evOutcome = outcome, evActorID = actor, evSubjectID = subject,
      evSourceIP = ip, evCorrelationID = [], evDetails = details, evPreviousHash = [], evHash = []\<rparr>"

definition truncate_text :: "string \<Rightarrow> nat \<Rightarrow> string" where
  "truncate_text v n = (if length v \<le> n then v else take n v)"

subsection \<open>Login\<close>

record LoginInput =
  liUsername :: string
  liPassword :: string
  liSourceIP :: string
  liUserAgent :: string

record IssuedSession =
  isToken :: string
  isSession :: SessionView
  isIdentity :: Identity
  isPasswordChangeRequired :: bool

definition login_session :: "'l Service \<Rightarrow> User \<Rightarrow> string \<Rightarrow> string \<Rightarrow> time \<Rightarrow> LoginInput \<Rightarrow> Session" where
  "login_session svc user token sessionID now input =
     \<lparr>ssID = sessionID, ssUserID = usID user, ssTokenDigest = digestToken token,
      ssCredentialVersion = usPasswordChangedAt user, ssCreatedAt = now, ssLastActivityAt = now,
      ssExpiresAt = time_Add now (scSessionTTL svc), ssRevokedAt = None, ssSourceIP = liSourceIP input,
      ssUserAgent = truncate_text (liUserAgent input) 512\<rparr>"

text \<open>The part of \<^verbatim>\<open>Login\<close> after the password was accepted; \<open>tokenBytes\<close> is \<open>None\<close> when the random source fails.\<close>

definition issue_session ::
  "'l Service \<Rightarrow> 'l env \<Rightarrow> nat list option \<Rightarrow> string \<Rightarrow> time \<Rightarrow> LoginInput \<Rightarrow> User \<Rightarrow> 'l auth_state \<Rightarrow>
   (auth_error + IssuedSession) \<times> 'l auth_state" where
  "issue_session svc env tokenBytes sessionID now input user s =
     (case tokenBytes of
        None \<Rightarrow> (Inl (AuthOther ''generate secure random token''), s)
      | Some bs \<Rightarrow>
        (let token = b64_encode bs; session = login_session svc user token sessionID now input; s1 = env 3 s in
         case CreateSession session (usPasswordHash user) (asStore s1) of
           Inl e \<Rightarrow> (Inl (AuthWrapped ''create session'' e), s1)
         | Inr st \<Rightarrow>
           (let (ok, s2) = audit_append svc (audit_event ''auth.login'' ''success'' (usID user) [] (liSourceIP input)
                  [(''session_id'', AnyString (ssID session))]) (env 4 (s1\<lparr>asStore := st\<rparr>));
                s3 = env 5 s2 in
            if \<not> ok
            then (Inl ErrAuditUnavailable,
                  s3\<lparr>asStore := accepted_store (asStore s3) (RevokeSessionByDigest (ssTokenDigest session) now (asStore s3))\<rparr>)
            else (Inr \<lparr>isToken = token, isSession = Session_View session, isIdentity = User_Identity user,
                       isPasswordChangeRequired = usPasswordChangeRequired user\<rparr>,
                  s3\<lparr>asStore := accepted_store (asStore s3) (SetLastLogin (usID user) now (asStore s3))\<rparr>))))"

definition login_failed ::
  "'l Service \<Rightarrow> 'l env \<Rightarrow> string \<Rightarrow> time \<Rightarrow> LoginInput \<Rightarrow> 'l auth_state \<Rightarrow> (auth_error + IssuedSession) \<times> 'l auth_state" where
  "login_failed svc env username now input s =
     (let (blocked, pr) = RecordFailure (scLower svc) (scIP svc) username (liSourceIP input) now (asProtector s);
          details = [(''username'', AnyString username), (''reason'', AnyString ''invalid_credentials'')]
            @ (if blocked then [(''login_protection'', AnyString ''blocked'')] else []) in
      (Inl ErrInvalidCredentials,
       snd (audit_append svc (audit_event ''auth.login'' ''denied'' [] [] (liSourceIP input) details) (env 3 (s\<lparr>asProtector := pr\<rparr>)))))"

definition Login ::
  "'l Service \<Rightarrow> 'l env \<Rightarrow> nat list option \<Rightarrow> string \<Rightarrow> time \<Rightarrow> LoginInput \<Rightarrow> 'l auth_state \<Rightarrow>
   (auth_error + IssuedSession) \<times> 'l auth_state" where
  "Login svc env tokenBytes sessionID now input s =
     (let username = normalizeUsername (scLower svc) (liUsername input);
          s0 = env 0 s;
          (blocked, pr) = Blocked (scLower svc) (scIP svc) username (liSourceIP input) now (asProtector s0);
          s1 = s0\<lparr>asProtector := pr\<rparr> in
      if blocked
      then (Inl ErrInvalidCredentials, snd (audit_append svc (audit_event ''auth.login'' ''denied'' [] [] (liSourceIP input)
              [(''username'', AnyString username), (''reason'', AnyString ''invalid_credentials''),
               (''login_protection'', AnyString ''blocked'')]) (env 1 s1)))
      else
       (let s2 = env 1 s1;
            found = FindUserByUsername (scLower svc) username (asStore s2);
            hash = (case found of Inl _ \<Rightarrow> scDummyHash svc | Inr u \<Rightarrow> usPasswordHash u);
            verified = scVerify svc (liPassword input) hash;
            s3 = env 2 s2 in
        case found of
          Inr user \<Rightarrow>
            (if verified = Inr True \<and> usEnabled user
             then issue_session svc env tokenBytes sessionID now input user
               (s3\<lparr>asProtector := RecordSuccess (scLower svc) username (asProtector s3)\<rparr>)
             else login_failed svc env username now input s3)
        | Inl _ \<Rightarrow> login_failed svc env username now input s3))"

subsection \<open>Authentication\<close>

record AuthenticatedSession =
  anSession :: SessionView
  anIdentity :: Identity
  anPasswordChangeRequired :: bool

definition Authenticate ::
  "'l Service \<Rightarrow> 'l env \<Rightarrow> string \<Rightarrow> time \<Rightarrow> 'l auth_state \<Rightarrow> (auth_error + AuthenticatedSession) \<times> 'l auth_state" where
  "Authenticate svc env token now s =
     (case validatedTokenDigest token of
        None \<Rightarrow> (Inl ErrUnauthenticated, s)
      | Some digest \<Rightarrow>
        (let s0 = env 0 s in
         case FindSessionByDigest digest (asStore s0) of
           Inl _ \<Rightarrow> (Inl ErrUnauthenticated, s0)
         | Inr session \<Rightarrow>
           (if \<not> activeAt session now (scSessionIdleTimeout svc) then (Inl ErrUnauthenticated, s0)
            else (let s1 = env 1 s0 in
              case FindUserByID (ssUserID session) (asStore s1) of
                Inl _ \<Rightarrow> (Inl ErrUnauthenticated, s1)
              | Inr user \<Rightarrow>
                (if \<not> usEnabled user then (Inl ErrUnauthenticated, s1)
                 else if ssCredentialVersion session \<noteq> usPasswordChangedAt user then (Inl ErrUnauthenticated, s1)
                 else (let s2 = env 2 s1 in
                   case TouchSessionByDigest digest now (asStore s2) of
                     Inl _ \<Rightarrow> (Inl ErrUnauthenticated, s2)
                   | Inr st \<Rightarrow> (Inr \<lparr>anSession = Session_View (session\<lparr>ssLastActivityAt := now\<rparr>), anIdentity = User_Identity user,
                         anPasswordChangeRequired = usPasswordChangeRequired user\<rparr>, s2\<lparr>asStore := st\<rparr>)))))))"

definition logout_audited :: "'l Service \<Rightarrow> Session \<Rightarrow> string \<Rightarrow> 'l auth_state \<Rightarrow> (auth_error + unit) \<times> 'l auth_state" where
  "logout_audited svc session sourceIP s =
     (let (ok, s') = audit_append svc (audit_event ''auth.logout'' ''success'' (ssUserID session) [] sourceIP
            [(''session_id'', AnyString (ssID session))]) s in
      if \<not> ok then (Inl ErrAuditUnavailable, s') else (Inr (), s'))"

definition Logout :: "'l Service \<Rightarrow> 'l env \<Rightarrow> string \<Rightarrow> string \<Rightarrow> time \<Rightarrow> 'l auth_state \<Rightarrow> (auth_error + unit) \<times> 'l auth_state" where
  "Logout svc env token sourceIP now s =
     (case validatedTokenDigest token of
        None \<Rightarrow> (Inr (), s)
      | Some digest \<Rightarrow>
        (let s0 = env 0 s in
         case FindSessionByDigest digest (asStore s0) of
           Inl _ \<Rightarrow> (Inr (), s0)
         | Inr session \<Rightarrow>
           (let s1 = env 1 s0; revoked = RevokeSessionByDigest digest now (asStore s1) in
            case revoked of
              Inl e \<Rightarrow> if e \<noteq> ErrNotFound then (Inl e, s1)
                       else logout_audited svc session sourceIP (env 2 s1)
            | Inr st \<Rightarrow> logout_audited svc session sourceIP (env 2 (s1\<lparr>asStore := st\<rparr>)))))"

subsection \<open>Password change\<close>

record ChangePasswordInput =
  cpUserID :: string
  cpCurrentPassword :: string
  cpNewPassword :: string
  cpSourceIP :: string

definition change_denied :: "'l Service \<Rightarrow> User \<Rightarrow> ChangePasswordInput \<Rightarrow> string \<Rightarrow> 'l auth_state \<Rightarrow> 'l auth_state" where
  "change_denied svc user input reason s =
     snd (audit_append svc (audit_event ''auth.password_change'' ''denied'' (usID user) [] (cpSourceIP input)
       [(''reason'', AnyString reason)]) s)"

definition ChangePassword ::
  "'l Service \<Rightarrow> 'l env \<Rightarrow> time \<Rightarrow> ChangePasswordInput \<Rightarrow> 'l auth_state \<Rightarrow> (auth_error + unit) \<times> 'l auth_state" where
  "ChangePassword svc env now input s =
     (let s0 = env 0 s in
      case FindUserByID (cpUserID input) (asStore s0) of
        Inl _ \<Rightarrow> (Inl ErrUnauthenticated, s0)
      | Inr user \<Rightarrow>
        (if \<not> usEnabled user then (Inl ErrUnauthenticated, s0)
         else if scVerify svc (cpCurrentPassword input) (usPasswordHash user) \<noteq> Inr True
         then (Inl ErrInvalidCurrentPassword, change_denied svc user input ''invalid_current_password'' (env 1 s0))
         else case scVerify svc (cpNewPassword input) (usPasswordHash user) of
           Inl e \<Rightarrow> (Inl (AuthOther (''verify password reuse: '' @ e)), s0)
         | Inr True \<Rightarrow> (Inl (ErrPasswordPolicy []), change_denied svc user input ''password_reuse'' (env 1 s0))
         | Inr False \<Rightarrow>
           (case scHash svc (cpNewPassword input) of
              Inl e \<Rightarrow> (Inl (ErrPasswordPolicy e), change_denied svc user input ''password_policy'' (env 1 s0))
            | Inr newHash \<Rightarrow>
              (let s1 = env 1 s0 in
               case ChangePasswordAndRevokeSessions (usID user) (usPasswordHash user) newHash now (asStore s1) of
                 Inl e \<Rightarrow> (Inl (if e = ErrConflict then ErrConflict else AuthWrapped ''change password'' e), s1)
               | Inr st \<Rightarrow>
                 (let (ok, s2) = audit_append svc (audit_event ''auth.password_change'' ''success'' (usID user) []
                        (cpSourceIP input) []) (env 2 (s1\<lparr>asStore := st\<rparr>)) in
                  if \<not> ok then (Inl ErrAuditUnavailable, s2) else (Inr (), s2))))))"

subsection \<open>Session inventory\<close>

record ListSessionsInput =
  lsUserID :: string
  lsCurrentSessionID :: string
  lsSourceIP :: string

definition ListSessions ::
  "'l Service \<Rightarrow> 'l env \<Rightarrow> time \<Rightarrow> ListSessionsInput \<Rightarrow> 'l auth_state \<Rightarrow> (auth_error + SessionSecurityView list) \<times> 'l auth_state" where
  "ListSessions svc env now input s =
     (let s0 = env 0 s in
      case FindUserByID (lsUserID input) (asStore s0) of
        Inl _ \<Rightarrow> (Inl ErrUnauthenticated, s0)
      | Inr user \<Rightarrow>
        (if \<not> usEnabled user then (Inl ErrUnauthenticated, s0)
         else (let s1 = env 1 s0;
                   views = map (\<lambda>x. SecurityView x (lsCurrentSessionID input) (scSessionIdleTimeout svc))
                     (filter (\<lambda>x. \<not> (\<not> activeAt x now (scSessionIdleTimeout svc) \<or> ssCredentialVersion x \<noteq> usPasswordChangedAt user))
                       (ListActiveSessionsForUser (usID user) now (asStore s1)));
                   (ok, s2) = audit_append svc (audit_event ''auth.sessions_list'' ''success'' (usID user) (usID user)
                     (lsSourceIP input) [(''active_sessions'', AnyOther (Some (JInt (int (length views)))))]) (env 2 s1) in
           if \<not> ok then (Inl ErrAuditUnavailable, s2) else (Inr views, s2))))"

record RevokeSessionInput =
  riUserID :: string
  riSessionID :: string
  riCurrentSessionID :: string
  riSourceIP :: string

record RevokeSessionResult =
  rrSessionID :: string
  rrCurrentSessionRevoked :: bool

definition revoke_event :: "User \<Rightarrow> string \<Rightarrow> RevokeSessionInput \<Rightarrow> (string \<times> any_value) list \<Rightarrow> Event" where
  "revoke_event user outcome input details =
     audit_event ''auth.session_revoke'' outcome (usID user) (usID user) (riSourceIP input) details"

text \<open>\<^verbatim>\<open>RevokeSession\<close> returns its result together with the error when only the last audit entry fails.\<close>

definition RevokeSession ::
  "'l Service \<Rightarrow> 'l env \<Rightarrow> time \<Rightarrow> RevokeSessionInput \<Rightarrow> 'l auth_state \<Rightarrow>
   (auth_error option \<times> RevokeSessionResult option) \<times> 'l auth_state" where
  "RevokeSession svc env now input s =
     (let s0 = env 0 s in
      case FindUserByID (riUserID input) (asStore s0) of
        Inl _ \<Rightarrow> ((Some ErrUnauthenticated, None), s0)
      | Inr user \<Rightarrow>
        (if \<not> usEnabled user then ((Some ErrUnauthenticated, None), s0)
         else if \<not> validSessionID (riSessionID input) then ((Some ErrNotFound, None), s0)
         else (let s1 = env 1 s0 in
           case FindSessionForUserByID (usID user) (riSessionID input) (asStore s1) of
             Inl _ \<Rightarrow> ((Some ErrNotFound, None), s1)
           | Inr target \<Rightarrow>
             (if \<not> activeAt target now (scSessionIdleTimeout svc) \<or> ssCredentialVersion target \<noteq> usPasswordChangedAt user
              then ((Some ErrNotFound, None), s1)
              else
               (let current = (ssID target = riCurrentSessionID input);
                    details = [(''session_id'', AnyString (ssID target)), (''current_session'', AnyOther (Some (JBool current)))];
                    (ok, s2) = audit_append svc (revoke_event user ''requested'' input details) (env 2 s1) in
                if \<not> ok then ((Some ErrAuditUnavailable, None), s2)
                else (let s3 = env 3 s2 in
                  case RevokeSessionForUserByID (usID user) (ssID target) now (asStore s3) of
                    Inl e \<Rightarrow> ((Some (if e = ErrNotFound then ErrNotFound else AuthWrapped ''revoke session'' e), None),
                      snd (audit_append svc (revoke_event user ''failed'' input
                        [(''session_id'', AnyString (ssID target)), (''reason'', AnyString ''session_not_active'')]) (env 4 s3)))
                  | Inr st \<Rightarrow>
                    (let (ok2, s4) = audit_append svc (revoke_event user ''success'' input details) (env 4 (s3\<lparr>asStore := st\<rparr>));
                         result = \<lparr>rrSessionID = ssID target, rrCurrentSessionRevoked = current\<rparr> in
                     ((if \<not> ok2 then Some ErrAuditUnavailable else None, Some result), s4))))))))"

record RevokeAllSessionsInput =
  raUserID :: string
  raSourceIP :: string

text \<open>The count of \<^verbatim>\<open>RevokeAllSessions\<close> is returned also with the error of the last audit entry; the memory store never fails.\<close>

definition RevokeAllSessions ::
  "'l Service \<Rightarrow> 'l env \<Rightarrow> time \<Rightarrow> RevokeAllSessionsInput \<Rightarrow> 'l auth_state \<Rightarrow> (auth_error option \<times> int) \<times> 'l auth_state" where
  "RevokeAllSessions svc env now input s =
     (let s0 = env 0 s in
      case FindUserByID (raUserID input) (asStore s0) of
        Inl _ \<Rightarrow> ((Some ErrUnauthenticated, 0), s0)
      | Inr user \<Rightarrow>
        (if \<not> usEnabled user then ((Some ErrUnauthenticated, 0), s0)
         else (let event = (\<lambda>outcome. audit_event ''auth.sessions_revoke_all'' outcome (usID user) (usID user) (raSourceIP input));
                   (ok, s1) = audit_append svc (event ''requested'' []) (env 1 s0) in
           if \<not> ok then ((Some ErrAuditUnavailable, 0), s1)
           else (let s2 = env 2 s1; (count, st) = RevokeSessionsForUser (usID user) now (asStore s2);
                     (ok2, s3) = audit_append svc (event ''success'' [(''revoked_sessions'', AnyOther (Some (JInt count)))])
                       (env 3 (s2\<lparr>asStore := st\<rparr>)) in
             ((if \<not> ok2 then Some ErrAuditUnavailable else None, count), s3)))))"

record SessionSecurityPolicyView =
  spAbsoluteTTLSeconds :: int
  spIdleTimeoutSeconds :: int
  spActivityRefreshesIdleDeadline :: bool
  spActivityExtendsAbsoluteExpiry :: bool

definition durationSeconds :: "duration \<Rightarrow> int" where
  "durationSeconds v = (if v < 0 then - ((- v) div second) else v div second)"

definition SessionSecurityPolicy ::
  "'l Service \<Rightarrow> 'l env \<Rightarrow> string \<Rightarrow> string \<Rightarrow> 'l auth_state \<Rightarrow> (auth_error + SessionSecurityPolicyView) \<times> 'l auth_state" where
  "SessionSecurityPolicy svc env userID sourceIP s =
     (let s0 = env 0 s in
      case FindUserByID userID (asStore s0) of
        Inl _ \<Rightarrow> (Inl ErrUnauthenticated, s0)
      | Inr user \<Rightarrow>
        (if \<not> usEnabled user then (Inl ErrUnauthenticated, s0)
         else (let view = \<lparr>spAbsoluteTTLSeconds = durationSeconds (scSessionTTL svc),
                     spIdleTimeoutSeconds = durationSeconds (scSessionIdleTimeout svc),
                     spActivityRefreshesIdleDeadline = True, spActivityExtendsAbsoluteExpiry = False\<rparr>;
                   (ok, s1) = audit_append svc (audit_event ''auth.session_policy_read'' ''success'' (usID user) (usID user)
                     sourceIP [(''absolute_ttl_seconds'', AnyOther (Some (JInt (spAbsoluteTTLSeconds view)))),
                       (''idle_timeout_seconds'', AnyOther (Some (JInt (spIdleTimeoutSeconds view))))]) (env 1 s0) in
           if \<not> ok then (Inl ErrAuditUnavailable, s1) else (Inr view, s1))))"

end
