(* ===== verification/Auth_Sessions.thy ===== *)
theory Auth_Sessions
  imports Auth_Service
begin

text \<open>
  Correctness of \<^verbatim>\<open>internal/identity/auth/service.go\<close>: which tokens authenticate whom, for how long,
  and what ends a session. The other requests of the process are any history of calls of the store,
  before, between and after the calls of the request at hand.
\<close>

subsection \<open>What other requests may do\<close>

definition store_follows :: "(string \<Rightarrow> string) \<Rightarrow> MemoryStore \<Rightarrow> MemoryStore \<Rightarrow> bool" where
  "store_follows unicode_lower st st' \<longleftrightarrow> (\<exists>ops. st' = run_store unicode_lower ops st)"

definition env_ok :: "(string \<Rightarrow> string) \<Rightarrow> 'l env \<Rightarrow> bool" where
  "env_ok unicode_lower env \<longleftrightarrow> (\<forall>k s. store_follows unicode_lower (asStore s) (asStore (env k s)))"

lemma follows_refl [simp]: "store_follows unicode_lower st st"
  unfolding store_follows_def run_store_def by (rule exI[of _ "[]"]) simp

lemma follows_trans:
  assumes "store_follows unicode_lower a b" "store_follows unicode_lower b c"
  shows "store_follows unicode_lower a c"
proof -
  obtain xs ys where "b = run_store unicode_lower xs a" "c = run_store unicode_lower ys b"
    using assms unfolding store_follows_def by blast
  then have "c = run_store unicode_lower (xs @ ys) a" by (simp add: run_store_def)
  then show ?thesis unfolding store_follows_def by blast
qed

lemma follows_op: "store_follows unicode_lower st (apply_store unicode_lower op st)"
  unfolding store_follows_def run_store_def by (rule exI[of _ "[op]"]) simp

lemma follows_env: "env_ok unicode_lower env \<Longrightarrow> store_follows unicode_lower (asStore s) (asStore (env k s))"
  by (simp add: env_ok_def)

lemma follows_envI:
  "env_ok unicode_lower env \<Longrightarrow> store_follows unicode_lower a (asStore s) \<Longrightarrow> store_follows unicode_lower a (asStore (env k s))"
  by (rule follows_trans[OF _ follows_env])

lemma env_ok_id [simp]: "env_ok unicode_lower (\<lambda>_ s. s)"
  by (simp add: env_ok_def)

lemma follows_ok: "store_follows unicode_lower st st' \<Longrightarrow> store_ok st \<Longrightarrow> store_ok st'"
  by (auto simp: store_follows_def intro: run_store_ok)

lemma follows_session:
  "store_follows unicode_lower st st' \<Longrightarrow> store_ok st \<Longrightarrow> gget (msSessions st) d = Some s \<Longrightarrow>
   \<exists>s'. gget (msSessions st') d = Some s' \<and> session_kept s s'"
  by (auto simp: store_follows_def intro: run_store_session)

lemma follows_revoked:
  "store_follows unicode_lower st st' \<Longrightarrow> store_ok st \<Longrightarrow> revoked_session d st \<Longrightarrow> revoked_session d st'"
  by (auto simp: store_follows_def intro: run_store_revoked)

lemma audit_append_store [simp]: "asStore (snd (audit_append svc ev s)) = asStore s"
  by (simp add: audit_append_def case_prod_beta)

subsection \<open>Construction\<close>

lemma configured_fields:
  "scSessionTTL (fold (\<lambda>opt svc. case opt of None \<Rightarrow> svc | Some timeout \<Rightarrow> svc\<lparr>scSessionIdleTimeout := timeout\<rparr>) options svc)
     = scSessionTTL svc"
  by (induction options arbitrary: svc) (auto split: option.split)

lemma NewService_bounds:
  assumes "NewService deps verify hash log lower ip ttl secret options = Inr (svc, p)"
  shows "minute \<le> scSessionIdleTimeout svc" "scSessionIdleTimeout svc \<le> scSessionTTL svc" "scSessionTTL svc \<le> 7 * (24 * hour)"
    "lrPolicy p = DefaultLoginProtectionPolicy" "lrBuckets p = []"
  using assms
  by (auto simp: NewService_def Let_def configured_fields newLoginProtector_def split: if_splits option.splits sum.splits)

subsection \<open>Authentication\<close>

lemma Authenticate_Inr:
  assumes "Authenticate svc env token now s = (Inr a, s')"
  obtains d session user where "validatedTokenDigest token = Some d"
    "gget (msSessions (asStore (env 0 s))) d = Some session" "activeAt session now (scSessionIdleTimeout svc)"
    "gget (msUsers (asStore (env 1 (env 0 s)))) (ssUserID session) = Some user" "usEnabled user"
    "ssCredentialVersion session = usPasswordChangedAt user"
    "anIdentity a = User_Identity user" "anSession a = Session_View session"
  using assms
  by (auto simp: Authenticate_def Let_def FindSessionByDigest_def FindUserByID_def Session_View_def
      split: option.splits sum.splits if_splits)

lemma Authenticate_Inl: "fst (Authenticate svc env token now s) = Inl e \<Longrightarrow> e = ErrUnauthenticated"
  by (auto simp: Authenticate_def Let_def split: option.splits sum.splits if_splits)

lemma Authenticate_rejects:
  assumes "\<And>a s'. Authenticate svc env token now s \<noteq> (Inr a, s')"
  shows "fst (Authenticate svc env token now s) = Inl ErrUnauthenticated"
  using assms Authenticate_Inl by (metis prod.collapse sum.exhaust)

text \<open>Once a session is revoked, its token never authenticates again.\<close>

lemma revoked_unauthenticated:
  assumes "store_ok (asStore s)" "revoked_session d (asStore s)" "validatedTokenDigest token = Some d"
    and "store_follows unicode_lower (asStore s) (asStore t)" "env_ok unicode_lower env"
  shows "fst (Authenticate svc env token now t) = Inl ErrUnauthenticated"
proof (rule Authenticate_rejects, rule notI)
  fix a s' assume "Authenticate svc env token now t = (Inr a, s')"
  then obtain session where "gget (msSessions (asStore (env 0 t))) d = Some session"
      "activeAt session now (scSessionIdleTimeout svc)"
    using assms(3) by (elim Authenticate_Inr) auto
  moreover have "revoked_session d (asStore (env 0 t))"
    by (rule follows_revoked[OF follows_trans[OF assms(4) follows_env[OF assms(5)]] assms(1,2)])
  ultimately show False by (simp add: revoked_session_def activeAt_def)
qed

subsection \<open>Issued tokens\<close>

lemma b64_char_alphabet: "b64_char n \<in> set b64_alphabet"
proof -
  have "length b64_alphabet = 64" by (simp add: b64_alphabet_def)
  then show ?thesis unfolding b64_char_def by (intro nth_mem) simp
qed

lemma b64_alphabet_graphic: "c \<in> set b64_alphabet \<Longrightarrow> graphic c"
proof -
  have "list_all graphic b64_alphabet" by (simp add: b64_alphabet_def graphic_def)
  then show "c \<in> set b64_alphabet \<Longrightarrow> graphic c" by (simp add: list_all_iff)
qed

lemma b64_encode_chars: "c \<in> set (b64_encode bs) \<Longrightarrow> c \<in> set b64_alphabet"
  by (induction bs rule: b64_encode.induct) (auto simp: b64_char_alphabet)

lemma b64_encode_length: "length (b64_encode bs) = (8 * length bs + 5) div 6"
  by (induction bs rule: b64_encode.induct) auto

lemma issued_token_valid:
  assumes "length bs = 32"
  shows "validatedTokenDigest (b64_encode bs) = Some (digestToken (b64_encode bs))"
proof -
  have graphic: "list_all graphic (b64_encode bs)" using b64_encode_chars b64_alphabet_graphic by (auto simp: list_all_iff)
  have "c \<noteq> CHR 0x0A \<and> c \<noteq> CHR 0x0D" if "c \<in> set (b64_encode bs)" for c
    using b64_alphabet_graphic[OF b64_encode_chars[OF that]] by (auto simp: graphic_def)
  then have "filter (\<lambda>c. c \<noteq> CHR 0x0A \<and> c \<noteq> CHR 0x0D) (b64_encode bs) = b64_encode bs" by (simp add: filter_id_conv)
  moreover have "list_all (\<lambda>c. c \<in> set b64_alphabet) (b64_encode bs)" using b64_encode_chars by (auto simp: list_all_iff)
  ultimately have "b64_decoded_length (b64_encode bs) = Some 32"
    by (simp add: b64_decoded_length_def b64_encode_length assms)
  then show ?thesis by (simp add: validatedTokenDigest_def TrimSpace_graphic[OF graphic])
qed

lemma digestToken_nonempty [simp]: "digestToken token \<noteq> []"
  unfolding digestToken_def by (metis sha256_hex_length list.size(3) zero_neq_numeral)

subsection \<open>Password change\<close>

lemma password_changed:
  assumes "ChangePassword svc env now input s = (r, s')" "r = Inr () \<or> r = Inl ErrAuditUnavailable"
  obtains user newHash st where "gget (msUsers (asStore (env 0 s))) (cpUserID input) = Some user"
    "ChangePasswordAndRevokeSessions (usID user) (usPasswordHash user) newHash now (asStore (env 1 (env 0 s))) = Inr st"
    "asStore s' = asStore (env 2 ((env 1 (env 0 s))\<lparr>asStore := st\<rparr>))"
  using assms that
  by (auto simp: ChangePassword_def Let_def FindUserByID_def case_prod_beta audit_append_def
      split: option.splits sum.splits if_splits bool.splits)

lemma change_revokes:
  assumes "ChangePasswordAndRevokeSessions i h h' at st = Inr st'" "gget (msSessions st) d = Some session" "ssUserID session = i"
  shows "revoked_session d st'"
  using assms
  by (auto simp: ChangePasswordAndRevokeSessions_def revoked_session_def gget_revoke split: option.splits if_splits)

text \<open>
  C8: Changing the password ends every session of the user. When \<^verbatim>\<open>ChangePassword\<close> stored a new
  password, a session of this user that the store held at that moment never authenticates again,
  whatever other requests do before, between and after the calls of this one, even when only the
  audit entry of the change failed.
\<close>

theorem password_change_ends_sessions:
  assumes "store_ok (asStore s)" "env_ok unicode_lower env" "env_ok unicode_lower env'"
    and "ChangePassword svc env now input s = (r, s')" "r = Inr () \<or> r = Inl ErrAuditUnavailable"
    and "gget (msSessions (asStore (env 1 (env 0 s)))) d = Some session" "ssUserID session = cpUserID input"
    and "validatedTokenDigest token = Some d" "store_follows unicode_lower (asStore s') (asStore t)"
  shows "fst (Authenticate svc env' token now' t) = Inl ErrUnauthenticated"
proof -
  obtain user newHash st where user: "gget (msUsers (asStore (env 0 s))) (cpUserID input) = Some user"
    and change: "ChangePasswordAndRevokeSessions (usID user) (usPasswordHash user) newHash now (asStore (env 1 (env 0 s))) = Inr st"
    and s': "asStore s' = asStore (env 2 ((env 1 (env 0 s))\<lparr>asStore := st\<rparr>))"
    using password_changed[OF assms(4,5)] by blast
  have ok0: "store_ok (asStore (env 0 s))" by (rule follows_ok[OF follows_env[OF assms(2)] assms(1)])
  have id: "usID user = cpUserID input" using store_okD(4)[OF ok0 user] by (simp add: user_entry_ok_def)
  have ok1: "store_ok (asStore (env 1 (env 0 s)))" by (rule follows_ok[OF follows_env[OF assms(2)] ok0])
  have "st = apply_store unicode_lower (CallChangePassword (usID user) (usPasswordHash user) newHash now) (asStore (env 1 (env 0 s)))"
    unfolding apply_store.simps change accepted_store_def by simp
  then have ok: "store_ok st" using apply_store_ok[OF ok1] by metis
  have "revoked_session d st" using change_revokes[OF change assms(6)] assms(7) id by simp
  moreover have "store_follows unicode_lower st (asStore t)"
    using follows_trans[OF follows_env[OF assms(2), of "(env 1 (env 0 s))\<lparr>asStore := st\<rparr>" 2]] assms(9) s' by simp
  ultimately show ?thesis
    using revoked_unauthenticated[of "(env 1 (env 0 s))\<lparr>asStore := st\<rparr>" d token unicode_lower t env'] ok assms(3,8) by simp
qed

subsection \<open>Login\<close>

lemma issue_session_Inr:
  assumes "issue_session svc env tokenBytes sessionID now input user s = (Inr issued, s')"
  obtains bs st y where "tokenBytes = Some bs" "isToken issued = b64_encode bs" "isIdentity issued = User_Identity user"
    "isSession issued = Session_View (login_session svc user (b64_encode bs) sessionID now input)"
    "CreateSession (login_session svc user (b64_encode bs) sessionID now input) (usPasswordHash user) (asStore (env 3 s)) = Inr st"
    "asStore y = asStore (env 4 ((env 3 s)\<lparr>asStore := st\<rparr>))"
    "asStore s' = accepted_store (asStore (env 5 y)) (SetLastLogin (usID user) now (asStore (env 5 y)))"
proof -
  obtain bs where bs: "tokenBytes = Some bs" using assms by (auto simp: issue_session_def split: option.splits)
  define session where "session = login_session svc user (b64_encode bs) sessionID now input"
  obtain st where st: "CreateSession session (usPasswordHash user) (asStore (env 3 s)) = Inr st"
    using assms by (auto simp: issue_session_def bs Let_def session_def split: sum.splits)
  define y where "y = snd (audit_append svc (audit_event ''auth.login'' ''success'' (usID user) [] (liSourceIP input)
    [(''session_id'', AnyString (ssID session))]) (env 4 ((env 3 s)\<lparr>asStore := st\<rparr>)))"
  have parts: "isToken issued = b64_encode bs \<and> isIdentity issued = User_Identity user \<and> isSession issued = Session_View session
      \<and> asStore s' = accepted_store (asStore (env 5 y)) (SetLastLogin (usID user) now (asStore (env 5 y)))"
    using assms unfolding issue_session_def bs option.case Let_def case_prod_beta session_def[symmetric] st sum.case y_def[symmetric]
    by (auto split: if_splits)
  have y: "asStore y = asStore (env 4 ((env 3 s)\<lparr>asStore := st\<rparr>))" by (simp add: y_def)
  show thesis by (rule that[OF bs, of st y]) (use parts st y in \<open>simp_all add: session_def\<close>)
qed

text \<open>The states a successful login passes through: \<open>x\<close> is the store in which the session is created.\<close>

lemma Login_Inr:
  assumes "Login svc env tokenBytes sessionID now input s = (Inr issued, s')" "env_ok unicode_lower env"
  obtains bs user x st x' where "tokenBytes = Some bs" "isToken issued = b64_encode bs" "isIdentity issued = User_Identity user"
    "isSession issued = Session_View (login_session svc user (b64_encode bs) sessionID now input)"
    "\<not> fst (Blocked (scLower svc) (scIP svc) (normalizeUsername (scLower svc) (liUsername input)) (liSourceIP input) now
        (asProtector (env 0 s)))"
    "scVerify svc (liPassword input) (usPasswordHash user) = Inr True" "usEnabled user"
    "store_follows unicode_lower (asStore s) x"
    "CreateSession (login_session svc user (b64_encode bs) sessionID now input) (usPasswordHash user) x = Inr st"
    "store_follows unicode_lower st (asStore s')"
proof -
  let ?name = "normalizeUsername (scLower svc) (liUsername input)"
  define p where "p = Blocked (scLower svc) (scIP svc) ?name (liSourceIP input) now (asProtector (env 0 s))"
  define s2 where "s2 = env 1 ((env 0 s)\<lparr>asProtector := snd p\<rparr>)"
  define s3 where "s3 = (env 2 s2)\<lparr>asProtector := RecordSuccess (scLower svc) ?name (asProtector (env 2 s2))\<rparr>"
  obtain user where user: "\<not> fst p" "scVerify svc (liPassword input) (usPasswordHash user) = Inr True" "usEnabled user"
    and issue: "issue_session svc env tokenBytes sessionID now input user s3 = (Inr issued, s')"
    using assms(1) by (auto simp: Login_def Let_def case_prod_beta login_failed_def p_def s2_def s3_def
        split: sum.splits if_splits)
  have s3: "store_follows unicode_lower (asStore s) (asStore (env 3 s3))"
    by (simp add: s2_def s3_def follows_envI[OF assms(2)])
  from issue_session_Inr[OF issue] obtain bs st y where bs: "tokenBytes = Some bs" "isToken issued = b64_encode bs" "isIdentity issued = User_Identity user"
    "isSession issued = Session_View (login_session svc user (b64_encode bs) sessionID now input)"
    and st: "CreateSession (login_session svc user (b64_encode bs) sessionID now input) (usPasswordHash user) (asStore (env 3 s3)) = Inr st"
    and y: "asStore y = asStore (env 4 ((env 3 s3)\<lparr>asStore := st\<rparr>))"
      "asStore s' = accepted_store (asStore (env 5 y)) (SetLastLogin (usID user) now (asStore (env 5 y)))" .
  have "store_follows unicode_lower st (asStore (env 5 y))"
    using y(1) by (simp add: follows_envI[OF assms(2)])
  moreover have "asStore s' = apply_store unicode_lower (CallSetLastLogin (usID user) now) (asStore (env 5 y))" using y(2) by simp
  ultimately have "store_follows unicode_lower st (asStore s')" using follows_trans follows_op by metis
  then show thesis using that bs st user s3 by (simp add: p_def)
qed

lemma CreateSession_Inr:
  assumes "CreateSession session h st = Inr st'"
  shows "\<exists>c. gget (msSessions st') (ssTokenDigest session) = Some c \<and> session_kept session c"
    and "gget (msSessions st) (ssTokenDigest session) = None"
    and "\<exists>u. gget (msUsers st) (ssUserID session) = Some u \<and> usPasswordHash u = h"
  using assms by (auto simp: CreateSession_def Let_def session_kept_def split: if_splits option.splits)

lemma CreateSession_follows:
  assumes "CreateSession session h st = Inr st'"
  shows "store_follows unicode_lower st st'"
  using follows_op[of unicode_lower st "CallCreateSession session h"] assms by (simp add: accepted_store_def)

text \<open>
  C11: A login succeeds only on the password of the moment. When \<^verbatim>\<open>Login\<close> issues a session, neither
  the account nor the source was blocked, and at the moment the session entered the store the
  given password verified against the hash stored for that user, whatever other requests did
  since the user was read: a concurrent password change makes the login fail. The token's digest
  was new to the store.
\<close>

theorem login_checks_current_password:
  assumes "store_ok (asStore s)" "env_ok unicode_lower env"
    and "Login svc env tokenBytes sessionID now input s = (Inr issued, s')"
  shows "\<not> fst (Blocked (scLower svc) (scIP svc) (normalizeUsername (scLower svc) (liUsername input)) (liSourceIP input) now
        (asProtector (env 0 s)))
    \<and> (\<exists>x y user session. store_follows unicode_lower (asStore s) x
        \<and> gget (msUsers x) (idID (isIdentity issued)) = Some user
        \<and> scVerify svc (liPassword input) (usPasswordHash user) = Inr True
        \<and> gget (msSessions x) (digestToken (isToken issued)) = None
        \<and> ssTokenDigest session = digestToken (isToken issued) \<and> ssUserID session = usID user
        \<and> CreateSession session (usPasswordHash user) x = Inr y \<and> store_follows unicode_lower y (asStore s'))"
proof -
  obtain bs user x st where issued: "isToken issued = b64_encode bs" "isIdentity issued = User_Identity user"
    and free: "\<not> fst (Blocked (scLower svc) (scIP svc) (normalizeUsername (scLower svc) (liUsername input)) (liSourceIP input) now
        (asProtector (env 0 s)))"
    and verified: "scVerify svc (liPassword input) (usPasswordHash user) = Inr True"
    and x: "store_follows unicode_lower (asStore s) x"
    and st: "CreateSession (login_session svc user (b64_encode bs) sessionID now input) (usPasswordHash user) x = Inr st"
      "store_follows unicode_lower st (asStore s')"
    using Login_Inr[OF assms(3,2)] by metis
  let ?session = "login_session svc user (b64_encode bs) sessionID now input"
  obtain u where u: "gget (msUsers x) (ssUserID ?session) = Some u" "usPasswordHash u = usPasswordHash user"
    using CreateSession_Inr(3)[OF st(1)] by blast
  have "usID u = ssUserID ?session" using store_okD(4)[OF follows_ok[OF x assms(1)] u(1)] by (simp add: user_entry_ok_def)
  then show ?thesis using free verified x st u CreateSession_Inr(2)[OF st(1)] issued
    by (intro conjI exI[of _ x] exI[of _ st] exI[of _ u] exI[of _ ?session]) (auto simp: login_session_def User_Identity_def)
qed

text \<open>
  C12: A session ends at its absolute expiry. Whenever the token of a successful login authenticates later,
  it is the same session of the same user, it is less than the session lifetime after the login, and
  the account is enabled: no activity, no further login and no other request extends the session.
\<close>

theorem issued_session_bounded:
  assumes "store_ok (asStore s)" "env_ok unicode_lower env" "env_ok unicode_lower env'"
    and "Login svc env tokenBytes sessionID now input s = (Inr issued, s')"
    and "length (the tokenBytes) = 32" "store_follows unicode_lower (asStore s') (asStore t)"
    and "Authenticate svc env' (isToken issued) now' t = (Inr a, t')"
  shows "now' < now + scSessionTTL svc \<and> anSession a = isSession issued \<and> svID (anSession a) = sessionID
    \<and> idID (anIdentity a) = idID (isIdentity issued)
    \<and> (\<exists>user. gget (msUsers (asStore (env' 1 (env' 0 t)))) (idID (anIdentity a)) = Some user \<and> usEnabled user)"
proof -
  obtain bs user x st where bs: "tokenBytes = Some bs"
    and issued: "isToken issued = b64_encode bs" "isIdentity issued = User_Identity user"
      "isSession issued = Session_View (login_session svc user (b64_encode bs) sessionID now input)"
    and x: "store_follows unicode_lower (asStore s) x"
    and st: "CreateSession (login_session svc user (b64_encode bs) sessionID now input) (usPasswordHash user) x = Inr st"
      "store_follows unicode_lower st (asStore s')"
    using Login_Inr[OF assms(4,2)] by metis
  let ?session = "login_session svc user (b64_encode bs) sessionID now input"
  obtain d session u where auth: "validatedTokenDigest (isToken issued) = Some d"
    "gget (msSessions (asStore (env' 0 t))) d = Some session" "activeAt session now' (scSessionIdleTimeout svc)"
    "gget (msUsers (asStore (env' 1 (env' 0 t)))) (ssUserID session) = Some u" "usEnabled u"
    "anIdentity a = User_Identity u" "anSession a = Session_View session"
    using Authenticate_Inr[OF assms(7)] by metis
  have d: "d = digestToken (b64_encode bs)" using auth(1) issued(1) issued_token_valid[of bs] assms(5) by (simp add: bs)
  have ok: "store_ok st" by (rule follows_ok[OF follows_trans[OF x CreateSession_follows[OF st(1)]] assms(1)])
  obtain c where c: "gget (msSessions st) d = Some c" "session_kept ?session c"
    using CreateSession_Inr(1)[OF st(1)] by (auto simp: d login_session_def)
  have later: "store_follows unicode_lower st (asStore (env' 0 t))"
    by (rule follows_envI[OF assms(3) follows_trans[OF st(2) assms(6)]])
  then obtain c' where "gget (msSessions (asStore (env' 0 t))) d = Some c'" "session_kept c c'"
    using follows_session[OF _ ok c(1)] by blast
  then have kept: "session_kept ?session session" using session_kept_trans[OF c(2)] auth(2) by simp
  have "usID u = ssUserID session"
    using store_okD(4)[OF follows_ok[OF follows_envI[OF assms(3) later] ok] auth(4)] by (simp add: user_entry_ok_def)
  then show ?thesis using kept auth issued
    by (auto simp: session_kept_def login_session_def Session_View_def User_Identity_def activeAt_def)
qed

lemma login_authenticates:
  assumes "store_ok (asStore s)" "\<forall>ev l. fst (scAudit svc ev l)"
    and "FindUserByUsername (scLower svc) (normalizeUsername (scLower svc) (liUsername input)) (asStore s) = Inr user" "usEnabled user"
    and "scVerify svc (liPassword input) (usPasswordHash user) = Inr True"
    and "\<not> fst (Blocked (scLower svc) (scIP svc) (normalizeUsername (scLower svc) (liUsername input)) (liSourceIP input) now
        (asProtector s))"
    and "length bs = 32" "sessionID \<noteq> []" "gget (msSessions (asStore s)) (digestToken (b64_encode bs)) = None"
    and "now \<le> now'" "now' < now + scSessionTTL svc" "now' < now + scSessionIdleTimeout svc"
  shows "\<exists>issued s' a t. Login svc (\<lambda>_ s. s) (Some bs) sessionID now input s = (Inr issued, s')
    \<and> isIdentity issued = User_Identity user \<and> svExpiresAt (isSession issued) = now + scSessionTTL svc
    \<and> Authenticate svc (\<lambda>_ s. s) (isToken issued) now' s' = (Inr a, t)
    \<and> anIdentity a = User_Identity user \<and> anSession a = isSession issued"
proof -
  let ?session = "login_session svc user (b64_encode bs) sessionID now input"
  let ?d = "digestToken (b64_encode bs)"
  note ok = store_okD[OF assms(1)]
  obtain i where "gget (msNames (asStore s)) (normalizeUsername (scLower svc) (normalizeUsername (scLower svc) (liUsername input))) = Some i"
    using assms(3) by (auto simp: FindUserByUsername_def split: option.splits)
  then have user: "gget (msUsers (asStore s)) (usID user) = Some user" "usID user \<noteq> []"
    using ok(5) ok(4) assms(3) by (fastforce simp: FindUserByUsername_def user_entry_ok_def)+
  define st where "st = (asStore s)\<lparr>msSessions := gput ?d ?session (msSessions (asStore s))\<rparr>"
  have create: "CreateSession ?session (usPasswordHash user) (asStore s) = Inr st"
    using assms(8-12) user by (auto simp: CreateSession_def st_def login_session_def Let_def)
  define st' where "st' = st\<lparr>msUsers := gput (usID user) (user\<lparr>usLastLoginAt := Some now\<rparr>) (msUsers st)\<rparr>"
  have last: "accepted_store st (SetLastLogin (usID user) now st) = st'"
    using user by (simp add: accepted_store_def SetLastLogin_def st'_def st_def)
  obtain issued s' where login: "Login svc (\<lambda>_ s. s) (Some bs) sessionID now input s = (Inr issued, s')"
    "isToken issued = b64_encode bs" "isIdentity issued = User_Identity user" "isSession issued = Session_View ?session" "asStore s' = st'"
    using assms(2-6) create last
    by (simp add: Login_def issue_session_def Let_def case_prod_beta audit_append_def)
  have session: "gget (msSessions st') ?d = Some ?session" "gget (msUsers st') (ssUserID ?session) = Some (user\<lparr>usLastLoginAt := Some now\<rparr>)"
    by (simp_all add: st'_def st_def login_session_def)
  have "activeAt ?session now' (scSessionIdleTimeout svc)"
    using assms(10-12) by (auto simp: activeAt_def idleExpiresAt_def activityAt_def login_session_def Let_def)
  moreover have "\<exists>z. TouchSessionByDigest ?d now' st' = Inr z"
    using session(1) assms(11) by (simp add: TouchSessionByDigest_def login_session_def)
  ultimately have "\<exists>a t. Authenticate svc (\<lambda>_ s. s) (b64_encode bs) now' s' = (Inr a, t)
      \<and> anIdentity a = User_Identity user \<and> anSession a = Session_View ?session"
    using session login(5) assms(4) issued_token_valid[OF assms(7)]
    by (auto simp: Authenticate_def Let_def FindSessionByDigest_def FindUserByID_def login_session_def User_Identity_def Session_View_def)
  then show ?thesis using login by (auto simp: Session_View_def login_session_def)
qed

text \<open>
  C37: A login works. For a known enabled user with the right password, not blocked, with working audit and random
  source and a fresh token, \<^verbatim>\<open>Login\<close> issues a session for this user, and the token returned
  authenticates this user in this session at any time before the idle timeout and the expiry.
\<close>

theorem login_then_authenticate:
  assumes "store_ok (asStore s)" "\<forall>ev l. fst (scAudit svc ev l)"
    and "FindUserByUsername (scLower svc) (normalizeUsername (scLower svc) (liUsername input)) (asStore s) = Inr user" "usEnabled user"
    and "scVerify svc (liPassword input) (usPasswordHash user) = Inr True"
    and "\<not> fst (Blocked (scLower svc) (scIP svc) (normalizeUsername (scLower svc) (liUsername input)) (liSourceIP input) now
        (asProtector s))"
    and "length bs = 32" "sessionID \<noteq> []" "gget (msSessions (asStore s)) (digestToken (b64_encode bs)) = None"
    and "now \<le> now'" "now' < now + scSessionTTL svc" "now' < now + scSessionIdleTimeout svc"
  shows "\<exists>issued s' a t. Login svc (\<lambda>_ s. s) (Some bs) sessionID now input s = (Inr issued, s')
    \<and> isIdentity issued = User_Identity user \<and> svExpiresAt (isSession issued) = now + scSessionTTL svc
    \<and> Authenticate svc (\<lambda>_ s. s) (isToken issued) now' s' = (Inr a, t)
    \<and> anIdentity a = User_Identity user \<and> anSession a = isSession issued"
  using login_authenticates[OF assms] .

subsection \<open>Logout\<close>

lemma Logout_revokes:
  assumes "store_ok (asStore s)" "env_ok unicode_lower env" "validatedTokenDigest token = Some d"
    and "gget (msSessions (asStore (env 0 s))) d = Some session"
  obtains x where "store_ok x" "revoked_session d x" "store_follows unicode_lower x (asStore (snd (Logout svc env token ip now s)))"
proof -
  let ?s1 = "env 1 (env 0 s)"
  have ok: "store_ok (asStore (env 0 s))" by (rule follows_ok[OF follows_env[OF assms(2)] assms(1)])
  obtain session' where s1: "gget (msSessions (asStore ?s1)) d = Some session'"
    using follows_session[OF follows_env[OF assms(2)] ok assms(4)] by blast
  obtain st where st: "RevokeSessionByDigest d now (asStore ?s1) = Inr st" "revoked_session d st"
    using s1 by (cases "ssRevokedAt session' = None") (auto simp: RevokeSessionByDigest_def revoked_session_def)
  have "st = apply_store unicode_lower (CallRevokeSession d now) (asStore ?s1)"
    unfolding apply_store.simps st accepted_store_def by simp
  then have "store_ok st" using apply_store_ok[OF follows_ok[OF follows_env[OF assms(2)] ok]] by metis
  moreover have "asStore (snd (Logout svc env token ip now s)) = asStore (env 2 (?s1\<lparr>asStore := st\<rparr>))"
    unfolding Logout_def logout_audited_def
    by (simp add: assms(3,4) FindSessionByDigest_def st[simplified] case_prod_beta Let_def)
  ultimately show thesis using that[OF _ st(2)] by (simp add: follows_envI[OF assms(2)])
qed

text \<open>
  A logout is final. After \<^verbatim>\<open>Logout\<close> with the token of a stored session, whether or not its audit entry
  could be written, this token never authenticates again, whatever other requests do before,
  between and after the calls of this one.
\<close>

lemma logout_final:
  assumes "store_ok (asStore s)" "env_ok unicode_lower env" "env_ok unicode_lower env'" "validatedTokenDigest token = Some d"
    and "gget (msSessions (asStore (env 0 s))) d = Some session"
    and "store_follows unicode_lower (asStore (snd (Logout svc env token ip now s))) (asStore t)"
  shows "fst (Authenticate svc env' token now' t) = Inl ErrUnauthenticated"
proof -
  obtain x where x: "store_ok x" "revoked_session d x" "store_follows unicode_lower x (asStore (snd (Logout svc env token ip now s)))"
    using Logout_revokes[OF assms(1,2,4,5)] .
  show ?thesis
    by (rule revoked_unauthenticated[of "s\<lparr>asStore := x\<rparr>" d token unicode_lower t env'])
      (use x assms(3,4) follows_trans[OF x(3) assms(6)] in simp_all)
qed

subsection \<open>Revocation by the user\<close>

lemma revoke_by_id_others:
  assumes "store_ok st" "RevokeSessionForUserByID u i now st = Inr st'" "gget (msSessions st) d = Some x" "ssUserID x \<noteq> u"
  shows "gget (msSessions st') d = Some x"
proof -
  obtain e y where y: "find (\<lambda>(_, s). \<not> (ssUserID s \<noteq> u \<or> ssID s \<noteq> i \<or> ssRevokedAt s \<noteq> None
      \<or> \<not> time_UTC now < ssExpiresAt s)) (msSessions st) = Some (e, y)"
    and st': "st' = st\<lparr>msSessions := gput e (y\<lparr>ssRevokedAt := Some (time_UTC now)\<rparr>) (msSessions st)\<rparr>"
    using assms(2) by (auto simp: RevokeSessionForUserByID_def split: option.splits)
  have "e \<noteq> d" using found_session[OF store_okD(3)[OF assms(1)] y] assms(3,4) by auto
  then show ?thesis using assms(3) by (simp add: st')
qed

lemma revoke_all_others:
  "gget (msSessions st) d = Some x \<Longrightarrow> ssUserID x \<noteq> u \<Longrightarrow> gget (msSessions (snd (RevokeSessionsForUser u now st))) d = Some x"
  by (simp add: RevokeSessionsForUser_def gget_revoke)

lemma RevokeSession_store:
  "asStore (snd (RevokeSession svc (\<lambda>_ s. s) now input s)) = asStore s
   \<or> (\<exists>user i st. gget (msUsers (asStore s)) (riUserID input) = Some user \<and> RevokeSessionForUserByID (usID user) i now (asStore s) = Inr st
       \<and> asStore (snd (RevokeSession svc (\<lambda>_ s. s) now input s)) = st)"
  by (auto simp: RevokeSession_def Let_def FindUserByID_def case_prod_beta split: option.splits sum.splits)

lemma RevokeAllSessions_store:
  "asStore (snd (RevokeAllSessions svc (\<lambda>_ s. s) now input s)) = asStore s
   \<or> (\<exists>user. gget (msUsers (asStore s)) (raUserID input) = Some user
       \<and> asStore (snd (RevokeAllSessions svc (\<lambda>_ s. s) now input s)) = snd (RevokeSessionsForUser (usID user) now (asStore s)))"
  by (auto simp: RevokeAllSessions_def Let_def FindUserByID_def case_prod_beta split: option.splits)

text \<open>
  A user ends only their own sessions. \<^verbatim>\<open>RevokeSession\<close>, whatever session id it is given, and
  \<^verbatim>\<open>RevokeAllSessions\<close> leave every stored session of another user exactly as it was.
\<close>

lemma revocation_own_sessions:
  assumes "store_ok (asStore s)" "gget (msSessions (asStore s)) d = Some x"
    and "ssUserID x \<noteq> riUserID one" "ssUserID x \<noteq> raUserID all"
  shows "gget (msSessions (asStore (snd (RevokeSession svc (\<lambda>_ s. s) now one s)))) d = Some x
    \<and> gget (msSessions (asStore (snd (RevokeAllSessions svc (\<lambda>_ s. s) now all s)))) d = Some x"
proof
  have id: "usID user = i" if "gget (msUsers (asStore s)) i = Some user" for i user
    using store_okD(4)[OF assms(1) that] by (simp add: user_entry_ok_def)
  show "gget (msSessions (asStore (snd (RevokeSession svc (\<lambda>_ s. s) now one s)))) d = Some x"
    using RevokeSession_store[of svc now one s] revoke_by_id_others[OF assms(1) _ assms(2)] assms(2,3) id by metis
  show "gget (msSessions (asStore (snd (RevokeAllSessions svc (\<lambda>_ s. s) now all s)))) d = Some x"
    using RevokeAllSessions_store[of svc now all s] revoke_all_others[OF assms(2)] assms(2,4) id by metis
qed

subsection \<open>The properties on a concrete service\<close>

text \<open>A hasher that keeps the password behind a prefix, an audit log that is a list, one enabled user, and a login of theirs.\<close>

definition demo_service :: "Event list Service" where
  "demo_service = \<lparr>scVerify = (\<lambda>p h. Inr (h = ''hash:'' @ p)), scHash = (\<lambda>p. Inr (''hash:'' @ p)), scAudit = (\<lambda>e l. (True, e # l)),
     scLower = id, scIP = (\<lambda>_. None), scDummyHash = ''x'', scSessionTTL = 8 * hour, scSessionIdleTimeout = 2 * hour\<rparr>"

definition demo_user :: User where
  "demo_user = \<lparr>usID = ''u1'', usUsername = ''alice'', usDisplayName = ''Alice'', usPasswordHash = ''hash:secret'', usEnabled = True,
     usPasswordChangeRequired = False, usCreatedAt = 1, usPasswordChangedAt = 1, usLastLoginAt = None\<rparr>"

definition demo_bytes :: "nat list" where "demo_bytes = replicate 32 7"
definition demo_token :: string where "demo_token = b64_encode demo_bytes"

definition demo_input :: LoginInput where
  "demo_input = \<lparr>liUsername = '' Alice'', liPassword = ''secret'', liSourceIP = ''10.0.0.1'', liUserAgent = ''cli''\<rparr>"

definition demo_start :: "Event list auth_state" where
  "demo_start = \<lparr>asStore = \<lparr>msUsers = [(''u1'', demo_user)], msNames = [(''alice'', ''u1'')], msSessions = []\<rparr>,
     asProtector = newLoginProtector DefaultLoginProtectionPolicy, asLog = []\<rparr>"

definition demo_session :: Session where
  "demo_session = login_session demo_service demo_user demo_token ''s1'' 10 demo_input"

definition demo_logged_in :: "Event list auth_state" where
  "demo_logged_in = demo_start\<lparr>asStore := (asStore demo_start)\<lparr>msSessions := [(digestToken demo_token, demo_session)]\<rparr>\<rparr>"

lemma demo_bytes_length: "length demo_bytes = 32"
  by (simp add: demo_bytes_def)

lemma demo_token_valid: "validatedTokenDigest demo_token = Some (digestToken demo_token)"
  unfolding demo_token_def by (rule issued_token_valid[OF demo_bytes_length])

lemma demo_name: "normalizeUsername id '' Alice'' = ''alice''" "normalizeUsername id ''alice'' = ''alice''"
  by (simp_all add: normalizeUsername_def ToLower_def lower_char_def trim_defs char_class_defs less_eq_char_def char_of_def bit_0)

lemma demo_start_ok: "store_ok (asStore demo_start)"
  by (auto simp: demo_start_def demo_user_def store_ok_def user_entry_ok_def gmap_ok_def split: if_splits)

lemma demo_logged_in_ok: "store_ok (asStore demo_logged_in)"
proof -
  have "session_entry_ok (asStore demo_start) (digestToken demo_token) demo_session"
    by (simp add: demo_start_def demo_session_def login_session_def session_entry_ok_def demo_user_def demo_service_def duration_units)
  then have "store_ok ((asStore demo_start)\<lparr>msSessions := [(digestToken demo_token, demo_session)]\<rparr>)"
    by (intro store_ok_sessions[OF demo_start_ok]) (auto simp: gmap_ok_def split: if_splits)
  then show ?thesis by (simp add: demo_logged_in_def)
qed

lemma demo_not_blocked: "\<not> fst (Blocked id (\<lambda>_. None) n ip now (asProtector demo_start))"
  by (simp add: Blocked_def blockedLocked_def demo_start_def newLoginProtector_def)

lemma demo_found: "FindUserByUsername id ''alice'' (asStore demo_start) = Inr demo_user"
  by (simp add: FindUserByUsername_def demo_name demo_start_def)

theorem login_then_authenticate_witness:
  "\<exists>issued s' a t. Login demo_service (\<lambda>_ s. s) (Some demo_bytes) ''s1'' 10 demo_input demo_start = (Inr issued, s')
    \<and> isIdentity issued = User_Identity demo_user \<and> svExpiresAt (isSession issued) = 10 + scSessionTTL demo_service
    \<and> Authenticate demo_service (\<lambda>_ s. s) (isToken issued) 20 s' = (Inr a, t)
    \<and> anIdentity a = User_Identity demo_user \<and> anSession a = isSession issued"
proof (rule login_then_authenticate[OF demo_start_ok])
  show "length demo_bytes = 32" by (rule demo_bytes_length)
qed (simp_all add: demo_service_def demo_input_def demo_name demo_found demo_not_blocked, simp_all add: demo_user_def demo_start_def duration_units)

definition demo_change :: ChangePasswordInput where
  "demo_change = \<lparr>cpUserID = ''u1'', cpCurrentPassword = ''secret'', cpNewPassword = ''other'', cpSourceIP = ''10.0.0.1''\<rparr>"

theorem password_change_ends_sessions_witness:
  "fst (Authenticate demo_service (\<lambda>_ s. s) demo_token 40 (snd (ChangePassword demo_service (\<lambda>_ s. s) 30 demo_change demo_logged_in)))
   = Inl ErrUnauthenticated"
proof -
  obtain s' where s': "ChangePassword demo_service (\<lambda>_ s. s) 30 demo_change demo_logged_in = (Inr (), s')"
    by (simp add: ChangePassword_def Let_def FindUserByID_def demo_service_def demo_change_def demo_logged_in_def demo_start_def
        demo_user_def ChangePasswordAndRevokeSessions_def audit_append_def)
  have "gget (msSessions (asStore demo_logged_in)) (digestToken demo_token) = Some demo_session" by (simp add: demo_logged_in_def)
  moreover have "ssUserID demo_session = cpUserID demo_change"
    by (simp add: demo_session_def login_session_def demo_user_def demo_change_def)
  ultimately show ?thesis
    using password_change_ends_sessions[OF demo_logged_in_ok env_ok_id[of id] env_ok_id[of id] s' _ _ _ demo_token_valid follows_refl, of demo_session 40]
      s' by simp
qed

lemma demo_login:
  obtains issued s' a t where "Login demo_service (\<lambda>_ s. s) (Some demo_bytes) ''s1'' 10 demo_input demo_start = (Inr issued, s')"
    "isIdentity issued = User_Identity demo_user" "Authenticate demo_service (\<lambda>_ s. s) (isToken issued) 20 s' = (Inr a, t)"
proof -
  have "\<exists>issued s' a t. Login demo_service (\<lambda>_ s. s) (Some demo_bytes) ''s1'' 10 demo_input demo_start = (Inr issued, s')
      \<and> isIdentity issued = User_Identity demo_user \<and> svExpiresAt (isSession issued) = 10 + scSessionTTL demo_service
      \<and> Authenticate demo_service (\<lambda>_ s. s) (isToken issued) 20 s' = (Inr a, t)
      \<and> anIdentity a = User_Identity demo_user \<and> anSession a = isSession issued"
  proof (rule login_authenticates[OF demo_start_ok])
    show "length demo_bytes = 32" by (rule demo_bytes_length)
  qed (simp_all add: demo_service_def demo_input_def demo_name demo_found demo_not_blocked,
       simp_all add: demo_user_def demo_start_def duration_units)
  then show thesis using that by blast
qed

theorem login_checks_current_password_witness:
  "\<exists>issued s'. Login demo_service (\<lambda>_ s. s) (Some demo_bytes) ''s1'' 10 demo_input demo_start = (Inr issued, s')
    \<and> (\<exists>x y user session. store_follows id (asStore demo_start) x \<and> gget (msUsers x) ''u1'' = Some user
        \<and> scVerify demo_service ''secret'' (usPasswordHash user) = Inr True
        \<and> CreateSession session (usPasswordHash user) x = Inr y \<and> store_follows id y (asStore s'))"
proof -
  obtain issued s' where login: "Login demo_service (\<lambda>_ s. s) (Some demo_bytes) ''s1'' 10 demo_input demo_start = (Inr issued, s')"
    "isIdentity issued = User_Identity demo_user" using demo_login by metis
  have "idID (isIdentity issued) = ''u1''" "liPassword demo_input = ''secret''"
    by (simp_all add: login(2) User_Identity_def demo_user_def demo_input_def)
  then show ?thesis using login_checks_current_password[OF demo_start_ok env_ok_id[of id] login(1)] login(1) by metis
qed

theorem issued_session_bounded_witness:
  "\<exists>issued s' a t. Login demo_service (\<lambda>_ s. s) (Some demo_bytes) ''s1'' 10 demo_input demo_start = (Inr issued, s')
    \<and> Authenticate demo_service (\<lambda>_ s. s) (isToken issued) 20 s' = (Inr a, t)
    \<and> 20 < 10 + scSessionTTL demo_service \<and> anSession a = isSession issued \<and> svID (anSession a) = ''s1''"
proof -
  obtain issued s' a t where login: "Login demo_service (\<lambda>_ s. s) (Some demo_bytes) ''s1'' 10 demo_input demo_start = (Inr issued, s')"
    "Authenticate demo_service (\<lambda>_ s. s) (isToken issued) 20 s' = (Inr a, t)" using demo_login by metis
  have "length (the (Some demo_bytes)) = 32" by (simp add: demo_bytes_length)
  from issued_session_bounded[OF demo_start_ok env_ok_id[of id] env_ok_id[of id] login(1) this follows_refl login(2)]
  show ?thesis using login by blast
qed

end
