(* ===== verification/Auth_Audit.thy ===== *)
theory Auth_Audit
  imports Auth_Sessions
begin

text \<open>
  The authentication service of \<^verbatim>\<open>internal/identity/auth\<close> on the memory log of \<^verbatim>\<open>internal/identity/audit\<close>: what its requests
  leave in the audit log. The clock and the random ids of the log are given by the number of its records.
\<close>

definition memory_logger :: "(nat \<Rightarrow> time) \<Rightarrow> (nat \<Rightarrow> string) \<Rightarrow> Event \<Rightarrow> MemoryLog \<Rightarrow> bool \<times> MemoryLog" where
  "memory_logger clock ids e l =
     (case Append None (clock (length l)) (ids (length l)) e l of Inl _ \<Rightarrow> (False, l) | Inr l' \<Rightarrow> (True, l'))"

datatype auth_request =
    RequestLogin "nat list option" string LoginInput
  | RequestAuthenticate string
  | RequestLogout string string
  | RequestChangePassword ChangePasswordInput
  | RequestListSessions ListSessionsInput
  | RequestRevokeSession RevokeSessionInput
  | RequestRevokeAll RevokeAllSessionsInput
  | RequestPolicy string string

fun handle :: "MemoryLog Service \<Rightarrow> MemoryLog env \<Rightarrow> time \<Rightarrow> auth_request \<Rightarrow> MemoryLog auth_state \<Rightarrow> MemoryLog auth_state" where
  "handle svc env now (RequestLogin bs i input) s = snd (Login svc env bs i now input s)"
| "handle svc env now (RequestAuthenticate token) s = snd (Authenticate svc env token now s)"
| "handle svc env now (RequestLogout token ip) s = snd (Logout svc env token ip now s)"
| "handle svc env now (RequestChangePassword input) s = snd (ChangePassword svc env now input s)"
| "handle svc env now (RequestListSessions input) s = snd (ListSessions svc env now input s)"
| "handle svc env now (RequestRevokeSession input) s = snd (RevokeSession svc env now input s)"
| "handle svc env now (RequestRevokeAll input) s = snd (RevokeAllSessions svc env now input s)"
| "handle svc env now (RequestPolicy userID ip) s = snd (SessionSecurityPolicy svc env userID ip s)"

definition log_extends :: "MemoryLog \<Rightarrow> MemoryLog auth_state \<Rightarrow> bool" where
  "log_extends l s \<longleftrightarrow> log_ok (asLog s) \<and> (\<exists>new. asLog s = l @ new)"

definition env_audits :: "MemoryLog \<Rightarrow> MemoryLog env \<Rightarrow> bool" where
  "env_audits l env \<longleftrightarrow> (\<forall>k s. log_extends l s \<longrightarrow> log_extends l (env k s))"

definition ticking :: "(nat \<Rightarrow> time) \<Rightarrow> bool" where
  "ticking clock \<longleftrightarrow> (\<forall>n. microsecond \<le> clock n)"

lemma memory_logger_extends:
  assumes "log_ok l" "ticking clock" "evOccurredAt e = 0"
  shows "log_ok (snd (memory_logger clock ids e l))" "\<exists>new. snd (memory_logger clock ids e l) = l @ new"
proof -
  let ?call = "(None, clock (length l), ids (length l), e)"
  have call: "snd (memory_logger clock ids e l) = apply_append ?call l" by (simp add: memory_logger_def split: sum.splits)
  have "time_Truncate t microsecond \<noteq> 0" if "microsecond \<le> t" for t
    using that pos_mod_bound[of 1000 t] unfolding time_Truncate_def microsecond_def by linarith
  then have "timed ?call" using assms(2,3) unfolding timed.simps occurs_def ticking_def by simp
  then show "log_ok (snd (memory_logger clock ids e l))" unfolding call by (rule apply_append_ok[OF assms(1)])
  show "\<exists>new. snd (memory_logger clock ids e l) = l @ new" unfolding call by (auto split: sum.splits elim!: Append_Inr)
qed

lemma audit_append_extends:
  assumes "scAudit svc = memory_logger clock ids" "ticking clock" "log_extends l s" "evOccurredAt e = 0"
  shows "log_extends l (snd (audit_append svc e s))"
  using memory_logger_extends[of "asLog s" clock e ids] assms
  by (auto simp: log_extends_def audit_append_def case_prod_beta)

lemma log_extends_other [simp]:
  "log_extends l (s\<lparr>asStore := st\<rparr>) = log_extends l s" "log_extends l (s\<lparr>asProtector := p\<rparr>) = log_extends l s"
  by (simp_all add: log_extends_def)

lemma audit_event_time [simp]: "evOccurredAt (audit_event a out actor subject ip d) = 0"
  by (simp add: audit_event_def)

lemma handle_extends:
  assumes logger: "scAudit svc = memory_logger clock ids" "ticking clock" and env: "env_audits l env" and s: "log_extends l s"
  shows "log_extends l (handle svc env now request s)"
proof -
  have e [simp]: "log_extends l (env k x)" if "log_extends l x" for k x using env that by (simp add: env_audits_def)
  have a [simp]: "log_extends l (snd (audit_append svc ev x))" if "log_extends l x" "evOccurredAt ev = 0" for ev x
    by (rule audit_append_extends[OF logger that])
  show ?thesis using s
  proof (cases request)
    case (RequestLogin bs i input)
    have issue: "log_extends l (snd (issue_session svc env bs i now input user x))" if "log_extends l x" for user x
      using that by (simp add: issue_session_def Let_def case_prod_beta split: option.splits sum.splits)
    show ?thesis using s
      by (simp add: RequestLogin Login_def Let_def case_prod_beta login_failed_def issue split: sum.splits)
  next
    case (RequestAuthenticate token)
    then show ?thesis using s by (simp add: Authenticate_def Let_def split: option.splits sum.splits)
  next
    case (RequestLogout token ip)
    then show ?thesis using s by (simp add: Logout_def logout_audited_def Let_def case_prod_beta split: option.splits sum.splits)
  next
    case (RequestChangePassword input)
    then show ?thesis using s
      by (simp add: ChangePassword_def change_denied_def Let_def case_prod_beta split: sum.splits bool.splits)
  next
    case (RequestListSessions input)
    then show ?thesis using s by (simp add: ListSessions_def Let_def case_prod_beta split: sum.splits)
  next
    case (RequestRevokeSession input)
    then show ?thesis using s by (simp add: RevokeSession_def revoke_event_def Let_def case_prod_beta split: sum.splits)
  next
    case (RequestRevokeAll input)
    then show ?thesis using s by (simp add: RevokeAllSessions_def Let_def case_prod_beta split: sum.splits)
  next
    case (RequestPolicy userID ip)
    then show ?thesis using s by (simp add: SessionSecurityPolicy_def Let_def case_prod_beta split: sum.splits)
  qed
qed

text \<open>A history of requests, each with its time and with what other requests do meanwhile.\<close>

definition run_requests ::
  "MemoryLog Service \<Rightarrow> (MemoryLog env \<times> time \<times> auth_request) list \<Rightarrow> MemoryLog auth_state \<Rightarrow> MemoryLog auth_state" where
  "run_requests svc rs s = fold (\<lambda>(env, now, request). handle svc env now request) rs s"

lemma run_requests_extend:
  assumes "scAudit svc = memory_logger clock ids" "ticking clock" "list_all (\<lambda>(env, _). env_audits l env) rs" "log_extends l s"
  shows "log_extends l (run_requests svc rs s)"
  using assms(3,4)
proof (induction rs arbitrary: s)
  case (Cons r rs)
  obtain env now request where r: "r = (env, now, request)" by (metis prod_cases3)
  have "log_extends l (handle svc env now request s)" using Cons.prems by (intro handle_extends[OF assms(1,2)]) (simp_all add: r)
  then show ?case using Cons by (simp add: run_requests_def r)
qed (simp add: run_requests_def)

text \<open>
  C17: Authentication leaves an intact trail. Whatever requests the service handles on the memory log, with whatever other audited
  activity between their calls, no record that was in the log is changed or removed, the chain
  passes the inspection, and no stored detail holds a bearer credential or the value of a key that
  looks like one.
\<close>

theorem auth_trail_intact:
  assumes "scAudit svc = memory_logger clock ids" "ticking clock" "log_ok (asLog s)"
    and "list_all (\<lambda>(env, _). env_audits (asLog s) env) rs" "s' = run_requests svc rs s"
  shows "\<exists>new. asLog s' = asLog s @ new \<and> list_all (\<lambda>e. clean (AnyMap (evDetails e))) new
    \<and> InspectChain (\<lambda>_. None) (asLog s') = Inr \<lparr>irEventsChecked = int (length (asLog s')), irHeadHash = head_hash [] (asLog s')\<rparr>"
proof -
  have "log_extends (asLog s) s" using assms(3) by (simp add: log_extends_def)
  then have "log_extends (asLog s) s'" unfolding assms(5) by (rule run_requests_extend[OF assms(1,2,4)])
  then obtain new where new: "asLog s' = asLog s @ new" "log_ok (asLog s')" by (auto simp: log_extends_def)
  then have "list_all (\<lambda>e. clean (AnyMap (evDetails e))) new" by (simp add: log_ok_def redacted_log_def)
  then show ?thesis using new InspectChain_ok by (auto simp: log_ok_def)
qed

text \<open>The log of \<open>s\<close> is \<open>l\<close> with one login record of this outcome, actor and source.\<close>

definition login_record :: "MemoryLog \<Rightarrow> string \<Rightarrow> string \<Rightarrow> string \<Rightarrow> MemoryLog auth_state \<Rightarrow> bool" where
  "login_record l out actor ip s \<longleftrightarrow> (\<exists>e. asLog s = l @ [e] \<and> evAction e = ''auth.login'' \<and> evOutcome e = out \<and> evActorID e = actor
     \<and> evSourceIP e = ip \<and> evPreviousHash e = head_hash [] l)"

lemma login_record_store [simp]: "login_record l out actor ip (s\<lparr>asStore := st\<rparr>) = login_record l out actor ip s"
  by (simp add: login_record_def)

lemma appended_record:
  assumes "scAudit svc = memory_logger clock ids" "out = ''denied'' \<or> out = ''success''" "asLog x = l"
  shows "login_record l out actor ip (snd (audit_append svc (audit_event ''auth.login'' out actor subject ip d) x))"
proof -
  have "TrimSpace ''auth.login'' \<noteq> []" "TrimSpace out \<noteq> []" using assms(2) by (auto simp: trim_defs)
  then show ?thesis
    by (simp add: login_record_def audit_append_def assms(1,3) memory_logger_def Append_def Prepare_def Let_def audit_event_def head_hash_def)
qed


definition audited_service :: "MemoryLog Service" where
  "audited_service = demo_service\<lparr>scAudit := memory_logger (\<lambda>n. 5000 + int n * 1000) (\<lambda>n. ''id'')\<rparr>"

lemma audited: "scAudit audited_service = memory_logger (\<lambda>n. 5000 + int n * 1000) (\<lambda>n. ''id'')" "ticking (\<lambda>n. 5000 + int n * 1000)"
  by (simp_all add: audited_service_def ticking_def microsecond_def)

theorem auth_trail_intact_witness:
  "\<exists>new. asLog (run_requests audited_service [(\<lambda>_ s. s, 10, RequestLogin (Some demo_bytes) ''s1'' demo_input),
       (\<lambda>_ s. s, 20, RequestLogout demo_token ''10.0.0.1'')] demo_start) = [] @ new
    \<and> list_all (\<lambda>e. clean (AnyMap (evDetails e))) new"
proof -
  have log: "asLog demo_start = []" by (simp add: demo_start_def)
  have "log_ok (asLog demo_start)" by (simp add: log log_ok_def redacted_log_def)
  then show ?thesis using auth_trail_intact[OF audited, of demo_start "[(\<lambda>_ s. s, 10, RequestLogin (Some demo_bytes) ''s1'' demo_input),
      (\<lambda>_ s. s, 20, RequestLogout demo_token ''10.0.0.1'')]"] by (simp add: log env_audits_def)
qed


end
