(* ===== verification/Site_Sync.thy ===== *)
theory Site_Sync
  imports Go_Text
begin

text \<open>
  Package \<^verbatim>\<open>internal/sitesync\<close>, file \<^verbatim>\<open>state.go\<close>: the envelope in which desired and actual state travel
  between the global and the site controllers, and the reconciliation of an incoming revision with
  the stored one. \<^verbatim>\<open>Validate\<close> ranges over a Go map of fields: \<open>ord\<close> is the iteration order of one such
  loop, any permutation, and it decides which of several errors is returned.
\<close>

subsection \<open>Records\<close>

datatype sync_error = ErrInvalidRecord string | ErrWrongAuthority string | ErrStaleGeneration | ErrStateConflict string

datatype StateKind = DesiredState | ActualState | OtherKind string
datatype Authority = GlobalAuthority | SiteAuthority | OtherAuthority string

record StateRecord =
  srSiteID :: string
  srResourceID :: string
  srKind :: StateKind
  srAuthority :: Authority
  srGeneration :: uint64
  srResourceVersion :: string
  srPayloadHash :: string

definition validateCanonicalToken :: "string \<Rightarrow> string \<Rightarrow> sync_error + unit" where
  "validateCanonicalToken field v =
     (if v = [] \<or> TrimSpace v \<noteq> v
      then Inl (ErrInvalidRecord (field @ '' is required and must not have surrounding whitespace''))
      else if list_ex (\<lambda>r. unicode_IsSpace r \<or> unicode_IsControl r) (rune_list v)
      then Inl (ErrInvalidRecord (field @ '' contains whitespace or control characters''))
      else Inr ())"

definition record_fields :: "StateRecord \<Rightarrow> (string \<times> string) list" where
  "record_fields r = [(''site_id'', srSiteID r), (''resource_id'', srResourceID r),
     (''resource_version'', srResourceVersion r), (''payload_hash'', srPayloadHash r)]"

definition Record_Validate :: "field_order \<Rightarrow> StateRecord \<Rightarrow> sync_error + unit" where
  "Record_Validate ord r = first_error
     [first_error (map (\<lambda>(field, v). validateCanonicalToken field v) (ord (record_fields r))),
      require (srGeneration r \<noteq> 0) (ErrInvalidRecord ''generation is required''),
      (case srKind r of
         DesiredState \<Rightarrow> require (srAuthority r = GlobalAuthority) (ErrWrongAuthority ''desired state must originate globally'')
       | ActualState \<Rightarrow> require (srAuthority r = SiteAuthority) (ErrWrongAuthority ''actual state must originate at the site'')
       | OtherKind k \<Rightarrow> Inl (ErrInvalidRecord (''unknown kind '' @ k)))]"

definition Direction :: "field_order \<Rightarrow> StateRecord \<Rightarrow> sync_error + string" where
  "Direction ord r =
     (case Record_Validate ord r of Inl e \<Rightarrow> Inl e
      | Inr _ \<Rightarrow> Inr (if srKind r = DesiredState then ''global-to-site'' else ''site-to-global''))"

definition reconcile_guards :: "field_order \<Rightarrow> field_order \<Rightarrow> StateRecord \<Rightarrow> StateRecord \<Rightarrow> sync_error + unit" where
  "reconcile_guards ord ord' current incoming = first_error
     [Record_Validate ord current, Record_Validate ord' incoming,
      require (\<not> (srSiteID current \<noteq> srSiteID incoming \<or> srResourceID current \<noteq> srResourceID incoming
                  \<or> srKind current \<noteq> srKind incoming)) (ErrInvalidRecord ''identity mismatch''),
      require (srAuthority current = srAuthority incoming) (ErrWrongAuthority []),
      require (\<not> srGeneration incoming < srGeneration current) ErrStaleGeneration]"

text \<open>The result is the record to keep and whether it replaces the stored one.\<close>

definition Reconcile :: "field_order \<Rightarrow> field_order \<Rightarrow> StateRecord \<Rightarrow> StateRecord \<Rightarrow> sync_error + StateRecord \<times> bool" where
  "Reconcile ord ord' current incoming =
     (case reconcile_guards ord ord' current incoming
      of Inl e \<Rightarrow> Inl e
       | Inr _ \<Rightarrow>
         (if srGeneration incoming = srGeneration current
          then (if srResourceVersion incoming = srResourceVersion current \<and> srPayloadHash incoming = srPayloadHash current
                then Inr (current, False)
                else Inl (ErrStateConflict (srSiteID current @ ''/'' @ srResourceID current @ '' generation ''
                  @ show_uint64 (srGeneration current) @ '' diverged'')))
          else Inr (incoming, True)))"

subsection \<open>Delivery\<close>

text \<open>A replica keeps its record when the reconciliation is refused. A delivery carries the two iteration orders of its validations.\<close>

type_synonym delivery = "field_order \<times> field_order \<times> StateRecord"

fun deliver :: "delivery list \<Rightarrow> StateRecord \<Rightarrow> StateRecord" where
  "deliver [] current = current"
| "deliver ((ord, ord', incoming) # ds) current =
     deliver ds (case Reconcile ord ord' current incoming of Inl _ \<Rightarrow> current | Inr (r, _) \<Rightarrow> r)"

definition delivery_ok :: "delivery \<Rightarrow> bool" where
  "delivery_ok d \<longleftrightarrow> order_ok (fst d) \<and> order_ok (fst (snd d))"

definition delivered :: "delivery list \<Rightarrow> StateRecord set" where
  "delivered ds = (\<lambda>d. snd (snd d)) ` set ds"

definition token_ok :: "string \<Rightarrow> bool" where
  "token_ok v \<longleftrightarrow> validateCanonicalToken [] v = Inr ()"

definition valid_record :: "StateRecord \<Rightarrow> bool" where
  "valid_record r \<longleftrightarrow> token_ok (srSiteID r) \<and> token_ok (srResourceID r) \<and> token_ok (srResourceVersion r) \<and> token_ok (srPayloadHash r)
     \<and> srGeneration r \<noteq> 0
     \<and> (srKind r = DesiredState \<and> srAuthority r = GlobalAuthority \<or> srKind r = ActualState \<and> srAuthority r = SiteAuthority)"

definition same_state :: "StateRecord \<Rightarrow> StateRecord \<Rightarrow> bool" where
  "same_state a b \<longleftrightarrow> srSiteID a = srSiteID b \<and> srResourceID a = srResourceID b \<and> srKind a = srKind b"

text \<open>The authority of a state gives a generation one content.\<close>

definition single_writer :: "StateRecord set \<Rightarrow> bool" where
  "single_writer S \<longleftrightarrow> (\<forall>a \<in> S. \<forall>b \<in> S. valid_record a \<and> valid_record b \<and> same_state a b \<and> srGeneration a = srGeneration b \<longrightarrow> a = b)"

lemma token_iff: "validateCanonicalToken field v = Inr () \<longleftrightarrow> token_ok v"
  by (simp add: token_ok_def validateCanonicalToken_def)

lemma Record_Validate_iff:
  assumes "order_ok ord"
  shows "Record_Validate ord r = Inr () \<longleftrightarrow> valid_record r"
proof -
  show ?thesis
    by (auto simp: order_ok_set[OF assms] Record_Validate_def valid_record_def token_iff record_fields_def split: StateKind.splits)
qed

lemma valid_authority: "valid_record a \<Longrightarrow> valid_record b \<Longrightarrow> same_state a b \<Longrightarrow> srAuthority a = srAuthority b"
  by (auto simp: valid_record_def same_state_def)

text \<open>What a replica with a valid record does with a delivery.\<close>

lemma reconcile_guards_iff:
  assumes "order_ok ord" "order_ok ord'"
  shows "reconcile_guards ord ord' current incoming = Inr () \<longleftrightarrow> valid_record current \<and> valid_record incoming
    \<and> same_state current incoming \<and> srGeneration current \<le> srGeneration incoming"
proof -
  have "reconcile_guards ord ord' current incoming = Inr () \<longleftrightarrow> valid_record current \<and> valid_record incoming
      \<and> same_state current incoming \<and> srAuthority current = srAuthority incoming \<and> srGeneration current \<le> srGeneration incoming"
    unfolding reconcile_guards_def first_error_Inr
    by (simp add: Record_Validate_iff[OF assms(1)] Record_Validate_iff[OF assms(2)] same_state_def not_less conj_ac)
  then show ?thesis using valid_authority by blast
qed

lemma deliver_one:
  assumes "delivery_ok (ord, ord', incoming)" "valid_record current"
  shows "(case Reconcile ord ord' current incoming of Inl _ \<Rightarrow> current | Inr (r, _) \<Rightarrow> r) =
    (if valid_record incoming \<and> same_state current incoming \<and> srGeneration current < srGeneration incoming then incoming else current)"
proof -
  have "order_ok ord" "order_ok ord'" using assms(1) by (simp_all add: delivery_ok_def)
  note guards = reconcile_guards_iff[OF this, of current incoming]
  show ?thesis
  proof (cases "reconcile_guards ord ord' current incoming")
    case (Inl e)
    then have "\<not> (valid_record incoming \<and> same_state current incoming \<and> srGeneration current < srGeneration incoming)"
      using guards assms(2) by auto
    then show ?thesis by (auto simp: Reconcile_def Inl)
  next
    case (Inr u)
    then have "valid_record incoming" "same_state current incoming" "srGeneration current \<le> srGeneration incoming"
      using guards by auto
    then show ?thesis by (auto simp: Reconcile_def Inr)
  qed
qed

lemma deliver_newest:
  assumes "list_all delivery_ok ds" "valid_record current"
  shows "deliver ds current \<in> insert current {r \<in> delivered ds. valid_record r \<and> same_state current r}"
    and "\<forall>r \<in> insert current {r \<in> delivered ds. valid_record r \<and> same_state current r}. srGeneration r \<le> srGeneration (deliver ds current)"
proof -
  have "deliver ds current \<in> insert current {r \<in> delivered ds. valid_record r \<and> same_state current r}
      \<and> (\<forall>r \<in> insert current {r \<in> delivered ds. valid_record r \<and> same_state current r}. srGeneration r \<le> srGeneration (deliver ds current))"
    using assms
  proof (induction ds arbitrary: current)
    case (Cons d ds)
    obtain ord ord' r where d: "d = (ord, ord', r)" by (metis prod_cases3)
    let ?new = "valid_record r \<and> same_state current r \<and> srGeneration current < srGeneration r"
    have step: "deliver (d # ds) current = deliver ds (if ?new then r else current)"
      using deliver_one[of ord ord' r current] Cons.prems by (simp add: d)
    have all: "delivered (d # ds) = insert r (delivered ds)" by (simp add: d delivered_def)
    show ?case
    proof (cases ?new)
      case True
      then have same: "same_state current x \<longleftrightarrow> same_state r x" for x by (auto simp: same_state_def)
      have ih: "deliver ds r \<in> insert r {x \<in> delivered ds. valid_record x \<and> same_state r x}"
        "\<forall>x \<in> insert r {x \<in> delivered ds. valid_record x \<and> same_state r x}. srGeneration x \<le> srGeneration (deliver ds r)"
        using Cons.IH[of r] Cons.prems True by auto
      then have "srGeneration current \<le> srGeneration (deliver ds r)" using True by (auto intro: order.trans[of _ "srGeneration r"])
      then show ?thesis using ih True unfolding step all by (auto simp: same)
    next
      case False
      have ih: "deliver ds current \<in> insert current {x \<in> delivered ds. valid_record x \<and> same_state current x}"
        "\<forall>x \<in> insert current {x \<in> delivered ds. valid_record x \<and> same_state current x}. srGeneration x \<le> srGeneration (deliver ds current)"
        using Cons.IH[of current] Cons.prems by auto
      then have "valid_record r \<and> same_state current r \<longrightarrow> srGeneration r \<le> srGeneration (deliver ds current)"
        using False by (auto intro: order.trans[of _ "srGeneration current"])
      then show ?thesis using ih False unfolding step all by auto
    qed
  qed (simp add: delivered_def)
  then show "deliver ds current \<in> insert current {r \<in> delivered ds. valid_record r \<and> same_state current r}"
    "\<forall>r \<in> insert current {r \<in> delivered ds. valid_record r \<and> same_state current r}. srGeneration r \<le> srGeneration (deliver ds current)"
    by blast+
qed

text \<open>
  C18: Site state converges. Two replicas that start from the same valid record and receive the same records, in any order and
  any number of times, end with the same record, which is the valid revision of this state with the
  highest generation, provided the authority of the state never gives one generation two contents.
  Invalid records, records of other states and records of the wrong authority change nothing.
\<close>

theorem site_state_converges:
  assumes "valid_record current" "list_all delivery_ok xs" "list_all delivery_ok ys" "delivered xs = delivered ys"
    and "single_writer (insert current (delivered xs))"
  shows "deliver xs current = deliver ys current
    \<and> srGeneration (deliver xs current) =
        Max (srGeneration ` insert current {r \<in> delivered xs. valid_record r \<and> same_state current r})"
proof
  let ?S = "insert current {r \<in> delivered xs. valid_record r \<and> same_state current r}"
  have x: "deliver xs current \<in> ?S" "\<forall>r \<in> ?S. srGeneration r \<le> srGeneration (deliver xs current)"
    using deliver_newest[OF assms(2,1)] by blast+
  have y: "deliver ys current \<in> ?S" "\<forall>r \<in> ?S. srGeneration r \<le> srGeneration (deliver ys current)"
    using deliver_newest[OF assms(3,1)] assms(4) by simp_all
  have "srGeneration (deliver xs current) = srGeneration (deliver ys current)" using x y by (intro order.antisym) auto
  moreover have "valid_record r \<and> same_state current r" if "r \<in> ?S" for r using that assms(1) by (auto simp: same_state_def)
  ultimately show "deliver xs current = deliver ys current"
    using x(1) y(1) assms(5) unfolding single_writer_def same_state_def
    by (metis (no_types, lifting) insert_iff mem_Collect_eq)
  have "finite ?S" by (simp add: delivered_def)
  then show "srGeneration (deliver xs current) = Max (srGeneration ` ?S)" using x by (intro Max_eqI[symmetric]) auto
qed

definition w_state :: "uint64 \<Rightarrow> string \<Rightarrow> StateRecord" where
  "w_state g h = \<lparr>srSiteID = ''site-1'', srResourceID = ''node-7'', srKind = DesiredState, srAuthority = GlobalAuthority,
     srGeneration = g, srResourceVersion = ''v'', srPayloadHash = h\<rparr>"

definition w_order :: field_order where "w_order xs = rev xs"

lemma w_order_ok: "order_ok w_order" "order_ok id"
  by (simp_all add: order_ok_def w_order_def)

lemma graphic_token: "v \<noteq> [] \<Longrightarrow> list_all graphic v \<Longrightarrow> token_ok v"
  using graphic_not_control
  by (auto simp: token_ok_def validateCanonicalToken_def TrimSpace_graphic rune_list_graphic list_ex_iff list_all_iff)

theorem site_state_converges_witness:
  "deliver [(id, id, w_state 3 ''c''), (w_order, id, w_state 2 ''b'')] (w_state 1 ''a'') =
     deliver [(id, w_order, w_state 2 ''b''), (id, id, w_state 3 ''c''), (id, id, w_state 2 ''b'')] (w_state 1 ''a'')
   \<and> srGeneration (deliver [(id, id, w_state 3 ''c''), (w_order, id, w_state 2 ''b'')] (w_state 1 ''a'')) = 3"
proof -
  have valid: "valid_record (w_state g h)" if "g \<noteq> 0" "h \<noteq> []" "list_all graphic h" for g h
    using that by (auto simp: valid_record_def w_state_def intro!: graphic_token) (simp_all add: graphic_def)
  let ?xs = "[(id, id, w_state 3 ''c''), (w_order, id, w_state 2 ''b'')]"
  let ?ys = "[(id, w_order, w_state 2 ''b''), (id, id, w_state 3 ''c''), (id, id, w_state 2 ''b'')]"
  have all: "delivered ?xs = {w_state 2 ''b'', w_state 3 ''c''}" "delivered ?ys = {w_state 2 ''b'', w_state 3 ''c''}"
    by (auto simp: delivered_def)
  have v: "valid_record (w_state 1 ''a'')" "valid_record (w_state 2 ''b'')" "valid_record (w_state 3 ''c'')"
    by (simp_all add: valid graphic_def)
  have set: "insert (w_state 1 ''a'') {r \<in> delivered ?xs. valid_record r \<and> same_state (w_state 1 ''a'') r}
      = {w_state 1 ''a'', w_state 2 ''b'', w_state 3 ''c''}"
    using v by (auto simp: all) (simp_all add: same_state_def w_state_def)
  have "srGeneration ` {w_state 1 ''a'', w_state 2 ''b'', w_state 3 ''c''} = {1, 2, 3}" by (simp add: w_state_def)
  then have m: "Max (srGeneration ` {w_state 1 ''a'', w_state 2 ''b'', w_state 3 ''c''}) = 3" by (simp add: max_def)
  have "single_writer (insert (w_state 1 ''a'') (delivered ?xs))" unfolding all by (auto simp: single_writer_def w_state_def)
  moreover have "list_all delivery_ok ?xs" "list_all delivery_ok ?ys" "delivered ?xs = delivered ?ys"
    by (simp_all add: delivery_ok_def w_order_ok all)
  ultimately show ?thesis using site_state_converges[OF v(1), of ?xs ?ys] unfolding set m by blast
qed

end
