(* ===== verification/Site_Hierarchy.thy ===== *)
theory Site_Hierarchy
  imports Go_Text
begin

text \<open>
  Package \<^verbatim>\<open>internal/site\<close>, file \<^verbatim>\<open>model.go\<close>: the hierarchy of sites. The search for cycles visits the sites in
  the order \<open>ord\<close> of a Go map and colours them; the loop of \<^verbatim>\<open>Lineage\<close> follows parents without a bound of its
  own, so it is a partial function whose value None stands for a loop that does not return.
\<close>

subsection \<open>Sites\<close>

datatype site_error = ErrInvalidSite string | ErrDuplicateSite string | ErrMissingParent string string | ErrHierarchyCycle string

record Site =
  siID :: string
  siName :: string
  siParentID :: string
  siDelegated :: bool

definition Site_Validate :: "Site \<Rightarrow> site_error + unit" where
  "Site_Validate s = first_error
     [require (TrimSpace (siID s) \<noteq> []) (ErrInvalidSite ''empty id''),
      require (TrimSpace (siName s) \<noteq> []) (ErrInvalidSite (''empty name for '' @ siID s)),
      require (\<not> (siParentID s \<noteq> [] \<and> siParentID s = siID s)) (ErrHierarchyCycle (siID s))]"

type_synonym site_index = "(string \<times> Site) list"

fun index_loop :: "site_index \<Rightarrow> Site list \<Rightarrow> site_error + site_index" where
  "index_loop byID [] = Inr byID"
| "index_loop byID (c # cs) =
     (case Site_Validate c of Inl e \<Rightarrow> Inl e
      | Inr _ \<Rightarrow> (if gget byID (siID c) \<noteq> None then Inl (ErrDuplicateSite (siID c)) else index_loop (gput (siID c) c byID) cs))"

subsection \<open>Search for cycles\<close>

text \<open>\<^verbatim>\<open>byID[id].ParentID\<close>: a missing key gives the zero site.\<close>

definition parent :: "site_index \<Rightarrow> string \<Rightarrow> string" where
  "parent byID x = (case gget byID x of None \<Rightarrow> [] | Some s \<Rightarrow> siParentID s)"

datatype colour = Visiting | Visited

function visit :: "site_index \<Rightarrow> (string \<times> colour) list \<Rightarrow> string \<Rightarrow> site_error + (string \<times> colour) list" where
  "visit byID state x =
     (case gget state x of
        Some Visiting \<Rightarrow> Inl (ErrHierarchyCycle x)
      | Some Visited \<Rightarrow> Inr state
      | None \<Rightarrow>
        (let state1 = gput x Visiting state in
         if parent byID x \<noteq> []
         then (case visit byID state1 (parent byID x) of Inl e \<Rightarrow> Inl e | Inr state2 \<Rightarrow> Inr (gput x Visited state2))
         else Inr (gput x Visited state1)))"
  by pat_completeness auto

lemma parent_key: "parent byID x \<noteq> [] \<Longrightarrow> x \<in> set (gkeys byID)"
  unfolding parent_def gget_key_iff by (auto split: option.splits)

termination visit
proof (relation "measure (\<lambda>(byID, state, x). card (set (gkeys byID) - set (gkeys state)))", goal_cases)
  case (2 byID state x state1)
  have "x \<notin> set (gkeys state)"
    using 2(1) gget_key_iff[of x state] by simp
  then have "set (gkeys byID) - set (gkeys state1) \<subset> set (gkeys byID) - set (gkeys state)"
    using parent_key[OF 2(3)] unfolding 2(2) gkeys_gput by blast
  then show ?case
    by (auto intro!: psubset_card_mono)
qed simp

declare visit.simps [simp del]

fun visit_loop :: "site_index \<Rightarrow> (string \<times> colour) list \<Rightarrow> string list \<Rightarrow> site_error + unit" where
  "visit_loop byID state [] = Inr ()"
| "visit_loop byID state (x # xs) =
     (if gget state x = None then (case visit byID state x of Inl e \<Rightarrow> Inl e | Inr state' \<Rightarrow> visit_loop byID state' xs)
      else visit_loop byID state xs)"

definition ValidateHierarchy :: "(string list \<Rightarrow> string list) \<Rightarrow> Site list \<Rightarrow> site_error + unit" where
  "ValidateHierarchy ord sites =
     (case index_loop [] sites of Inl e \<Rightarrow> Inl e
      | Inr byID \<Rightarrow>
     (case first_error (map (\<lambda>c. require (siParentID c = [] \<or> gget byID (siParentID c) \<noteq> None)
             (ErrMissingParent (siID c) (siParentID c))) sites) of Inl e \<Rightarrow> Inl e
      | Inr _ \<Rightarrow> visit_loop byID [] (ord (gkeys byID))))"

subsection \<open>Lineage\<close>

definition zero_site :: Site where
  "zero_site = \<lparr>siID = [], siName = [], siParentID = [], siDelegated = False\<rparr>"

definition lookup_site :: "site_index \<Rightarrow> string \<Rightarrow> Site" where
  "lookup_site byID x = (case gget byID x of None \<Rightarrow> zero_site | Some s \<Rightarrow> s)"

partial_function (option) lineage_loop :: "site_index \<Rightarrow> Site \<Rightarrow> string list \<Rightarrow> string list option" where
  "lineage_loop byID current lineage =
     (if siParentID current \<noteq> []
      then lineage_loop byID (lookup_site byID (siParentID current)) (lineage @ [siID (lookup_site byID (siParentID current))])
      else Some lineage)"

definition Lineage :: "(string list \<Rightarrow> string list) \<Rightarrow> string \<Rightarrow> Site list \<Rightarrow> (site_error + string list) option" where
  "Lineage ord x sites =
     (case ValidateHierarchy ord sites of Inl e \<Rightarrow> Some (Inl e)
      | Inr _ \<Rightarrow>
        (let byID = foldl (\<lambda>m c. gput (siID c) c m) [] sites in
         case gget byID x of None \<Rightarrow> Some (Inl (ErrInvalidSite (''unknown site '' @ x)))
         | Some current \<Rightarrow> map_option (\<lambda>lineage. Inr (rev lineage)) (lineage_loop byID current [siID current])))"

subsection \<open>The index\<close>

definition indexed :: "Site list \<Rightarrow> site_index" where
  "indexed sites = map (\<lambda>s. (siID s, s)) sites"

definition sites_ok :: "Site list \<Rightarrow> bool" where
  "sites_ok sites \<longleftrightarrow> (\<forall>s \<in> set sites. Site_Validate s = Inr ()) \<and> distinct (map siID sites)"

lemma indexed_key: "gget (indexed sites) x \<noteq> None \<longleftrightarrow> x \<in> siID ` set sites"
  by (induction sites) (auto simp: indexed_def)

lemma index_loop_iff:
  "index_loop (indexed done) cs = Inr byID \<longleftrightarrow>
     (\<forall>s \<in> set cs. Site_Validate s = Inr ()) \<and> distinct (map siID cs) \<and> siID ` set cs \<inter> siID ` set done = {} \<and> byID = indexed (done @ cs)"
proof (induction cs arbitrary: "done")
  case (Cons c cs)
  have "gput (siID c) c (indexed done) = indexed (done @ [c])" if "gget (indexed done) (siID c) = None"
    using that by (simp add: gput_fresh) (simp add: indexed_def)
  then show ?case
    using Cons.IH[of "done @ [c]"] indexed_key[of "done" "siID c"] by (auto simp: early_return_Inr)
qed auto

lemma fold_index: "distinct (map siID (done @ cs)) \<Longrightarrow> foldl (\<lambda>m c. gput (siID c) c m) (indexed done) cs = indexed (done @ cs)"
proof (induction cs arbitrary: "done")
  case (Cons c cs)
  then have "gget (indexed done) (siID c) = None"
    using indexed_key[of "done" "siID c"] by auto
  then have "gput (siID c) c (indexed done) = indexed (done @ [c])"
    by (simp add: gput_fresh) (simp add: indexed_def)
  then show ?case
    using Cons.IH[of "done @ [c]"] Cons.prems by simp
qed simp

subsection \<open>Chains of parents\<close>

definition links :: "site_index \<Rightarrow> (string \<times> string) set" where
  "links byID = {(x, y). parent byID x = y \<and> y \<noteq> []}"

inductive rooted :: "site_index \<Rightarrow> string \<Rightarrow> bool" for byID where
  root: "parent byID x = [] \<Longrightarrow> rooted byID x"
| child: "rooted byID (parent byID x) \<Longrightarrow> rooted byID x"

lemma rooted_no_cycle: "rooted byID x \<Longrightarrow> (x, x) \<notin> (links byID)\<^sup>+"
proof (induction rule: rooted.induct)
  case (root x)
  then show ?case
    by (auto simp: links_def dest: tranclD)
next
  case (child x)
  show ?case
  proof
    assume "(x, x) \<in> (links byID)\<^sup>+"
    then have "(x, parent byID x) \<in> links byID" "(parent byID x, x) \<in> (links byID)\<^sup>*"
      by (auto simp: links_def dest!: tranclD)
    then show False
      using child.IH by (meson rtrancl_into_trancl1)
  qed
qed

text \<open>
  A visit that returns leaves the colours \<open>Visiting\<close> as they were and colours only sites whose chain of
  parents ends; a visit that fails has closed a cycle.
\<close>

definition visiting :: "(string \<times> colour) list \<Rightarrow> string set" where
  "visiting state = {x. gget state x = Some Visiting}"

definition sound :: "site_index \<Rightarrow> (string \<times> colour) list \<Rightarrow> bool" where
  "sound byID state \<longleftrightarrow> (\<forall>x. gget state x = Some Visited \<longrightarrow> rooted byID x)"

lemma sound_gput: "sound byID state \<Longrightarrow> rooted byID x \<Longrightarrow> sound byID (gput x Visited state)"
  "sound byID state \<Longrightarrow> sound byID (gput x Visiting state)"
  by (auto simp: sound_def)

lemma visiting_gput: "visiting (gput x Visiting state) = insert x (visiting state)"
  "visiting (gput x Visited state) = visiting state - {x}"
  by (auto simp: visiting_def)

lemma visit_step:
  "gget state x = None \<Longrightarrow> parent byID x \<noteq> [] \<Longrightarrow> visit byID state x =
     (case visit byID (gput x Visiting state) (parent byID x) of Inl e \<Rightarrow> Inl e | Inr state2 \<Rightarrow> Inr (gput x Visited state2))"
  "gget state x = None \<Longrightarrow> parent byID x = [] \<Longrightarrow> visit byID state x = Inr (gput x Visited (gput x Visiting state))"
  "gget state x = Some Visited \<Longrightarrow> visit byID state x = Inr state"
  "gget state x = Some Visiting \<Longrightarrow> visit byID state x = Inl (ErrHierarchyCycle x)"
  by (subst visit.simps, simp)+

lemma visit_Inr:
  "visit byID state x = Inr state' \<Longrightarrow> sound byID state \<Longrightarrow>
     sound byID state' \<and> rooted byID x \<and> visiting state' = visiting state"
proof (induction byID state x arbitrary: state' rule: visit.induct)
  case (1 byID state x)
  consider "gget state x = Some Visiting" | "gget state x = Some Visited"
    | "gget state x = None" "parent byID x = []" | "gget state x = None" "parent byID x \<noteq> []"
    by (metis colour.exhaust option.exhaust)
  then show ?case
  proof cases
    case 3
    then show ?thesis
      using 1(2,3) by (auto simp: visit_step visiting_def intro!: sound_gput rooted.root split: if_splits)
  next
    case 4
    then obtain state2 where state2: "visit byID (gput x Visiting state) (parent byID x) = Inr state2" "state' = gput x Visited state2"
      using 1(2) by (auto simp: visit_step early_return_Inr)
    have "sound byID state2 \<and> rooted byID (parent byID x) \<and> visiting state2 = visiting (gput x Visiting state)"
      by (rule 1(1)[OF 4(1) refl 4(2) state2(1) sound_gput(2)[OF 1(3)]])
    moreover have "x \<notin> visiting state"
      using 4(1) by (simp add: visiting_def)
    ultimately show ?thesis
      unfolding state2(2) visiting_gput by (auto intro: sound_gput rooted.child)
  qed (use 1(2,3) in \<open>auto simp: visit_step sound_def\<close>)
qed

lemma visit_Inl:
  "visit byID state x = Inl e \<Longrightarrow> \<forall>y \<in> visiting state. (y, x) \<in> (links byID)\<^sup>+ \<Longrightarrow> \<not> acyclic (links byID)"
proof (induction byID state x rule: visit.induct)
  case (1 byID state x)
  consider "gget state x = Some Visiting" | "gget state x = Some Visited"
    | "gget state x = None" "parent byID x = []" | "gget state x = None" "parent byID x \<noteq> []"
    by (metis colour.exhaust option.exhaust)
  then show ?case
  proof cases
    case 1
    then show ?thesis
      using \<open>\<forall>y \<in> visiting state. (y, x) \<in> (links byID)\<^sup>+\<close> by (auto simp: visiting_def acyclic_def)
  next
    case 4
    then have "visit byID (gput x Visiting state) (parent byID x) = Inl e"
      using 1(2) by (auto simp: visit_step split: sum.splits)
    moreover have "(x, parent byID x) \<in> links byID"
      using 4 by (simp add: links_def)
    then have "\<forall>y \<in> visiting (gput x Visiting state). (y, parent byID x) \<in> (links byID)\<^sup>+"
      using 1(3) unfolding visiting_gput by (auto intro: trancl_into_trancl)
    ultimately show ?thesis
      using 1(1)[OF 4(1) refl 4(2)] by blast
  qed (use 1(2) in \<open>auto simp: visit_step\<close>)
qed

lemma visit_loop_iff:
  "sound byID state \<Longrightarrow> visiting state = {} \<Longrightarrow>
     (visit_loop byID state xs = Inr () \<longrightarrow> (\<forall>x \<in> set xs. rooted byID x)) \<and> (acyclic (links byID) \<longrightarrow> visit_loop byID state xs = Inr ())"
proof (induction xs arbitrary: state)
  case (Cons x xs)
  show ?case
  proof (cases "gget state x")
    case None
    show ?thesis
    proof (cases "visit byID state x")
      case (Inl e)
      then show ?thesis
        using visit_Inl[OF Inl] Cons.prems(2) None by auto
    next
      case (Inr state')
      then show ?thesis
        using visit_Inr[OF Inr Cons.prems(1)] Cons.IH[of state'] Cons.prems(2) None by auto
    qed
  next
    case (Some c)
    then have "c = Visited"
      using Cons.prems(2) by (cases c) (auto simp: visiting_def)
    then have "rooted byID x"
      using Cons.prems(1) Some by (auto simp: sound_def)
    then show ?thesis
      using Cons.IH[OF Cons.prems] Some by simp
  qed
qed simp

subsection \<open>Hierarchies\<close>

definition edges :: "Site list \<Rightarrow> (string \<times> string) set" where
  "edges sites = {(siID s, siParentID s) |s. s \<in> set sites \<and> siParentID s \<noteq> []}"

definition hierarchy_ok :: "Site list \<Rightarrow> bool" where
  "hierarchy_ok sites \<longleftrightarrow> (\<forall>s \<in> set sites. TrimSpace (siID s) \<noteq> [] \<and> TrimSpace (siName s) \<noteq> []) \<and> distinct (map siID sites)
     \<and> (\<forall>s \<in> set sites. siParentID s = [] \<or> siParentID s \<in> siID ` set sites) \<and> acyclic (edges sites)"

lemma indexed_site: "distinct (map siID sites) \<Longrightarrow> s \<in> set sites \<Longrightarrow> gget (indexed sites) (siID s) = Some s"
  by (simp add: indexed_def comp_def)

lemma indexed_lookup: "gget (indexed sites) x = Some s \<Longrightarrow> s \<in> set sites \<and> siID s = x"
  by (induction sites) (auto simp: indexed_def split: if_splits)

lemma links_edges: "distinct (map siID sites) \<Longrightarrow> links (indexed sites) = edges sites"
  by (auto simp: links_def edges_def parent_def indexed_site dest!: indexed_lookup split: option.splits)

lemma rooted_acyclic:
  assumes "\<forall>x \<in> set (gkeys byID). rooted byID x"
  shows "acyclic (links byID)"
proof (rule acyclicI, rule allI, rule notI)
  fix x
  assume cycle: "(x, x) \<in> (links byID)\<^sup>+"
  then have "parent byID x \<noteq> []"
    by (auto simp: links_def dest!: tranclD)
  from parent_key[OF this] show False
    using assms rooted_no_cycle cycle by blast
qed

lemma acyclic_self: "acyclic (edges sites) \<Longrightarrow> s \<in> set sites \<Longrightarrow> siParentID s = [] \<or> siParentID s \<noteq> siID s"
  by (auto simp: acyclic_def edges_def)

lemma visit_all_iff:
  assumes "order_ok ord" "distinct (map siID sites)"
  shows "visit_loop (indexed sites) [] (ord (gkeys (indexed sites))) = Inr () \<longleftrightarrow> acyclic (edges sites)"
  using visit_loop_iff[of "indexed sites" "[]" "ord (gkeys (indexed sites))"] rooted_acyclic[of "indexed sites"]
  by (auto simp: sound_def visiting_def links_edges[OF assms(2)] order_ok_set[OF assms(1)])

lemma ValidateHierarchy_iff:
  assumes "order_ok ord"
  shows "ValidateHierarchy ord sites = Inr () \<longleftrightarrow> hierarchy_ok sites"
proof -
  have "ValidateHierarchy ord sites = Inr () \<longleftrightarrow> sites_ok sites \<and> (\<forall>s \<in> set sites. siParentID s = [] \<or> siParentID s \<in> siID ` set sites)
      \<and> acyclic (edges sites)"
    using index_loop_iff[of "[]" sites] visit_all_iff[OF assms, of sites] indexed_key[of sites]
    by (auto simp: ValidateHierarchy_def early_return_Inr sites_ok_def indexed_def)
  then show ?thesis
    using acyclic_self[of sites] by (auto simp: hierarchy_ok_def sites_ok_def Site_Validate_def)
qed

lemma hierarchy_rooted:
  assumes "hierarchy_ok sites" "s \<in> set sites"
  shows "rooted (indexed sites) (siID s)"
proof -
  have "order_ok (id :: string list \<Rightarrow> string list)"
    by (simp add: order_ok_def)
  then have "visit_loop (indexed sites) [] (id (gkeys (indexed sites))) = Inr ()"
    using assms(1) visit_all_iff by (auto simp only: hierarchy_ok_def)
  moreover have "sound (indexed sites) []" "visiting [] = {}"
    by (simp_all add: sound_def visiting_def)
  ultimately have "\<forall>x \<in> set (id (gkeys (indexed sites))). rooted (indexed sites) x"
    using visit_loop_iff by blast
  then show ?thesis
    using assms(2) by (simp add: indexed_def)
qed

subsection \<open>Lineages\<close>

text \<open>A path from a site up to a root: every site is followed by its parent and the last one has none.\<close>

fun upward :: "Site list \<Rightarrow> string list \<Rightarrow> bool" where
  "upward sites [] = False"
| "upward sites [x] = (\<exists>s \<in> set sites. siID s = x \<and> siParentID s = [])"
| "upward sites (x # y # path) = ((x, y) \<in> edges sites \<and> upward sites (y # path))"

lemma upward_above: "upward sites (x # path) \<Longrightarrow> y \<in> set path \<Longrightarrow> (x, y) \<in> (edges sites)\<^sup>+"
  by (induction sites "x # path" arbitrary: x path rule: upward.induct) (auto intro: trancl_into_trancl2)

lemma upward_distinct: "acyclic (edges sites) \<Longrightarrow> upward sites path \<Longrightarrow> distinct path"
proof (induction sites path rule: upward.induct)
  case (3 sites x y path)
  then show ?case
    using upward_above[of sites x "y # path" x] by (auto simp: acyclic_def)
qed auto

lemma lineage_loop_returns:
  assumes "hierarchy_ok sites" "rooted (indexed sites) x"
  shows "s \<in> set sites \<Longrightarrow> siID s = x \<Longrightarrow>
    \<exists>path. (\<forall>acc. lineage_loop (indexed sites) s acc = Some (acc @ path)) \<and> upward sites (x # path)"
  using assms(2)
proof (induction arbitrary: s rule: rooted.induct)
  case (root x)
  then have "siParentID s = []"
    using assms(1) indexed_site[of sites s] by (simp add: hierarchy_ok_def parent_def)
  then show ?case
    using root by (intro exI[of _ "[]"]) (auto simp: lineage_loop.simps)
next
  case (child x)
  have p: "parent (indexed sites) x = siParentID s"
    using assms(1) child.prems indexed_site[of sites s] by (auto simp: hierarchy_ok_def parent_def)
  show ?case
  proof (cases "siParentID s = []")
    case True
    then show ?thesis
      using child.prems by (intro exI[of _ "[]"]) (auto simp: lineage_loop.simps)
  next
    case False
    then obtain t where t: "t \<in> set sites" "siID t = siParentID s"
      using assms(1) child.prems by (fastforce simp: hierarchy_ok_def)
    then obtain path where path: "\<forall>acc. lineage_loop (indexed sites) t acc = Some (acc @ path)" "upward sites (siParentID s # path)"
      using child.IH[OF t(1)] unfolding p by auto
    have "lookup_site (indexed sites) (siParentID s) = t"
      using indexed_site[of sites t] t assms(1) by (simp add: lookup_site_def hierarchy_ok_def)
    then have "lineage_loop (indexed sites) s acc = Some (acc @ siParentID s # path)" for acc
      using False path(1) t(2) by (simp add: lineage_loop.simps[of _ s])
    moreover have "(x, siParentID s) \<in> edges sites"
      using child.prems False by (auto simp: edges_def)
    ultimately show ?thesis
      using path(2) by (intro exI[of _ "siParentID s # path"]) simp
  qed
qed

text \<open>
  C19: The hierarchy check accepts, whatever the order of its map, exactly the lists of named sites with distinct ids and existing
  parents in which the parent links have no cycle. On such a list the lineage of every site returns: it is the path from a root
  down the parent links to that site, without repetition.
\<close>

theorem site_hierarchy_exact:
  assumes "order_ok ord"
  shows "(ValidateHierarchy ord sites = Inr () \<longleftrightarrow> hierarchy_ok sites)
    \<and> (hierarchy_ok sites \<and> x \<in> siID ` set sites \<longrightarrow>
         (\<exists>path. Lineage ord x sites = Some (Inr path) \<and> last path = x \<and> upward sites (rev path) \<and> distinct path))"
proof (intro conjI impI ValidateHierarchy_iff[OF assms])
  assume ok: "hierarchy_ok sites \<and> x \<in> siID ` set sites"
  then obtain s where s: "s \<in> set sites" "siID s = x"
    by auto
  obtain path where path: "\<forall>acc. lineage_loop (indexed sites) s acc = Some (acc @ path)" "upward sites (x # path)"
    using lineage_loop_returns[OF _ _ s] hierarchy_rooted[OF _ s(1)] ok s(2) by auto
  have "foldl (\<lambda>m c. gput (siID c) c m) [] sites = indexed sites" "gget (indexed sites) x = Some s"
    using fold_index[of "[]" sites] indexed_site[of sites s] ok s by (auto simp: hierarchy_ok_def indexed_def)
  then have "Lineage ord x sites = Some (Inr (rev (x # path)))"
    using ok path(1) s(2) ValidateHierarchy_iff[OF assms, of sites] by (simp add: Lineage_def)
  moreover have "distinct (x # path)"
    using upward_distinct[OF _ path(2)] ok unfolding hierarchy_ok_def by blast
  ultimately show "\<exists>path. Lineage ord x sites = Some (Inr path) \<and> last path = x \<and> upward sites (rev path) \<and> distinct path"
    using path(2) by (intro exI[of _ "rev (x # path)"]) simp
qed

definition w_site :: "string \<Rightarrow> string \<Rightarrow> Site" where
  "w_site x p = \<lparr>siID = x, siName = ''site'', siParentID = p, siDelegated = False\<rparr>"

theorem site_hierarchy_exact_witness:
  "\<exists>path. Lineage rev ''c'' [w_site ''c'' ''b'', w_site ''a'' [], w_site ''b'' ''a''] = Some (Inr path) \<and> last path = ''c'' \<and> distinct path"
proof -
  let ?sites = "[w_site ''c'' ''b'', w_site ''a'' [], w_site ''b'' ''a'']"
  have "ValidateHierarchy rev ?sites = Inr ()"
    by code_simp
  moreover have "''c'' \<in> siID ` set ?sites"
    by (simp add: w_site_def)
  moreover have "order_ok rev"
    by (simp add: order_ok_def)
  ultimately show ?thesis
    using site_hierarchy_exact[of rev ?sites "''c''"] by blast
qed

end
