(* ===== verification/Placement.thy ===== *)
theory Placement
  imports Go_Text Go_Json_Encode Go_Sha256
begin

text \<open>
  Package \<^verbatim>\<open>internal/placement\<close>, file \<^verbatim>\<open>plan.go\<close>, with the node roles of \<^verbatim>\<open>internal/corecontracts/roles.go\<close>:
  choice of the least loaded node for a workload. Resources are unsigned 64-bit words and the
  utilization wraps as in the source. An error is its text behind \<^verbatim>\<open>ErrInvalidPlan\<close>, in which a value printed
  with \<^verbatim>\<open>%q\<close> stands without the quotes. The validation of a candidate ranges over a map of fields, in
  the order \<open>ord k\<close> for the \<open>k\<close>-th candidate.
\<close>

subsection \<open>Data\<close>

type_synonym NodeRole = string

definition node_roles :: "NodeRole list" where
  "node_roles = [''management-node'', ''global-controller'', ''site-controller'', ''controller-cluster-member'',
     ''worker-node'', ''managed-node'', ''agent'', ''data-node'', ''consensus-node'', ''repository-node'',
     ''telemetry-node'', ''backup-repository-node'', ''edge-gateway'']"

definition NodeRole_Valid :: "NodeRole \<Rightarrow> bool" where
  "NodeRole_Valid r \<longleftrightarrow> r \<in> set node_roles"

datatype WorkloadClass = WorkloadStateless | WorkloadStateful | OtherClass string

definition class_text :: "WorkloadClass \<Rightarrow> string" where
  "class_text c = (case c of WorkloadStateless \<Rightarrow> ''stateless'' | WorkloadStateful \<Rightarrow> ''stateful'' | OtherClass s \<Rightarrow> s)"

record Resources =
  rsCPUMillicores :: uint64
  rsMemoryMiB :: uint64
  rsStorageGiB :: uint64

record Candidate =
  caNodeID :: string
  caSiteID :: string
  caZoneID :: string
  caRoles :: "NodeRole list"
  caHealthy :: bool
  caSchedulable :: bool
  caAllocatable :: Resources
  caUsed :: Resources

record PlacementRequest =
  plWorkloadID :: string
  plClass :: WorkloadClass
  plRequiredRole :: NodeRole
  plAllowedSites :: "string list"
  plAllowedZones :: "string list"
  plAntiAffinityNodeIDs :: "string list"
  plResources :: Resources
  plCurrentNodeID :: string
  plMigrationAdapter :: string
  plHealthyReplicasOutsideNode :: "32 word"
  plTopologyGeneration :: uint64
  plTopologyResourceVersion :: string

record PlacementPlan =
  pnContractVersion :: string
  pnPlanID :: string
  pnWorkloadID :: string
  pnSelectedNodeID :: string
  pnSelectedSiteID :: string
  pnSelectedZoneID :: string
  pnResources :: Resources
  pnDominantUtilizationPPM :: uint64
  pnTopologyGeneration :: uint64
  pnTopologyResourceVersion :: string
  pnRequiresApprovedChange :: bool
  pnRequiresDurableJob :: bool
  pnRequiresAudit :: bool
  pnRevalidateBeforeExecute :: bool
  pnPlanOnly :: bool
  pnHostMutation :: bool

subsection \<open>Normalization\<close>

text \<open>The loop of \<^verbatim>\<open>identifier\<close> over the runes: a byte beyond ASCII is part of a rune that is refused.\<close>

fun identifier_loop :: "string \<Rightarrow> nat \<Rightarrow> nat \<Rightarrow> string \<Rightarrow> string + unit" where
  "identifier_loop field n i [] = Inr ()"
| "identifier_loop field n i (c # s) =
     (if \<not> alnum c \<and> c \<notin> set ''._:-'' then Inl (field @ '' is not a canonical identifier'')
      else if (i = 0 \<or> i = n - 1) \<and> \<not> alnum c then Inl (field @ '' must have alphanumeric ends'')
      else identifier_loop field n (Suc i) s)"

definition canonical_identifier :: "string \<Rightarrow> string \<Rightarrow> string + unit" where
  "canonical_identifier field v =
     (if v = [] \<or> length v > 128 \<or> TrimSpace v \<noteq> v then Inl (field @ '' is required and must be canonical'')
      else identifier_loop field (length v) 0 v)"

fun adjacent_duplicate :: "string list \<Rightarrow> string option" where
  "adjacent_duplicate (x # y # ys) = (if y = x then Some y else adjacent_duplicate (y # ys))"
| "adjacent_duplicate _ = None"

definition canonicalIDs :: "string \<Rightarrow> string list \<Rightarrow> string + string list" where
  "canonicalIDs field values =
     (let trimmed = map TrimSpace values in
      case first_error (map (canonical_identifier field) trimmed) of Inl e \<Rightarrow> Inl e
      | Inr _ \<Rightarrow>
        (case adjacent_duplicate (sort trimmed) of
           Some d \<Rightarrow> Inl (field @ '' contains duplicate '' @ d) | None \<Rightarrow> Inr (sort trimmed)))"

definition normalizeRequest :: "PlacementRequest \<Rightarrow> string + PlacementRequest" where
  "normalizeRequest request =
     (let r = request\<lparr>plWorkloadID := TrimSpace (plWorkloadID request), plCurrentNodeID := TrimSpace (plCurrentNodeID request),
            plMigrationAdapter := TrimSpace (plMigrationAdapter request),
            plTopologyResourceVersion := TrimSpace (plTopologyResourceVersion request)\<rparr> in
      case first_error
        [canonical_identifier ''workload_id'' (plWorkloadID r),
         require (\<not> (plClass r \<noteq> WorkloadStateless \<and> plClass r \<noteq> WorkloadStateful))
           (''unsupported workload class '' @ class_text (plClass r)),
         require (NodeRole_Valid (plRequiredRole r)) ''required_role is not canonical'',
         require (\<not> (rsCPUMillicores (plResources r) = 0 \<or> rsMemoryMiB (plResources r) = 0 \<or> rsStorageGiB (plResources r) = 0))
           ''resource requirements must be positive'',
         require (plTopologyGeneration r \<noteq> 0) ''topology_generation is required'',
         canonical_identifier ''topology_resource_version'' (plTopologyResourceVersion r)]
      of Inl e \<Rightarrow> Inl e
      | Inr _ \<Rightarrow>
     (case canonicalIDs ''allowed_sites'' (plAllowedSites r) of Inl e \<Rightarrow> Inl e
      | Inr sites \<Rightarrow>
     (case canonicalIDs ''allowed_zones'' (plAllowedZones r) of Inl e \<Rightarrow> Inl e
      | Inr zones \<Rightarrow>
     (case canonicalIDs ''anti_affinity_node_ids'' (plAntiAffinityNodeIDs r) of Inl e \<Rightarrow> Inl e
      | Inr avoided \<Rightarrow>
     (case first_error
        [(if plCurrentNodeID r \<noteq> [] then canonical_identifier ''current_node_id'' (plCurrentNodeID r) else Inr ()),
         (if plMigrationAdapter r \<noteq> [] then canonical_identifier ''migration_adapter'' (plMigrationAdapter r) else Inr ())]
      of Inl e \<Rightarrow> Inl e
      | Inr _ \<Rightarrow> Inr (r\<lparr>plAllowedSites := sites, plAllowedZones := zones, plAntiAffinityNodeIDs := avoided\<rparr>))))))"

definition within :: "Resources \<Rightarrow> Resources \<Rightarrow> bool" where
  "within u a \<longleftrightarrow> \<not> (rsCPUMillicores u > rsCPUMillicores a \<or> rsMemoryMiB u > rsMemoryMiB a \<or> rsStorageGiB u > rsStorageGiB a)"

definition normalizeCandidate :: "field_order \<Rightarrow> Candidate \<Rightarrow> string + Candidate" where
  "normalizeCandidate ord candidate =
     (let c = candidate\<lparr>caNodeID := TrimSpace (caNodeID candidate), caSiteID := TrimSpace (caSiteID candidate),
            caZoneID := TrimSpace (caZoneID candidate)\<rparr>; roles = sort (caRoles c) in
      case first_error
        [first_error (map (\<lambda>(field, v). canonical_identifier field v)
           (ord [(''node_id'', caNodeID c), (''site_id'', caSiteID c), (''zone_id'', caZoneID c)])),
         require (\<not> (rsCPUMillicores (caAllocatable c) = 0 \<or> rsMemoryMiB (caAllocatable c) = 0 \<or> rsStorageGiB (caAllocatable c) = 0))
           (''candidate '' @ caNodeID c @ '' has zero allocatable resource''),
         require (within (caUsed c) (caAllocatable c)) (''candidate '' @ caNodeID c @ '' usage exceeds allocatable resources''),
         require (length (caRoles c) \<noteq> 0) (''candidate '' @ caNodeID c @ '' has no roles''),
         require (list_all NodeRole_Valid (caRoles c)) (''candidate '' @ caNodeID c @ '' has invalid role''),
         require (adjacent_duplicate roles = None) (''candidate '' @ caNodeID c @ '' repeats a role'')]
      of Inl e \<Rightarrow> Inl e | Inr _ \<Rightarrow> Inr (c\<lparr>caRoles := roles\<rparr>))"

subsection \<open>Selection\<close>

definition fits :: "Candidate \<Rightarrow> Resources \<Rightarrow> bool" where
  "fits c need \<longleftrightarrow> rsCPUMillicores need \<le> rsCPUMillicores (caAllocatable c) - rsCPUMillicores (caUsed c)
     \<and> rsMemoryMiB need \<le> rsMemoryMiB (caAllocatable c) - rsMemoryMiB (caUsed c)
     \<and> rsStorageGiB need \<le> rsStorageGiB (caAllocatable c) - rsStorageGiB (caUsed c)"

definition utilizationPPM :: "uint64 \<Rightarrow> uint64 \<Rightarrow> uint64 \<Rightarrow> uint64" where
  "utilizationPPM used need allocatable = (used + need) * 1000000 div allocatable"

definition dominantPPM :: "Candidate \<Rightarrow> Resources \<Rightarrow> uint64" where
  "dominantPPM c need =
     hd (rev (sort [utilizationPPM (rsCPUMillicores (caUsed c)) (rsCPUMillicores need) (rsCPUMillicores (caAllocatable c)),
        utilizationPPM (rsMemoryMiB (caUsed c)) (rsMemoryMiB need) (rsMemoryMiB (caAllocatable c)),
        utilizationPPM (rsStorageGiB (caUsed c)) (rsStorageGiB need) (rsStorageGiB (caAllocatable c))]))"

definition containsRole :: "NodeRole list \<Rightarrow> NodeRole \<Rightarrow> bool" where
  "containsRole vs wanted \<longleftrightarrow> list_ex (\<lambda>v. v = wanted) vs"

definition contains :: "string list \<Rightarrow> string \<Rightarrow> bool" where
  "contains vs wanted = (let i = SearchStrings vs wanted in i < length vs \<and> vs ! i = wanted)"

definition allowed :: "string \<Rightarrow> string list \<Rightarrow> bool" where
  "allowed v vs \<longleftrightarrow> length vs = 0 \<or> contains vs v"

definition candidate_eligible :: "PlacementRequest \<Rightarrow> Candidate \<Rightarrow> bool" where
  "candidate_eligible q c \<longleftrightarrow> \<not> (\<not> caHealthy c \<or> \<not> caSchedulable c \<or> \<not> containsRole (caRoles c) (plRequiredRole q)
     \<or> \<not> allowed (caSiteID c) (plAllowedSites q) \<or> \<not> allowed (caZoneID c) (plAllowedZones q)
     \<or> contains (plAntiAffinityNodeIDs q) (caNodeID c) \<or> \<not> fits c (plResources q))"

fun candidate_loop ::
  "(nat \<Rightarrow> field_order) \<Rightarrow> PlacementRequest \<Rightarrow> nat \<Rightarrow> string list \<Rightarrow> (Candidate \<times> uint64) list \<Rightarrow> Candidate list \<Rightarrow>
   string + (Candidate \<times> uint64) list" where
  "candidate_loop ord q k seen eligible [] = Inr eligible"
| "candidate_loop ord q k seen eligible (raw # cs) =
     (case normalizeCandidate (ord k) raw of Inl e \<Rightarrow> Inl e
      | Inr c \<Rightarrow>
        (if caNodeID c \<in> set seen then Inl (''duplicate candidate '' @ caNodeID c)
         else candidate_loop ord q (Suc k) (caNodeID c # seen)
           (if candidate_eligible q c then eligible @ [(c, dominantPPM c (plResources q))] else eligible) cs))"

subsection \<open>Plan\<close>

definition strings_json :: "string \<Rightarrow> string list \<Rightarrow> (string \<times> json) list" where
  "strings_json name vs = (if vs = [] then [] else [(name, JArray (map JString vs))])"

definition resources_json :: "Resources \<Rightarrow> json" where
  "resources_json r = JObject [(''cpu_millicores'', JInt (uint (rsCPUMillicores r))), (''memory_mib'', JInt (uint (rsMemoryMiB r))),
     (''storage_gib'', JInt (uint (rsStorageGiB r)))]"

definition request_json :: "PlacementRequest \<Rightarrow> json" where
  "request_json q = JObject ([(''workload_id'', JString (plWorkloadID q)), (''class'', JString (class_text (plClass q))),
     (''required_role'', JString (plRequiredRole q))] @ strings_json ''allowed_sites'' (plAllowedSites q)
     @ strings_json ''allowed_zones'' (plAllowedZones q) @ strings_json ''anti_affinity_node_ids'' (plAntiAffinityNodeIDs q)
     @ [(''resources'', resources_json (plResources q))]
     @ (if plCurrentNodeID q = [] then [] else [(''current_node_id'', JString (plCurrentNodeID q))])
     @ (if plMigrationAdapter q = [] then [] else [(''migration_adapter'', JString (plMigrationAdapter q))])
     @ [(''healthy_replicas_outside_node'', JInt (uint (plHealthyReplicasOutsideNode q))),
        (''topology_generation'', JInt (uint (plTopologyGeneration q))),
        (''topology_resource_version'', JString (plTopologyResourceVersion q))])"

definition candidate_json :: "Candidate \<Rightarrow> json" where
  "candidate_json c = JObject [(''node_id'', JString (caNodeID c)), (''site_id'', JString (caSiteID c)), (''zone_id'', JString (caZoneID c)),
     (''roles'', JArray (map JString (caRoles c))), (''healthy'', JBool (caHealthy c)), (''schedulable'', JBool (caSchedulable c)),
     (''allocatable'', resources_json (caAllocatable c)), (''used'', resources_json (caUsed c))]"

definition placement_plan :: "PlacementRequest \<Rightarrow> Candidate \<times> uint64 \<Rightarrow> PlacementPlan" where
  "placement_plan q selected =
     \<lparr>pnContractVersion = ''placement.plan/v1'',
      pnPlanID = ''plc-'' @ take 24 (sha256_hex (json_Marshal (JObject [(''request'', request_json q),
        (''selected'', candidate_json (fst selected)), (''score'', JInt (uint (snd selected)))]))),
      pnWorkloadID = plWorkloadID q, pnSelectedNodeID = caNodeID (fst selected), pnSelectedSiteID = caSiteID (fst selected),
      pnSelectedZoneID = caZoneID (fst selected), pnResources = plResources q, pnDominantUtilizationPPM = snd selected,
      pnTopologyGeneration = plTopologyGeneration q, pnTopologyResourceVersion = plTopologyResourceVersion q,
      pnRequiresApprovedChange = True, pnRequiresDurableJob = True, pnRequiresAudit = True, pnRevalidateBeforeExecute = True,
      pnPlanOnly = True, pnHostMutation = False\<rparr>"

definition unsafe_move :: "PlacementRequest \<Rightarrow> Candidate \<Rightarrow> bool" where
  "unsafe_move q c \<longleftrightarrow> plClass q = WorkloadStateful \<and> plCurrentNodeID q \<noteq> [] \<and> caNodeID c \<noteq> plCurrentNodeID q
     \<and> (plMigrationAdapter q = [] \<or> plHealthyReplicasOutsideNode q = 0)"

definition BuildPlan :: "(nat \<Rightarrow> field_order) \<Rightarrow> PlacementRequest \<Rightarrow> Candidate list \<Rightarrow> string + PlacementPlan" where
  "BuildPlan ord request candidates =
     (case normalizeRequest request of Inl e \<Rightarrow> Inl e
      | Inr q \<Rightarrow>
        (if length candidates = 0 \<or> length candidates > 4096 then Inl ''candidates must contain between 1 and 4096 nodes''
         else case candidate_loop ord q 0 [] [] candidates of Inl e \<Rightarrow> Inl e
         | Inr eligible \<Rightarrow>
           (if length eligible = 0 then Inl ''no healthy schedulable candidate satisfies placement constraints''
            else (let selected = hd (sort_key (\<lambda>(c, score). (score, caNodeID c)) eligible) in
              if unsafe_move q (fst selected)
              then Inl ''stateful move requires a migration adapter and a healthy replica outside the current node''
              else Inr (placement_plan q selected)))))"

subsection \<open>Search and duplicates\<close>

lemma contains_sorted: "sorted vs \<Longrightarrow> contains vs w \<longleftrightarrow> w \<in> set vs"
  using SearchStrings_member[of vs w] by (simp add: contains_def Let_def)

lemma adjacent_duplicate_iff: "sorted vs \<Longrightarrow> adjacent_duplicate vs = None \<longleftrightarrow> distinct vs"
proof (induction vs rule: adjacent_duplicate.induct)
  case (1 x y ys)
  then show ?case
    by (cases "x = y") fastforce+
qed auto

subsection \<open>Normal forms\<close>

definition identifier_ok :: "string \<Rightarrow> bool" where
  "identifier_ok v \<longleftrightarrow> (canonical_identifier [] v = Inr ())"

lemma identifier_loop_field: "identifier_loop f n i s = Inr u \<longleftrightarrow> identifier_loop g n i s = Inr u"
  by (induction s arbitrary: i) auto

lemma canonical_identifier_ok: "canonical_identifier f v = Inr u \<longleftrightarrow> identifier_ok v"
  using identifier_loop_field[of f "length v" 0 v "()" "[]"] by (auto simp: identifier_ok_def canonical_identifier_def)

lemma canonicalIDs_sorted: "canonicalIDs f vs = Inr ids \<Longrightarrow> sorted ids \<and> distinct ids \<and> set ids = TrimSpace ` set vs"
  using adjacent_duplicate_iff[of "sort (map TrimSpace vs)"]
  by (auto simp: canonicalIDs_def Let_def split: sum.splits option.splits)

definition normal_candidate :: "Candidate \<Rightarrow> Candidate" where
  "normal_candidate c = c\<lparr>caNodeID := TrimSpace (caNodeID c), caSiteID := TrimSpace (caSiteID c),
     caZoneID := TrimSpace (caZoneID c), caRoles := sort (caRoles c)\<rparr>"

definition positive :: "Resources \<Rightarrow> bool" where
  "positive r \<longleftrightarrow> rsCPUMillicores r \<noteq> 0 \<and> rsMemoryMiB r \<noteq> 0 \<and> rsStorageGiB r \<noteq> 0"

definition candidate_ok :: "Candidate \<Rightarrow> bool" where
  "candidate_ok c \<longleftrightarrow> identifier_ok (TrimSpace (caNodeID c)) \<and> identifier_ok (TrimSpace (caSiteID c)) \<and> identifier_ok (TrimSpace (caZoneID c))
     \<and> positive (caAllocatable c) \<and> within (caUsed c) (caAllocatable c) \<and> caRoles c \<noteq> []
     \<and> list_all NodeRole_Valid (caRoles c) \<and> distinct (caRoles c)"

lemma normalizeCandidate_iff:
  assumes "order_ok ord"
  shows "normalizeCandidate ord c = Inr d \<longleftrightarrow> candidate_ok c \<and> d = normal_candidate c"
  by (auto simp: normalizeCandidate_def candidate_ok_def normal_candidate_def positive_def Let_def order_ok_set[OF assms]
      adjacent_duplicate_iff canonical_identifier_ok early_return_Inr)

subsection \<open>The loop over the candidates\<close>

definition rank :: "Candidate \<times> uint64 \<Rightarrow> uint64 \<times> string" where
  "rank = (\<lambda>(c, score). (score, caNodeID c))"

definition ranked :: "PlacementRequest \<Rightarrow> Candidate list \<Rightarrow> (Candidate \<times> uint64) list" where
  "ranked q cs = map (\<lambda>c. (c, dominantPPM c (plResources q))) (filter (candidate_eligible q) (map normal_candidate cs))"

definition candidates_ok :: "Candidate list \<Rightarrow> bool" where
  "candidates_ok cs \<longleftrightarrow> list_all candidate_ok cs \<and> distinct (map (caNodeID \<circ> normal_candidate) cs)"

lemma candidate_loop_iff:
  assumes "\<forall>k. order_ok (ord k)"
  shows "candidate_loop ord q k seen acc cs = Inr res \<longleftrightarrow> candidates_ok cs
    \<and> (\<forall>c \<in> set cs. caNodeID (normal_candidate c) \<notin> set seen) \<and> res = acc @ ranked q cs"
proof (induction cs arbitrary: k seen acc)
  case (Cons c cs)
  have "order_ok (ord k)"
    using assms by simp
  then show ?case
    by (auto simp: early_return_Inr normalizeCandidate_iff Cons.IH candidates_ok_def ranked_def image_iff)
qed (auto simp: candidates_ok_def ranked_def)

lemma rank_inj: "candidates_ok cs \<Longrightarrow> inj_on rank (set (ranked q cs))"
  by (auto simp: candidates_ok_def ranked_def rank_def inj_on_def distinct_map)

lemma candidates_ok_mset: "mset cs = mset cs' \<Longrightarrow> candidates_ok cs \<longleftrightarrow> candidates_ok cs'"
  unfolding candidates_ok_def list_all_iff
  by (metis mset_eq_setD mset_eq_imp_distinct_iff mset_map)

lemma ranked_mset: "mset cs = mset cs' \<Longrightarrow> mset (ranked q cs) = mset (ranked q cs')"
  by (simp add: ranked_def)

lemma sort_ranked:
  assumes "mset cs = mset cs'" "candidates_ok cs"
  shows "sort_key rank (ranked q cs) = sort_key rank (ranked q cs')"
  by (rule sort_key_inj_key_eq[OF _ rank_inj[OF assms(2)]]) (simp_all add: ranked_mset[OF assms(1)])

lemma BuildPlan_iff:
  assumes "\<forall>k. order_ok (ord k)"
  shows "BuildPlan ord request cs = Inr plan \<longleftrightarrow>
    (\<exists>q. normalizeRequest request = Inr q \<and> cs \<noteq> [] \<and> length cs \<le> 4096 \<and> candidates_ok cs \<and> ranked q cs \<noteq> []
       \<and> \<not> unsafe_move q (fst (hd (sort_key rank (ranked q cs)))) \<and> plan = placement_plan q (hd (sort_key rank (ranked q cs))))"
  by (auto simp: BuildPlan_def Let_def rank_def[symmetric] early_return_Inr candidate_loop_iff[OF assms] not_less)

text \<open>The first entry of the sorted ranking is the least one.\<close>

lemma selected_least:
  assumes "ranked q cs \<noteq> []"
  shows "hd (sort_key rank (ranked q cs)) \<in> set (ranked q cs) \<and> (\<forall>x \<in> set (ranked q cs). rank (hd (sort_key rank (ranked q cs))) \<le> rank x)"
proof -
  let ?s = "sort_key rank (ranked q cs)"
  have "?s \<noteq> []"
    using assms by (metis set_empty set_sort)
  then obtain y ys where "?s = y # ys"
    by (cases ?s) auto
  moreover have "sorted (map rank ?s)" "set ?s = set (ranked q cs)"
    by simp_all
  ultimately show ?thesis
    by (auto simp: image_iff)
qed

subsection \<open>Suitable nodes\<close>

text \<open>What a node has to offer to the request, without the searches and the subtractions of the code.\<close>

definition has_room :: "uint64 \<Rightarrow> uint64 \<Rightarrow> uint64 \<Rightarrow> bool" where
  "has_room allocatable used need \<longleftrightarrow> unat used + unat need \<le> unat allocatable"

definition suitable :: "PlacementRequest \<Rightarrow> Candidate \<Rightarrow> bool" where
  "suitable r c \<longleftrightarrow> caHealthy c \<and> caSchedulable c \<and> plRequiredRole r \<in> set (caRoles c)
     \<and> (plAllowedSites r = [] \<or> TrimSpace (caSiteID c) \<in> TrimSpace ` set (plAllowedSites r))
     \<and> (plAllowedZones r = [] \<or> TrimSpace (caZoneID c) \<in> TrimSpace ` set (plAllowedZones r))
     \<and> TrimSpace (caNodeID c) \<notin> TrimSpace ` set (plAntiAffinityNodeIDs r)
     \<and> has_room (rsCPUMillicores (caAllocatable c)) (rsCPUMillicores (caUsed c)) (rsCPUMillicores (plResources r))
     \<and> has_room (rsMemoryMiB (caAllocatable c)) (rsMemoryMiB (caUsed c)) (rsMemoryMiB (plResources r))
     \<and> has_room (rsStorageGiB (caAllocatable c)) (rsStorageGiB (caUsed c)) (rsStorageGiB (plResources r))"

lemma room_subtraction: "u \<le> a \<Longrightarrow> n \<le> a - u \<longleftrightarrow> has_room a u n"
  by (auto simp: has_room_def word_le_nat_alt unat_sub)

lemma fits_room:
  "within (caUsed c) (caAllocatable c) \<Longrightarrow> fits c need \<longleftrightarrow>
     has_room (rsCPUMillicores (caAllocatable c)) (rsCPUMillicores (caUsed c)) (rsCPUMillicores need)
     \<and> has_room (rsMemoryMiB (caAllocatable c)) (rsMemoryMiB (caUsed c)) (rsMemoryMiB need)
     \<and> has_room (rsStorageGiB (caAllocatable c)) (rsStorageGiB (caUsed c)) (rsStorageGiB need)"
  by (simp add: fits_def within_def room_subtraction not_less)

lemma canonicalIDs_set: "canonicalIDs f vs = Inr ids \<Longrightarrow> sorted ids \<and> set ids = TrimSpace ` set vs"
  using canonicalIDs_sorted by blast

lemma normalizeRequest_fields:
  assumes "normalizeRequest r = Inr q"
  shows "plResources q = plResources r" "plRequiredRole q = plRequiredRole r" "plClass q = plClass r"
    "plCurrentNodeID q = TrimSpace (plCurrentNodeID r)" "plMigrationAdapter q = TrimSpace (plMigrationAdapter r)"
    "plHealthyReplicasOutsideNode q = plHealthyReplicasOutsideNode r"
    "sorted (plAllowedSites q) \<and> set (plAllowedSites q) = TrimSpace ` set (plAllowedSites r)"
    "sorted (plAllowedZones q) \<and> set (plAllowedZones q) = TrimSpace ` set (plAllowedZones r)"
    "sorted (plAntiAffinityNodeIDs q) \<and> set (plAntiAffinityNodeIDs q) = TrimSpace ` set (plAntiAffinityNodeIDs r)"
  using assms by (auto simp: normalizeRequest_def Let_def early_return_Inr dest!: canonicalIDs_set)

lemma allowed_iff: "sorted ids \<and> set ids = TrimSpace ` set vs \<Longrightarrow> allowed v ids \<longleftrightarrow> vs = [] \<or> v \<in> TrimSpace ` set vs"
  by (auto simp: allowed_def contains_sorted)

lemma eligible_suitable:
  assumes "normalizeRequest r = Inr q" "candidate_ok c"
  shows "candidate_eligible q (normal_candidate c) \<longleftrightarrow> suitable r c"
proof -
  note q = normalizeRequest_fields[OF assms(1)]
  have "within (caUsed (normal_candidate c)) (caAllocatable (normal_candidate c))"
    using assms(2) by (simp add: candidate_ok_def normal_candidate_def)
  note fits_room[OF this, of "plResources q"]
  moreover have "containsRole (caRoles (normal_candidate c)) (plRequiredRole q) \<longleftrightarrow> plRequiredRole r \<in> set (caRoles c)"
    by (auto simp: containsRole_def list_ex_iff normal_candidate_def q(2))
  ultimately show ?thesis
    using allowed_iff[OF q(7)] allowed_iff[OF q(8)] contains_sorted q(9)
    by (simp add: candidate_eligible_def suitable_def q(1) normal_candidate_def) blast
qed

subsection \<open>Utilization\<close>

definition exact_ppm :: "uint64 \<Rightarrow> uint64 \<Rightarrow> uint64 \<Rightarrow> nat" where
  "exact_ppm used need allocatable = (unat used + unat need) * 1000000 div unat allocatable"

definition exact_load :: "Candidate \<Rightarrow> Resources \<Rightarrow> nat" where
  "exact_load c need = Max {exact_ppm (rsCPUMillicores (caUsed c)) (rsCPUMillicores need) (rsCPUMillicores (caAllocatable c)),
     exact_ppm (rsMemoryMiB (caUsed c)) (rsMemoryMiB need) (rsMemoryMiB (caAllocatable c)),
     exact_ppm (rsStorageGiB (caUsed c)) (rsStorageGiB need) (rsStorageGiB (caAllocatable c))}"

definition small_capacity :: "Candidate \<Rightarrow> bool" where
  "small_capacity c \<longleftrightarrow> rsCPUMillicores (caAllocatable c) \<le> 18446744073709 \<and> rsMemoryMiB (caAllocatable c) \<le> 18446744073709
     \<and> rsStorageGiB (caAllocatable c) \<le> 18446744073709"

lemma utilization_exact:
  assumes "has_room a u n" "a \<le> 18446744073709"
  shows "unat (utilizationPPM u n a) = exact_ppm u n a"
proof -
  have a: "unat a \<le> 18446744073709"
    using assms(2) by (simp add: word_le_nat_alt)
  then have "unat (u + n) = unat u + unat n"
    using assms(1) by (intro unat_add_lem[THEN iffD1]) (simp add: has_room_def)
  moreover from this have "unat ((u + n) * 1000000) = unat (u + n) * unat (1000000 :: uint64)"
    using a assms(1) by (intro unat_mult_lem[THEN iffD1]) (simp add: has_room_def)
  ultimately show ?thesis
    by (simp add: utilizationPPM_def exact_ppm_def unat_div)
qed

lemma exact_ppm_bound:
  assumes "has_room a u n"
  shows "exact_ppm u n a \<le> 1000000"
proof -
  have "(unat u + unat n) * 1000000 div unat a \<le> unat a * 1000000 div unat a"
    using assms by (intro div_le_mono mult_le_mono1) (simp add: has_room_def)
  also have "\<dots> \<le> 1000000"
    by (cases "unat a = 0") simp_all
  finally show ?thesis
    by (simp add: exact_ppm_def)
qed

lemma dominantPPM_max:
  "dominantPPM c need = Max {utilizationPPM (rsCPUMillicores (caUsed c)) (rsCPUMillicores need) (rsCPUMillicores (caAllocatable c)),
     utilizationPPM (rsMemoryMiB (caUsed c)) (rsMemoryMiB need) (rsMemoryMiB (caAllocatable c)),
     utilizationPPM (rsStorageGiB (caUsed c)) (rsStorageGiB need) (rsStorageGiB (caAllocatable c))}"
  by (auto simp: dominantPPM_def max_def)

lemma unat_max: "unat (max a b) = max (unat a) (unat (b :: uint64))"
  by (auto simp: max_def word_le_nat_alt)

subsection \<open>Example\<close>

definition w_resources :: "uint64 \<Rightarrow> uint64 \<Rightarrow> uint64 \<Rightarrow> Resources" where
  "w_resources cpu memory storage = \<lparr>rsCPUMillicores = cpu, rsMemoryMiB = memory, rsStorageGiB = storage\<rparr>"

definition w_node :: "string \<Rightarrow> uint64 \<Rightarrow> uint64 \<Rightarrow> Candidate" where
  "w_node n cpu used = \<lparr>caNodeID = n, caSiteID = ''s'', caZoneID = ''z'', caRoles = [''worker-node''], caHealthy = True,
     caSchedulable = True, caAllocatable = w_resources cpu 1000 1000, caUsed = w_resources used 0 0\<rparr>"

definition w_placement :: PlacementRequest where
  "w_placement = \<lparr>plWorkloadID = ''w'', plClass = WorkloadStateless, plRequiredRole = ''worker-node'', plAllowedSites = [],
     plAllowedZones = [], plAntiAffinityNodeIDs = [], plResources = w_resources 1 1 1, plCurrentNodeID = [], plMigrationAdapter = [],
     plHealthyReplicasOutsideNode = 0, plTopologyGeneration = 1, plTopologyResourceVersion = ''v''\<rparr>"

lemma w_node_id: "caNodeID (w_node n cpu used) = n"
  by (simp add: w_node_def)

lemma w_placement_normal: "normalizeRequest w_placement = Inr w_placement"
  by code_simp

lemma w_nodes_ok:
  "candidates_ok [w_node ''a'' 9223372036854775808 9223372036854775807, w_node ''b'' 1000 1]"
  "candidates_ok [w_node ''a'' 1000 500, w_node ''b'' 1000 1]"
  by code_simp+

lemma w_ranked:
  "map rank (ranked w_placement [w_node ''a'' 9223372036854775808 9223372036854775807, w_node ''b'' 1000 1]) = [(1000, ''a''), (2000, ''b'')]"
  "map rank (ranked w_placement [w_node ''a'' 1000 500, w_node ''b'' 1000 1]) = [(501000, ''a''), (2000, ''b'')]"
  by code_simp+

lemma id_orders: "\<forall>k. order_ok ((\<lambda>_. id) k)"
  by (simp add: order_ok_def)

text \<open>A stateless request never meets the guard on moves, so a ranking gives a plan.\<close>

lemma w_plan:
  assumes "candidates_ok cs" "map rank (ranked w_placement cs) = (s, n) # rest" "cs \<noteq> []" "length cs \<le> 4096"
  shows "BuildPlan (\<lambda>_. id) w_placement cs = Inr (placement_plan w_placement (hd (sort_key rank (ranked w_placement cs))))"
proof -
  have "plClass w_placement = WorkloadStateless"
    by (simp add: w_placement_def)
  then show ?thesis
    using assms by (auto simp: BuildPlan_iff[OF id_orders] w_placement_normal unsafe_move_def)
qed

subsection \<open>Properties\<close>

definition load_rank :: "PlacementRequest \<Rightarrow> Candidate \<Rightarrow> uint64 \<times> string" where
  "load_rank r c = (dominantPPM c (plResources r), TrimSpace (caNodeID c))"

definition least_loaded :: "PlacementRequest \<Rightarrow> Candidate list \<Rightarrow> Candidate \<Rightarrow> bool" where
  "least_loaded r cs c \<longleftrightarrow> c \<in> set cs \<and> suitable r c \<and> (\<forall>d \<in> set cs. suitable r d \<longrightarrow> load_rank r c \<le> load_rank r d)"

definition move_guarded :: "PlacementRequest \<Rightarrow> Candidate \<Rightarrow> bool" where
  "move_guarded r c \<longleftrightarrow> (plClass r = WorkloadStateful \<and> TrimSpace (plCurrentNodeID r) \<notin> {[], TrimSpace (caNodeID c)} \<longrightarrow>
     TrimSpace (plMigrationAdapter r) \<noteq> [] \<and> plHealthyReplicasOutsideNode r \<noteq> 0)"

lemma ranked_load: "normalizeRequest r = Inr q \<Longrightarrow> rank (normal_candidate c, dominantPPM (normal_candidate c) (plResources q)) = load_rank r c"
  by (simp add: rank_def load_rank_def normalizeRequest_fields normal_candidate_def dominantPPM_def)

lemma selected_suitable:
  assumes "normalizeRequest r = Inr q" "candidates_ok cs" "ranked q cs \<noteq> []"
  shows "\<exists>c. least_loaded r cs c \<and> hd (sort_key rank (ranked q cs)) = (normal_candidate c, dominantPPM (normal_candidate c) (plResources q))"
proof -
  have eligible: "candidate_eligible q (normal_candidate c) \<longleftrightarrow> suitable r c" if "c \<in> set cs" for c
    using eligible_suitable[OF assms(1)] assms(2) that by (auto simp: candidates_ok_def list_all_iff)
  have least: "hd (sort_key rank (ranked q cs)) \<in> set (ranked q cs)"
    "\<forall>x \<in> set (ranked q cs). rank (hd (sort_key rank (ranked q cs))) \<le> rank x"
    using selected_least[OF assms(3)] by simp_all
  from least(1) obtain c where c: "c \<in> set cs" "suitable r c"
    "hd (sort_key rank (ranked q cs)) = (normal_candidate c, dominantPPM (normal_candidate c) (plResources q))"
    using eligible by (auto simp: ranked_def)
  have "load_rank r c \<le> load_rank r d" if "d \<in> set cs" "suitable r d" for d
  proof -
    have "(normal_candidate d, dominantPPM (normal_candidate d) (plResources q)) \<in> set (ranked q cs)"
      using that eligible by (auto simp: ranked_def)
    then show ?thesis
      using least(2) c(3) ranked_load[OF assms(1)] by metis
  qed
  then show ?thesis
    using c by (auto simp: least_loaded_def)
qed

text \<open>
  C16: The node of a plan is a suitable one (healthy, schedulable, with the role, in an allowed site and zone, not excluded, with
  room for the resources) that has the least score among all suitable candidates, ties going to the smallest node id; a stateful
  workload leaves its node only with a migration adapter and a healthy replica elsewhere; and the same plan results from every
  order of the candidates.
\<close>

theorem placement_least_loaded:
  assumes "\<forall>k. order_ok (ord k)" "\<forall>k. order_ok (ord' k)" "mset cs' = mset cs" "BuildPlan ord r cs = Inr plan"
  shows "BuildPlan ord' r cs' = Inr plan
    \<and> (\<exists>c. least_loaded r cs c \<and> pnSelectedNodeID plan = TrimSpace (caNodeID c)
         \<and> pnDominantUtilizationPPM plan = dominantPPM c (plResources r) \<and> move_guarded r c)"
proof -
  from assms(4) obtain q where q: "normalizeRequest r = Inr q" "cs \<noteq> []" "length cs \<le> 4096" "candidates_ok cs" "ranked q cs \<noteq> []"
    "\<not> unsafe_move q (fst (hd (sort_key rank (ranked q cs))))" "plan = placement_plan q (hd (sort_key rank (ranked q cs)))"
    using BuildPlan_iff[OF assms(1)] by blast
  have "sort_key rank (ranked q cs') = sort_key rank (ranked q cs)" "candidates_ok cs'" "length cs' = length cs" "cs' \<noteq> []"
    using sort_ranked[OF assms(3)[symmetric] q(4)] candidates_ok_mset[OF assms(3)] mset_eq_length[OF assms(3)] q(2,4) by auto
  moreover have "ranked q cs' \<noteq> []"
    using ranked_mset[OF assms(3), of q] q(5) by auto
  ultimately have "BuildPlan ord' r cs' = Inr plan"
    using q by (auto simp: BuildPlan_iff[OF assms(2)])
  moreover from selected_suitable[OF q(1,4,5)] obtain c where c: "least_loaded r cs c"
    "hd (sort_key rank (ranked q cs)) = (normal_candidate c, dominantPPM (normal_candidate c) (plResources q))"
    by blast
  have "pnSelectedNodeID plan = TrimSpace (caNodeID c)" "pnDominantUtilizationPPM plan = dominantPPM c (plResources r)"
    by (simp_all add: q(7) c(2) placement_plan_def normal_candidate_def normalizeRequest_fields[OF q(1)] dominantPPM_def)
  moreover have "move_guarded r c"
    using q(6) by (auto simp: move_guarded_def c(2) unsafe_move_def normalizeRequest_fields[OF q(1)] normal_candidate_def)
  ultimately show ?thesis
    using c(1) by blast
qed

theorem placement_least_loaded_witness:
  "\<exists>plan. BuildPlan (\<lambda>_. id) w_placement [w_node ''a'' 1000 500, w_node ''b'' 1000 1] = Inr plan
     \<and> BuildPlan (\<lambda>_. rev) w_placement [w_node ''b'' 1000 1, w_node ''a'' 1000 500] = Inr plan
     \<and> (\<exists>c. least_loaded w_placement [w_node ''a'' 1000 500, w_node ''b'' 1000 1] c \<and> pnSelectedNodeID plan = TrimSpace (caNodeID c))"
proof -
  let ?cs = "[w_node ''a'' 1000 500, w_node ''b'' 1000 1]"
  have plan: "BuildPlan (\<lambda>_. id) w_placement ?cs = Inr (placement_plan w_placement (hd (sort_key rank (ranked w_placement ?cs))))"
    by (rule w_plan[OF w_nodes_ok(2) w_ranked(2)]) simp_all
  then show ?thesis
    using placement_least_loaded[of "\<lambda>_. id" "\<lambda>_. rev" "[w_node ''b'' 1000 1, w_node ''a'' 1000 500]" ?cs w_placement]
    by (auto simp: order_ok_def)
qed

lemma score_exact:
  assumes "suitable r c" "small_capacity c"
  shows "unat (dominantPPM c (plResources r)) = exact_load c (plResources r) \<and> exact_load c (plResources r) \<le> 1000000"
  using assms utilization_exact exact_ppm_bound
  by (simp add: dominantPPM_max exact_load_def unat_max suitable_def small_capacity_def)

lemma w_overflow:
  "caNodeID (fst (hd (sort_key rank (ranked w_placement [w_node ''a'' 9223372036854775808 9223372036854775807, w_node ''b'' 1000 1])))) = ''a''"
  by code_simp

lemma w_loads:
  "exact_load (w_node ''a'' 9223372036854775808 9223372036854775807) (plResources w_placement) = 1000000"
  "exact_load (w_node ''b'' 1000 1) (plResources w_placement) = 2000"
  "suitable w_placement (w_node ''b'' 1000 1)"
  "small_capacity (w_node ''b'' 1000 1)"
  by (simp_all add: exact_load_def exact_ppm_def suitable_def has_room_def small_capacity_def w_node_def w_placement_def w_resources_def)

text \<open>
  C40: The score of a suitable node is its dominant utilization in parts per million, at most one million, as long as no capacity
  exceeds 18446744073709. Beyond that the product wraps and the choice can be wrong: a node that the workload fills to the last
  millicore is preferred to a suitable node of 0.2 percent utilization.
\<close>

theorem placement_score_bounds:
  "(suitable r c \<and> small_capacity c \<longrightarrow>
      unat (dominantPPM c (plResources r)) = exact_load c (plResources r) \<and> exact_load c (plResources r) \<le> 1000000)
   \<and> (\<exists>q full free plan. BuildPlan (\<lambda>_. id) q [full, free] = Inr plan \<and> pnSelectedNodeID plan = caNodeID full
        \<and> exact_load full (plResources q) = 1000000 \<and> suitable q free \<and> exact_load free (plResources q) = 2000)"
proof -
  have "\<exists>plan. BuildPlan (\<lambda>_. id) w_placement [w_node ''a'' 9223372036854775808 9223372036854775807, w_node ''b'' 1000 1] = Inr plan
      \<and> pnSelectedNodeID plan = ''a''"
    using w_plan[OF w_nodes_ok(1) w_ranked(1)] w_overflow by (auto simp: placement_plan_def)
  then show ?thesis
    using score_exact w_loads(1-3) by (metis w_node_id)
qed

theorem placement_score_bounds_witness:
  "unat (dominantPPM (w_node ''b'' 1000 1) (plResources w_placement)) = 2000"
  using placement_score_bounds[of w_placement "w_node ''b'' 1000 1"] w_loads by simp

end
