(* ===== verification/Spec2Isabelle.thy ===== *)
theory Spec2Isabelle
  imports
    Job_Timeline Retry_History Worker Execution_Guard Rbac Node_Plans Network_Change Incident_Operator Auth_Audit
    Site_Sync Site_Hierarchy Placement
begin

text \<open>
  A verification library for the Control Center, the server of this repository: a modular monolith in Go that
  takes a request through validation, authorization, a plan, a change, a durable job and a typed action to a verified
  state and an audit record. The theories model the packages of that path as HOL functions, definition by definition from the
  source, and prove the properties that make them correct. Paths below are relative to \<^verbatim>\<open>src/internal\<close>.

  \<^bold>\<open>The parts of the program and how they interact\<close>.

  An actor logs in (\<^verbatim>\<open>identity/auth\<close>) and every decision about what the actor may do is taken by role based access control
  (\<^verbatim>\<open>identity/rbac\<close>). A change to the managed system is a state machine (\<^verbatim>\<open>orchestration/change\<close>) whose approvals are
  judged by a policy (\<^verbatim>\<open>orchestration/policy\<close>); the preflight (\<^verbatim>\<open>orchestration/executionguard\<close>) checks an approved change once more
  before it is admitted. Work is a durable job (\<^verbatim>\<open>orchestration/job\<close>) that a worker (\<^verbatim>\<open>orchestration/worker\<close>) claims
  under a lease and executes through the registry of actions (\<^verbatim>\<open>orchestration/action\<close>); failed jobs are retried
  by operators with recorded lineage. Nodes have a lifecycle (\<^verbatim>\<open>nodelifecycle\<close>) on top of the distributed object
  envelope (\<^verbatim>\<open>corecontracts\<close>), network changes have a plan and a machine of their own (\<^verbatim>\<open>networkpolicy\<close>), incidents are read
  and changed by operators under RBAC (\<^verbatim>\<open>incidents\<close>), workloads are placed on nodes (\<^verbatim>\<open>placement\<close>), sites form a hierarchy
  (\<^verbatim>\<open>site\<close>) and exchange state (\<^verbatim>\<open>sitesync\<close>), and security relevant events go to a hash chained log (\<^verbatim>\<open>identity/audit\<close>).

  \<^bold>\<open>Theories, definitions and code\<close>.

  The prelude. \<open>Go_Prelude\<close> has times, contexts, maps, errors and the locales of the development; \<open>Go_Strings\<close> and
  \<open>Go_Text\<close> the string functions; \<open>Go_Json\<close> the validity of JSON and \<open>Go_Json_Encode\<close> its encoder; \<open>Go_Sha256\<close> the hash.

  \<^item> \<open>Policy\<close>, \<open>Change\<close> model \<^verbatim>\<open>orchestration/policy/policy.go\<close> and \<^verbatim>\<open>orchestration/change/change.go\<close> (with the precondition of
    \<^verbatim>\<open>orchestration/config/revision.go\<close>). The state is the record \<open>Snapshot\<close>, the methods \<open>New\<close>, \<open>Approve\<close> and \<open>Transition\<close>.
  \<^item> \<open>Job_Repository\<close> models \<^verbatim>\<open>orchestration/job\<close> (\<^verbatim>\<open>job.go\<close>, \<^verbatim>\<open>memory.go\<close>, \<^verbatim>\<open>retry.go\<close>, \<^verbatim>\<open>cancel_version.go\<close>): the record \<open>MemoryRepository\<close>
    and one function per method (\<open>Create\<close>, \<open>Claim\<close>, \<open>RenewLease\<close>, \<open>Succeed\<close>, \<open>Fail\<close>, \<open>RequestCancel\<close> and the reads). \<open>Job_Leases\<close> and
    \<open>Job_Correctness\<close> have its lemmas and properties.
  \<^item> \<open>Job_Timeline\<close> models the three \<^verbatim>\<open>timeline\<close> files, \<open>Manual_Retry\<close> and \<open>Retry_History\<close> the four \<^verbatim>\<open>manual_retry\<close> files.
  \<^item> \<open>Action_Registry\<close>, \<open>Worker\<close> and \<open>Execution_Guard\<close> model \<^verbatim>\<open>orchestration/action/registry.go\<close>, \<^verbatim>\<open>orchestration/worker/worker.go\<close>
    (\<open>RunOne\<close>, over the repository interface) and \<^verbatim>\<open>orchestration/executionguard/preflight.go\<close> (\<open>Evaluate\<close>).
  \<^item> \<open>Rbac\<close> models \<^verbatim>\<open>identity/rbac/rbac.go\<close>: \<open>RegisterRole\<close>, \<open>Bind\<close>, \<open>Allowed\<close> and the introspection.
  \<^item> \<open>Core_Metadata\<close> models \<^verbatim>\<open>corecontracts/metadata.go\<close>; \<open>Node_Lifecycle\<close> models \<^verbatim>\<open>nodelifecycle/lifecycle.go\<close> with its transition table,
    \<open>Node_History\<close> the histories of a node, \<open>Node_Plans\<close> the projection and the plans (\<^verbatim>\<open>projection.go\<close>, \<^verbatim>\<open>plan.go\<close>,
    \<^verbatim>\<open>operation_plan.go\<close>, \<^verbatim>\<open>decommission_plan.go\<close>).
  \<^item> \<open>Network_Plan\<close> and \<open>Network_Change\<close> model \<^verbatim>\<open>networkpolicy/policy.go\<close>, \<^verbatim>\<open>change_plan.go\<close> and \<^verbatim>\<open>change_machine.go\<close> (\<open>BuildChangePlan\<close>,
    \<open>NewChangeMachine\<close>, \<open>Apply\<close>).
  \<^item> \<open>Incident_Model\<close>, \<open>Incident_Mutation\<close>, \<open>Incident_Query\<close> and \<open>Incident_Operator\<close> model \<^verbatim>\<open>incidents/incident.go\<close>, \<^verbatim>\<open>mutation.go\<close>,
    \<^verbatim>\<open>query.go\<close>, and \<^verbatim>\<open>operator.go\<close> with \<^verbatim>\<open>rbac_policy.go\<close>; \<open>Incident_History\<close> is about sequences of mutations.
  \<^item> \<open>Login_Protection\<close>, \<open>Auth_Store\<close> and \<open>Auth_Service\<close> model \<^verbatim>\<open>identity/auth\<close> (\<^verbatim>\<open>login_protection.go\<close>, \<^verbatim>\<open>types.go\<close>, \<^verbatim>\<open>memory_store.go\<close>, \<^verbatim>\<open>service.go\<close>,
    \<^verbatim>\<open>session_policy.go\<close>); \<open>Auth_Sessions\<close> has the properties.
  \<^item> \<open>Audit_Redaction\<close> and \<open>Audit_Log\<close> model \<^verbatim>\<open>identity/audit\<close> (\<^verbatim>\<open>audit.go\<close>, \<^verbatim>\<open>integrity.go\<close>): redaction, the memory log, reads and the
    inspection of the chain. \<open>Auth_Audit\<close> runs the authentication service on this log.
  \<^item> \<open>Site_Sync\<close>, \<open>Site_Hierarchy\<close> and \<open>Placement\<close> model \<^verbatim>\<open>sitesync/state.go\<close>, \<^verbatim>\<open>site/model.go\<close> and \<^verbatim>\<open>placement/plan.go\<close>.

  A struct is a record, a string type with constants a datatype with one more constructor for every other string, an error a
  constructor or a text, a Go map an association list with distinct keys. A method that holds a mutex is one function of the state;
  concurrent executions are then lists of calls (\<open>run_ops\<close>, \<open>run_store\<close>, \<open>run_appends\<close>), and where a request makes several calls the
  activity between them is an argument: \<open>env\<close> in \<open>Auth_Service\<close>, the fields of \<open>world\<close> in \<open>Worker\<close>, the two states in
  \<open>Incident_Operator\<close>. The iteration order of a map is the order of its list, with steps that reorder it, or a permutation \<open>ord\<close> that the
  theorem quantifies over. Interfaces, third-party packages, clocks and random sources are parameters.

  \<^bold>\<open>Interfaces\<close>.

  \<open>step_system\<close> is a system of initial states and steps with an invariant, \<open>frozen_system\<close> adds facts no step undoes,
  \<open>versioned_object\<close> is an object updated under an expected version, \<open>job_repository\<close> is what the worker relies on and
  \<open>lineage_reader\<close> what the retry evidence relies on. All are interpreted on the definitions of the code: the change machine, the
  job, timeline and retry repositories, the network machine, the session store and the audit log.

  \<^bold>\<open>What the lemmas show\<close>.

  \<^item> Changes and approvals: nothing is executed without an allowing decision and enough distinct approvers; the preflight is
    exactly the conjunction of its conditions.
  \<^item> Jobs: the invariant of the repository and its refinement of the abstract moves of a job, exclusive leases, fencing of old
    tokens, creation once per idempotency key, claims in order, cancellation, timeline evidence, and for manual retries that a source version is
    retried once and that the evidence of a chain can always be rebuilt.
  \<^item> Workers: authority for every executed action, and the stored verdict.
  \<^item> RBAC: the decision in terms of the registered roles and bindings.
  \<^item> Nodes and network: what a node in maintenance, ready or retired has in its history, plans that match the table; a
    network change commits exactly after all its probes, and always ends.
  \<^item> Incidents: the exact conditions and results of mutations, append-only records, access only under a grant, complete pages.
  \<^item> Authentication: what ends a session, who gets one and for how long, lockout of accounts.
  \<^item> Audit: complete redaction, a chain in which tampering shows, exact reads, the trail of the authentication service.
  \<^item> Sites and placement: convergence of replicated state, the exact hierarchy check and lineages that return, the least loaded
    suitable node and the range in which its score is exact.

  \<^bold>\<open>Bounds and termination\<close>.

  Machine integers keep their width where the code can overflow: generations, versions and resources are 64-bit words, attempts and limits
  integers within the bounds the code checks. Recursion is structural or has a measure: the search of \<open>visit\<close> the sites without a
  colour, the loop of the retry history the records not yet used, \<open>redact_bearer\<close> and \<open>search_loop\<close> the rest of their input.
  \<open>lineage_loop\<close> is a partial function that is shown to return on accepted hierarchies. \<open>follow_pages\<close> has fuel; the property on it shows
  that as many steps as there are incidents, and one more, are enough.
  SHA-256 is executable but never evaluated in proofs: where a property rests on it, the case of a collision between the two texts at hand
  is part of the statement.

  \<^bold>\<open>Not modelled\<close>.

  \<^item> PostgreSQL persistence, HTTP handlers, the web interface, the server process, health probes and password hashing are I/O or
    calls of libraries; the in-memory implementations of the same interfaces are modelled.
  \<^item> Strict JSON decoding of requests, the CSV and JSON export of the audit log and the typed handlers of actions are work of the standard
    library's encoders and decoders.
  \<^item> The capacity planner, network telemetry, recovery contracts, market, agents, inventory, domains, automation, network boot, edge
    gateway, upgrade plans, offline sites, releases and the views of operations are side effect free contracts that share no
    state with the modelled path; several compute with floating point numbers. Of the distributed objects only the envelope
    and the node roles are modelled.
  \<^item> The texts of errors leave out the quotes, and in some theories the values, that the format verbs print.
\<close>

end
